(* ===== verification/Prelude.thy ===== *)
theory Prelude
  imports
    Main
    "HOL-Library.Word"
    "HOL-Library.Finite_Map"
    "HOL-Library.List_Lexorder"
    "HOL-Library.Char_ord"
begin

text \<open>
  Shared vocabulary of the development: the machine integers and identifiers of the server, Rust's
  \<open>Result\<close>, saturating and checked unsigned arithmetic, hash maps as finite maps together with
  the lemmas the components need about them, and the notion of a run of a component with the
  locale that lifts a one-step invariant to whole runs.
\<close>

section \<open>Types\<close>

type_synonym u8 = "8 word"
type_synonym u32 = "32 word"
type_synonym u64 = "64 word"

text \<open>
  Identifiers are plain \<open>u64\<close> values in the source (\<open>UserId\<close>, \<open>ChannelId\<close>,
  \<open>MessageId\<close> of \<open>model/channel.rs\<close>); a transport session id is constructed from a
  \<open>u64\<close> as well. Times are millisecond counts, read once per call and passed in as an
  argument; \<open>usize\<close> lengths are natural numbers.
\<close>

type_synonym session_id = u64
type_synonym user_id = u64
type_synonym channel_id = u64
type_synonym message_id = u64
type_synonym device_id = string
type_synonym time = int

datatype ('a, 'e) result = Ok (ok_value: 'a) | Err (err_value: 'e)

fun is_ok :: "('a, 'e) result \<Rightarrow> bool" where
  "is_ok (Ok _) = True"
| "is_ok (Err _) = False"

section \<open>Collections of facts\<close>

named_theorems op_defs \<open>definitions of the operations, unfolded to compute a step\<close>
named_theorems inv_intros \<open>preservation lemmas, one per operation and invariant\<close>

section \<open>Unsigned arithmetic\<close>

definition saturating_sub :: "'a::len word \<Rightarrow> 'a word \<Rightarrow> 'a word" where
  "saturating_sub a b = (if a < b then 0 else a - b)"

definition saturating_add :: "'a::len word \<Rightarrow> 'a word \<Rightarrow> 'a word" where
  "saturating_add a b = (if unat a + unat b < 2 ^ LENGTH('a) then a + b else - 1)"

definition checked_add :: "'a::len word \<Rightarrow> 'a word \<Rightarrow> 'a word option" where
  "checked_add a b = (if unat a + unat b < 2 ^ LENGTH('a) then Some (a + b) else None)"

lemma unat_saturating_sub: "unat (saturating_sub a b) = unat a - unat b"
  by (auto simp: saturating_sub_def unat_sub word_less_nat_alt not_less word_le_nat_alt)

lemma unat_saturating_add:
  "unat (saturating_add a b :: 'a::len word) = min (unat a + unat b) (2 ^ LENGTH('a) - 1)"
proof (cases "unat a + unat b < 2 ^ LENGTH('a)")
  case True
  then show ?thesis by (simp add: saturating_add_def unat_word_ariths)
next
  case False
  then show ?thesis by (simp add: saturating_add_def unsigned_minus_1_eq_mask mask_eq_exp_minus_1)
qed

lemma checked_add_Some:
  "checked_add a b = Some c \<Longrightarrow> unat c = unat a + unat b"
  by (auto simp: checked_add_def unat_word_ariths split: if_splits)

lemma checked_add_None:
  "checked_add (a :: 'a::len word) b = None \<longleftrightarrow> 2 ^ LENGTH('a) \<le> unat a + unat b"
  by (simp add: checked_add_def not_less)

text \<open>A computation on \<open>i64\<close> that may leave the type wraps around in the release build.\<close>

definition wrap_i64 :: "int \<Rightarrow> int" where
  "wrap_i64 x = sint (word_of_int x :: u64)"

lemma wrap_i64_id: "- (2 ^ 63) \<le> x \<Longrightarrow> x < 2 ^ 63 \<Longrightarrow> wrap_i64 x = x"
  by (simp add: wrap_i64_def signed_of_int signed_take_bit_int_eq_self)

section \<open>Hash maps\<close>

text \<open>
  A \<open>HashMap\<close>, \<open>DashMap\<close> or \<open>BTreeMap\<close> is a finite map. \<open>entry(k).or_insert(v)\<close>
  reads as \<open>fm_get_or\<close> followed by an update; iteration, whose order the standard library
  leaves open for hash maps, is over the entries in key order, and no statement of the development
  depends on that order.
\<close>

definition fm_get_or :: "'v \<Rightarrow> 'k \<Rightarrow> ('k, 'v) fmap \<Rightarrow> 'v" where
  "fm_get_or d k m = (case fmlookup m k of Some v \<Rightarrow> v | None \<Rightarrow> d)"

definition fm_entries :: "('k::linorder, 'v) fmap \<Rightarrow> ('k \<times> 'v) list" where
  "fm_entries m = map (\<lambda>k. (k, the (fmlookup m k))) (sorted_list_of_fset (fmdom m))"

definition fm_is_empty :: "('k, 'v) fmap \<Rightarrow> bool" where
  "fm_is_empty m \<longleftrightarrow> fmdom m = {||}"

definition fm_len :: "('k, 'v) fmap \<Rightarrow> nat" where
  "fm_len m = fcard (fmdom m)"

lemma fm_get_or_upd [simp]:
  "fm_get_or d k (fmupd k' v m) = (if k' = k then v else fm_get_or d k m)"
  by (simp add: fm_get_or_def)

lemma fm_get_or_empty [simp]: "fm_get_or d k fmempty = d"
  by (simp add: fm_get_or_def)

lemma fm_get_or_Some [simp]: "fmlookup m k = Some v \<Longrightarrow> fm_get_or d k m = v"
  by (simp add: fm_get_or_def)

lemma fm_get_or_None [simp]: "fmlookup m k = None \<Longrightarrow> fm_get_or d k m = d"
  by (simp add: fm_get_or_def)

lemma fm_get_or_drop [simp]:
  "fm_get_or d k (fmdrop k' m) = (if k' = k then d else fm_get_or d k m)"
  by (simp add: fm_get_or_def)

lemma set_sorted_list_of_fset [simp]: "set (sorted_list_of_fset A) = fset A"
  by (simp add: sorted_list_of_fset.rep_eq)

lemma fm_is_empty_iff: "fm_is_empty m \<longleftrightarrow> (\<forall>k. fmlookup m k = None)"
  by (auto simp: fm_is_empty_def fmdom_notI fmlookup_dom_iff)

lemma set_fm_entries: "set (fm_entries m) = {(k, v). fmlookup m k = Some v}"
  by (force simp: fm_entries_def fmlookup_dom_iff)

lemma in_fm_entries [simp]: "(k, v) \<in> set (fm_entries m) \<longleftrightarrow> fmlookup m k = Some v"
  by (simp add: set_fm_entries)

lemma ball_fm_entries:
  "(\<forall>x\<in>set (fm_entries m). P x) \<longleftrightarrow> (\<forall>k v. fmlookup m k = Some v \<longrightarrow> P (k, v))"
  by (auto simp: set_fm_entries)

lemma map_fst_fm_entries: "map fst (fm_entries m) = sorted_list_of_fset (fmdom m)"
  by (simp add: fm_entries_def comp_def)

lemma distinct_fm_entries: "distinct (map fst (fm_entries m))"
  by (simp add: map_fst_fm_entries sorted_list_of_fset.rep_eq)

lemma length_fm_entries: "length (fm_entries m) = fm_len m"
  by (simp add: fm_entries_def fm_len_def fcard.rep_eq sorted_list_of_fset.rep_eq)

lemma fm_entries_empty [simp]: "fm_entries fmempty = []"
  by (simp add: fm_entries_def sorted_list_of_fset.rep_eq)

lemma map_filter_Nil_iff: "List.map_filter f xs = [] \<longleftrightarrow> (\<forall>x\<in>set xs. f x = None)"
  by (auto simp: List.map_filter_def filter_empty_conv)

lemma set_map_filter: "set (List.map_filter f xs) = {y. \<exists>x\<in>set xs. f x = Some y}"
  by (force simp: List.map_filter_def)

lemma fold_invariant: "(\<And>x s. P s \<Longrightarrow> P (f x s)) \<Longrightarrow> P s \<Longrightarrow> P (fold f xs s)"
  by (induction xs arbitrary: s) auto

section \<open>Runs and invariants\<close>

text \<open>
  A component is driven by a sequence of calls. \<open>run step s es\<close> is the state after the calls
  \<open>es\<close>; \<open>admissible ok step s es\<close> says that every call of the sequence satisfies the
  condition \<open>ok\<close> in the state it is made in.
\<close>

fun run :: "('s \<Rightarrow> 'e \<Rightarrow> 's) \<Rightarrow> 's \<Rightarrow> 'e list \<Rightarrow> 's" where
  "run step s [] = s"
| "run step s (e # es) = run step (step s e) es"

fun admissible :: "('s \<Rightarrow> 'e \<Rightarrow> bool) \<Rightarrow> ('s \<Rightarrow> 'e \<Rightarrow> 's) \<Rightarrow> 's \<Rightarrow> 'e list \<Rightarrow> bool" where
  "admissible ok step s [] = True"
| "admissible ok step s (e # es) = (ok s e \<and> admissible ok step (step s e) es)"

lemma run_append: "run step s (xs @ ys) = run step (run step s xs) ys"
  by (induction xs arbitrary: s) auto

lemma admissible_append:
  "admissible ok step s (xs @ ys) \<longleftrightarrow>
     admissible ok step s xs \<and> admissible ok step (run step s xs) ys"
  by (induction xs arbitrary: s) auto

lemma admissible_True [simp]: "admissible (\<lambda>_ _. True) step s es"
  by (induction es arbitrary: s) auto

text \<open>
  The contract between a component and its invariant: the initial state satisfies it and every
  admissible call keeps it. Each component interprets it on its own step function.
\<close>

locale invariant_system =
  fixes init :: "'s"
    and step :: "'s \<Rightarrow> 'e \<Rightarrow> 's"
    and ok :: "'s \<Rightarrow> 'e \<Rightarrow> bool"
    and inv :: "'s \<Rightarrow> bool"
  assumes init_inv: "inv init"
    and step_inv: "inv s \<Longrightarrow> ok s e \<Longrightarrow> inv (step s e)"
begin

lemma run_inv_from: "inv s \<Longrightarrow> admissible ok step s es \<Longrightarrow> inv (run step s es)"
  by (induction es arbitrary: s) (auto intro: step_inv)

lemma run_inv: "admissible ok step init es \<Longrightarrow> inv (run step init es)"
  by (rule run_inv_from [OF init_inv])

lemma run_prefix_inv:
  "admissible ok step init (xs @ ys) \<Longrightarrow> inv (run step init xs)"
  by (simp add: admissible_append run_inv)

end

end
