(* ===== verification/ConnectionManager.thy ===== *)
theory ConnectionManager
  imports Prelude "HOL-Library.Sublist"
begin

text \<open>
  The connection manager of \<open>infra/connection_manager.rs\<close>: the two indexes that decide which
  session a user's device is reachable on, the session life cycle over them, the delivery path and
  the consistency self-check. Index A maps user and device to the current session, Index B maps a
  session to its full entry. The transport library and the wire codec are parameters.
\<close>

section \<open>Sessions and the two indexes\<close>

datatype session_state = Connecting | Authenticated | Replaced | Closing | Closed

definition is_deliverable :: "session_state \<Rightarrow> bool" where
  "is_deliverable st = (st = Authenticated)"

record session_entry =
  se_session_id :: session_id
  se_state :: session_state
  se_user_id :: "user_id option"
  se_device_id :: "device_id option"
  se_owner_node_id :: string
  se_superseded_by :: "session_id option"
  se_connected_at :: time
  se_authenticated_at :: "time option"

record device_connection =
  dc_user_id :: user_id
  dc_device_id :: device_id
  dc_session_id :: session_id
  dc_owner_node_id :: string
  dc_connected_at :: time

record connection_manager =
  index_a :: "(user_id, (device_id, session_id) fmap) fmap"
  index_b :: "(session_id, session_entry) fmap"
  total_authenticated :: u64
  local_node_id :: string

definition new_with_node_id :: "string \<Rightarrow> connection_manager" where
  "new_with_node_id node =
     \<lparr>index_a = fmempty, index_b = fmempty, total_authenticated = 0, local_node_id = node\<rparr>"

section \<open>Life cycle operations\<close>

definition connecting_entry :: "string \<Rightarrow> time \<Rightarrow> session_id \<Rightarrow> session_entry" where
  "connecting_entry node now sid =
     \<lparr>se_session_id = sid, se_state = Connecting, se_user_id = None, se_device_id = None,
      se_owner_node_id = node, se_superseded_by = None, se_connected_at = now,
      se_authenticated_at = None\<rparr>"

definition register_connecting :: "time \<Rightarrow> session_id \<Rightarrow> connection_manager \<Rightarrow> connection_manager" where
  "register_connecting now sid s =
     (case fmlookup (index_b s) sid of
        Some _ \<Rightarrow> s
      | None \<Rightarrow> s\<lparr>index_b := fmupd sid (connecting_entry (local_node_id s) now sid) (index_b s)\<rparr>)"

text \<open>
  \<open>authenticate\<close> takes its locks twice: step 1 binds the identity in Index B, steps 2 and 3 run
  under the exclusive lock of the user's shard of Index A. The two critical sections are separate
  definitions, so that the interleaving model below can schedule between them.
\<close>

definition authenticate_bind ::
  "time \<Rightarrow> session_id \<Rightarrow> user_id \<Rightarrow> device_id \<Rightarrow> connection_manager \<Rightarrow> connection_manager" where
  "authenticate_bind now sid u d s =
     (let e = fm_get_or (connecting_entry (local_node_id s) now sid) sid (index_b s)
      in s\<lparr>index_b := fmupd sid (e\<lparr>se_user_id := Some u, se_device_id := Some d,
             se_owner_node_id := local_node_id s, se_state := Authenticated,
             se_authenticated_at := Some now\<rparr>) (index_b s)\<rparr>)"

definition mark_replaced :: "session_id \<Rightarrow> session_id \<Rightarrow> connection_manager \<Rightarrow> connection_manager" where
  "mark_replaced old sid s =
     (case fmlookup (index_b s) old of
        None \<Rightarrow> s
      | Some b \<Rightarrow>
          if se_state b = Authenticated
          then s\<lparr>index_b := fmupd old (b\<lparr>se_state := Replaced, se_superseded_by := Some sid\<rparr>) (index_b s),
                 total_authenticated := total_authenticated s - 1\<rparr>
          else s\<lparr>index_b := fmupd old (b\<lparr>se_superseded_by := Some sid\<rparr>) (index_b s)\<rparr>)"

definition authenticate_switch ::
  "session_id \<Rightarrow> user_id \<Rightarrow> device_id \<Rightarrow> connection_manager \<Rightarrow> connection_manager \<times> session_id option" where
  "authenticate_switch sid u d s =
     (let m = fm_get_or fmempty u (index_a s);
          old_sid = fmlookup m d;
          s1 = (case old_sid of
                  Some old \<Rightarrow> if old \<noteq> sid then mark_replaced old sid s else s
                | None \<Rightarrow> s);
          s2 = s1\<lparr>index_a := fmupd u (fmupd d sid m) (index_a s1)\<rparr>;
          s3 = (if (case old_sid of Some old \<Rightarrow> old \<noteq> sid | None \<Rightarrow> True)
                then s2\<lparr>total_authenticated := total_authenticated s2 + 1\<rparr> else s2)
      in (s3, case old_sid of Some old \<Rightarrow> if old \<noteq> sid then Some old else None | None \<Rightarrow> None))"

definition authenticate ::
  "time \<Rightarrow> session_id \<Rightarrow> user_id \<Rightarrow> device_id \<Rightarrow> connection_manager \<Rightarrow> connection_manager \<times> session_id option" where
  "authenticate now sid u d s = authenticate_switch sid u d (authenticate_bind now sid u d s)"

text \<open>
  The ownership registry is the cluster mirror kept in Redis: \<open>register\<close> is its answer for the
  call, \<open>None\<close> when the server runs without one. A failure is returned after the local
  indexes have been updated.
\<close>

definition register_connection ::
  "(user_id \<Rightarrow> device_id \<Rightarrow> session_id \<Rightarrow> (unit, 'e) result) option \<Rightarrow> time \<Rightarrow> user_id \<Rightarrow> device_id \<Rightarrow>
   session_id \<Rightarrow> connection_manager \<Rightarrow> connection_manager \<times> (session_id option, 'e) result" where
  "register_connection registry now u d sid s =
     (let (s1, replaced) = authenticate now sid u d (register_connecting now sid s)
      in (s1, case registry of
                None \<Rightarrow> Ok replaced
              | Some register \<Rightarrow>
                  (case register u d sid of Ok _ \<Rightarrow> Ok replaced | Err e \<Rightarrow> Err e)))"

definition remove_route ::
  "user_id \<Rightarrow> device_id \<Rightarrow> connection_manager \<Rightarrow> connection_manager" where
  "remove_route u d s =
     (let m = fmdrop d (fm_get_or fmempty u (index_a s))
      in if fm_is_empty m then s\<lparr>index_a := fmdrop u (index_a s)\<rparr>
         else s\<lparr>index_a := fmupd u m (index_a s)\<rparr>)"

definition route :: "connection_manager \<Rightarrow> user_id \<Rightarrow> device_id \<Rightarrow> session_id option" where
  "route s u d = (case fmlookup (index_a s) u of None \<Rightarrow> None | Some m \<Rightarrow> fmlookup m d)"

definition unregister_remove ::
  "session_id \<Rightarrow> connection_manager \<Rightarrow> connection_manager \<times> session_entry option" where
  "unregister_remove sid s =
     (s\<lparr>index_b := fmdrop sid (index_b s)\<rparr>, fmlookup (index_b s) sid)"

definition unregister_clean ::
  "session_id \<Rightarrow> session_entry \<Rightarrow> connection_manager \<Rightarrow> connection_manager \<times> (user_id \<times> device_id) option" where
  "unregister_clean sid e s =
     (case se_user_id e of
        None \<Rightarrow> (s, None)
      | Some u \<Rightarrow>
          (case se_device_id e of
             None \<Rightarrow> (s, None)
           | Some d \<Rightarrow>
               (let cleaned_a = (route s u d = Some sid);
                    s1 = (if cleaned_a then remove_route u d s else s);
                    s2 = (if se_state e = Authenticated \<and> cleaned_a
                          then s1\<lparr>total_authenticated := total_authenticated s1 - 1\<rparr> else s1)
                in (s2, Some (u, d)))))"

definition unregister_connection ::
  "session_id \<Rightarrow> connection_manager \<Rightarrow> connection_manager \<times> (user_id \<times> device_id) option" where
  "unregister_connection sid s =
     (case unregister_remove sid s of
        (s1, None) \<Rightarrow> (s1, None)
      | (s1, Some e) \<Rightarrow> unregister_clean sid e s1)"

definition mark_closing :: "session_id \<Rightarrow> connection_manager \<Rightarrow> connection_manager" where
  "mark_closing sid s =
     (case fmlookup (index_b s) sid of
        None \<Rightarrow> s
      | Some b \<Rightarrow>
          if se_state b = Authenticated
          then s\<lparr>index_b := fmupd sid (b\<lparr>se_state := Closing\<rparr>) (index_b s)\<rparr> else s)"

definition disconnect_device ::
  "user_id \<Rightarrow> device_id \<Rightarrow> connection_manager \<Rightarrow> connection_manager" where
  "disconnect_device u d s =
     (case route s u d of
        None \<Rightarrow> s
      | Some sid \<Rightarrow>
          (let s1 = mark_closing sid s
           in if route s1 u d = Some sid
              then (let s2 = remove_route u d s1
                    in s2\<lparr>total_authenticated := total_authenticated s2 - 1\<rparr>)
              else s1))"

definition disconnect_other_devices ::
  "user_id \<Rightarrow> device_id \<Rightarrow> connection_manager \<Rightarrow> connection_manager \<times> device_id list" where
  "disconnect_other_devices u current s =
     (let ds = filter (\<lambda>d. d \<noteq> current) (map fst (fm_entries (fm_get_or fmempty u (index_a s))))
      in (fold (disconnect_device u) ds s, ds))"

definition stale_candidates :: "time \<Rightarrow> connection_manager \<Rightarrow> session_id list" where
  "stale_candidates cutoff s =
     map (\<lambda>(_, e). se_session_id e)
       (filter (\<lambda>(_, e). se_state e = Connecting \<and> se_connected_at e < cutoff)
         (fm_entries (index_b s)))"

fun close_stale ::
  "(session_id \<Rightarrow> bool) option \<Rightarrow> session_id list \<Rightarrow> connection_manager \<Rightarrow> nat \<Rightarrow> connection_manager \<times> nat" where
  "close_stale transport [] s closed = (s, closed)"
| "close_stale transport (sid # sids) s closed =
     (case fmlookup (index_b s) sid of
        None \<Rightarrow> close_stale transport sids s closed
      | Some e \<Rightarrow>
          if se_state e = Connecting
          then close_stale transport sids
                 (s\<lparr>index_b := fmupd sid (e\<lparr>se_state := Closing\<rparr>) (index_b s)\<rparr>)
                 (case transport of
                    None \<Rightarrow> closed
                  | Some close_session \<Rightarrow> if close_session sid then closed + 1 else closed)
          else close_stale transport sids s closed)"

definition cleanup_stale_connecting ::
  "(session_id \<Rightarrow> bool) option \<Rightarrow> time \<Rightarrow> u64 \<Rightarrow> connection_manager \<Rightarrow> connection_manager \<times> nat" where
  "cleanup_stale_connecting transport now timeout_secs s =
     (if timeout_secs = 0 then (s, 0)
      else let timeout_ms = sint (timeout_secs * 1000);
               cutoff = wrap_i64 (now - timeout_ms)
           in close_stale transport (stale_candidates cutoff s) s 0)"

definition force_close_session :: "session_id \<Rightarrow> connection_manager \<Rightarrow> connection_manager" where
  "force_close_session sid s = mark_closing sid s"

section \<open>Queries\<close>

definition device_connection_of :: "user_id \<Rightarrow> device_id \<Rightarrow> session_id \<Rightarrow> session_entry \<Rightarrow> device_connection" where
  "device_connection_of u d sid b =
     \<lparr>dc_user_id = u, dc_device_id = d, dc_session_id = sid,
      dc_owner_node_id = se_owner_node_id b, dc_connected_at = se_connected_at b\<rparr>"

definition authenticated_connections ::
  "connection_manager \<Rightarrow> user_id \<Rightarrow> (device_id, session_id) fmap \<Rightarrow> device_connection list" where
  "authenticated_connections s u m =
     List.map_filter (\<lambda>(d, sid).
       case fmlookup (index_b s) sid of
         Some b \<Rightarrow> if se_state b = Authenticated then Some (device_connection_of u d sid b) else None
       | None \<Rightarrow> None) (fm_entries m)"

definition get_user_connections :: "connection_manager \<Rightarrow> user_id \<Rightarrow> device_connection list" where
  "get_user_connections s u =
     (case fmlookup (index_a s) u of
        None \<Rightarrow> []
      | Some m \<Rightarrow> authenticated_connections s u m)"

definition get_all_connections :: "connection_manager \<Rightarrow> device_connection list" where
  "get_all_connections s =
     concat (map (\<lambda>(u, m). authenticated_connections s u m) (fm_entries (index_a s)))"

definition get_connection_by_session :: "connection_manager \<Rightarrow> session_id \<Rightarrow> device_connection option" where
  "get_connection_by_session s sid =
     (case fmlookup (index_b s) sid of
        None \<Rightarrow> None
      | Some b \<Rightarrow>
          if se_state b \<noteq> Authenticated then None
          else (case (se_user_id b, se_device_id b) of
                  (Some u, Some d) \<Rightarrow> Some (device_connection_of u d sid b)
                | _ \<Rightarrow> None))"

definition online_sessions_count :: "connection_manager \<Rightarrow> u64" where
  "online_sessions_count s = total_authenticated s"

definition online_users_count :: "connection_manager \<Rightarrow> nat" where
  "online_users_count s = fm_len (index_a s)"

definition is_device_online :: "connection_manager \<Rightarrow> user_id \<Rightarrow> device_id \<Rightarrow> bool" where
  "is_device_online s u d =
     (case route s u d of
        None \<Rightarrow> False
      | Some sid \<Rightarrow>
          (case fmlookup (index_b s) sid of None \<Rightarrow> False | Some b \<Rightarrow> se_state b = Authenticated))"

definition live_entry :: "session_entry \<Rightarrow> bool" where
  "live_entry b \<longleftrightarrow> se_state b = Authenticated \<and> se_superseded_by b = None"

definition has_authenticated_connection :: "connection_manager \<Rightarrow> user_id \<Rightarrow> bool" where
  "has_authenticated_connection s u =
     (case fmlookup (index_a s) u of
        None \<Rightarrow> False
      | Some m \<Rightarrow>
          list_ex (\<lambda>(_, sid). case fmlookup (index_b s) sid of None \<Rightarrow> False | Some b \<Rightarrow> live_entry b)
            (fm_entries m))"

record consistency_report =
  orphan_routes :: "(user_id \<times> device_id \<times> session_id) list"
  illegal_state_routes :: "(user_id \<times> device_id \<times> session_id \<times> session_state) list"
  missing_routes :: "(user_id \<times> device_id \<times> session_id) list"

definition is_clean :: "consistency_report \<Rightarrow> bool" where
  "is_clean r \<longleftrightarrow> orphan_routes r = [] \<and> illegal_state_routes r = [] \<and> missing_routes r = []"

definition all_routes :: "connection_manager \<Rightarrow> (user_id \<times> device_id \<times> session_id) list" where
  "all_routes s = concat (map (\<lambda>(u, m). map (\<lambda>(d, sid). (u, d, sid)) (fm_entries m)) (fm_entries (index_a s)))"

definition self_check :: "connection_manager \<Rightarrow> consistency_report" where
  "self_check s =
     \<lparr>orphan_routes =
        filter (\<lambda>(u, d, sid). fmlookup (index_b s) sid = None) (all_routes s),
      illegal_state_routes =
        List.map_filter (\<lambda>(u, d, sid).
          case fmlookup (index_b s) sid of
            None \<Rightarrow> None
          | Some b \<Rightarrow>
              if se_state b \<noteq> Authenticated \<or> se_superseded_by b \<noteq> None
              then Some (u, d, sid, se_state b) else None) (all_routes s),
      missing_routes =
        List.map_filter (\<lambda>(_, b).
          if se_state b \<noteq> Authenticated then None
          else (case (se_user_id b, se_device_id b) of
                  (Some u, Some d) \<Rightarrow>
                    if route s u d = Some (se_session_id b) then None
                    else Some (u, d, se_session_id b)
                | _ \<Rightarrow> None)) (fm_entries (index_b s))\<rparr>"

section \<open>Runs of the manager\<close>

datatype conn_event =
    EConnect time session_id
  | EAuthenticate time session_id user_id device_id
  | EClosed session_id
  | EKick user_id device_id
  | EKickOthers user_id device_id
  | EWatchdog "(session_id \<Rightarrow> bool) option" time u64
  | EForceClose session_id

fun conn_step :: "connection_manager \<Rightarrow> conn_event \<Rightarrow> connection_manager" where
  "conn_step s (EConnect now sid) = register_connecting now sid s"
| "conn_step s (EAuthenticate now sid u d) = fst (authenticate now sid u d s)"
| "conn_step s (EClosed sid) = fst (unregister_connection sid s)"
| "conn_step s (EKick u d) = disconnect_device u d s"
| "conn_step s (EKickOthers u d) = fst (disconnect_other_devices u d s)"
| "conn_step s (EWatchdog transport now timeout) = fst (cleanup_stale_connecting transport now timeout s)"
| "conn_step s (EForceClose sid) = force_close_session sid s"

text \<open>
  A session may be authenticated when it is new, or has no identity yet, or already has this very
  identity, and has not been superseded. Nothing in the code checks this; the authorisation handler
  accepts a second request on a session whatever its identity.
\<close>

definition may_authenticate :: "connection_manager \<Rightarrow> session_id \<Rightarrow> user_id \<Rightarrow> device_id \<Rightarrow> bool" where
  "may_authenticate s sid u d =
     (case fmlookup (index_b s) sid of
        None \<Rightarrow> True
      | Some e \<Rightarrow>
          se_superseded_by e = None \<and>
          (se_user_id e = None \<or> se_user_id e = Some u \<and> se_device_id e = Some d))"

fun conn_ok :: "connection_manager \<Rightarrow> conn_event \<Rightarrow> bool" where
  "conn_ok s (EAuthenticate now sid u d) = may_authenticate s sid u d"
| "conn_ok s _ = True"

fun conn_ok_no_force :: "connection_manager \<Rightarrow> conn_event \<Rightarrow> bool" where
  "conn_ok_no_force s (EForceClose sid) = False"
| "conn_ok_no_force s e = conn_ok s e"

section \<open>Invariants\<close>

definition routed :: "connection_manager \<Rightarrow> (user_id \<times> device_id) set" where
  "routed s = {(u, d). route s u d \<noteq> None}"

text \<open>
  \<open>conn_wf\<close> holds along every run; \<open>conn_inv\<close> adds that every route is live and that the
  counter is the number of routes, which \<open>force_close_session\<close> does not keep.
\<close>

definition route_wf :: "connection_manager \<Rightarrow> bool" where
  "route_wf s \<longleftrightarrow> (\<forall>u d sid. route s u d = Some sid \<longrightarrow>
     (\<exists>e. fmlookup (index_b s) sid = Some e \<and> se_user_id e = Some u \<and> se_device_id e = Some d \<and>
          se_superseded_by e = None \<and> (se_state e = Authenticated \<or> se_state e = Closing)))"

definition entry_wf :: "connection_manager \<Rightarrow> bool" where
  "entry_wf s \<longleftrightarrow> (\<forall>sid e. fmlookup (index_b s) sid = Some e \<longrightarrow>
     se_session_id e = sid \<and>
     (se_state e = Authenticated \<longrightarrow>
        (\<exists>u d. se_user_id e = Some u \<and> se_device_id e = Some d \<and> route s u d = Some sid)) \<and>
     (se_state e = Connecting \<longrightarrow> se_user_id e = None))"

definition no_empty_user :: "connection_manager \<Rightarrow> bool" where
  "no_empty_user s \<longleftrightarrow> (\<forall>u m. fmlookup (index_a s) u = Some m \<longrightarrow> \<not> fm_is_empty m)"

definition conn_wf :: "connection_manager \<Rightarrow> bool" where
  "conn_wf s \<longleftrightarrow> route_wf s \<and> entry_wf s \<and> no_empty_user s"

definition routes_live :: "connection_manager \<Rightarrow> bool" where
  "routes_live s \<longleftrightarrow> (\<forall>u d sid e. route s u d = Some sid \<longrightarrow> fmlookup (index_b s) sid = Some e \<longrightarrow>
     se_state e = Authenticated)"

definition conn_inv :: "connection_manager \<Rightarrow> bool" where
  "conn_inv s \<longleftrightarrow> conn_wf s \<and> routes_live s \<and> total_authenticated s = of_nat (card (routed s))"

section \<open>How the operations move the two indexes\<close>

lemma route_cong [simp]:
  "route (s\<lparr>index_b := b\<rparr>) = route s"
  "route (s\<lparr>total_authenticated := n\<rparr>) = route s"
  by (simp_all add: fun_eq_iff route_def)

lemma route_insert [simp]:
  "route (s\<lparr>index_a := fmupd u (fmupd d sid (fm_get_or fmempty u (index_a s))) (index_a s)\<rparr>) u' d' =
     (if u' = u \<and> d' = d then Some sid else route s u' d')"
  by (auto simp: route_def fm_get_or_def split: option.splits)

lemma route_via_get_or: "fmlookup (fm_get_or fmempty u (index_a s)) d = route s u d"
  by (simp add: route_def fm_get_or_def split: option.splits)

lemma route_remove_route [simp]:
  "route (remove_route u d s) u' d' = (if u' = u \<and> d' = d then None else route s u' d')"
  by (auto simp: remove_route_def Let_def route_def fm_is_empty_iff fm_get_or_def
           split: option.splits if_splits)

lemma remove_route_frame [simp]:
  "index_b (remove_route u d s) = index_b s"
  "total_authenticated (remove_route u d s) = total_authenticated s"
  "local_node_id (remove_route u d s) = local_node_id s"
  by (simp_all add: remove_route_def Let_def)

lemma mark_replaced_frame [simp]:
  "index_a (mark_replaced old sid s) = index_a s"
  "route (mark_replaced old sid s) = route s"
  by (simp_all add: mark_replaced_def fun_eq_iff route_def split: option.splits)

lemma mark_closing_frame [simp]:
  "index_a (mark_closing sid s) = index_a s"
  "route (mark_closing sid s) = route s"
  "total_authenticated (mark_closing sid s) = total_authenticated s"
  by (simp_all add: mark_closing_def fun_eq_iff route_def split: option.splits)

lemma lookup_mark_closing [simp]:
  "fmlookup (index_b (mark_closing sid s)) x =
     map_option (\<lambda>b. if x = sid \<and> se_state b = Authenticated then b\<lparr>se_state := Closing\<rparr> else b)
       (fmlookup (index_b s) x)"
  by (cases "fmlookup (index_b s) x") (auto simp: mark_closing_def split: option.splits)

lemma lookup_mark_replaced [simp]:
  "fmlookup (index_b (mark_replaced old sid s)) x =
     map_option (\<lambda>b. if x = old then b\<lparr>se_state := (if se_state b = Authenticated then Replaced else se_state b),
                                     se_superseded_by := Some sid\<rparr> else b)
       (fmlookup (index_b s) x)"
  by (cases "fmlookup (index_b s) x") (auto simp: mark_replaced_def split: option.splits)

lemma lookup_authenticate_self:
  "fmlookup (index_b (fst (authenticate now sid u d s))) sid =
     Some ((fm_get_or (connecting_entry (local_node_id s) now sid) sid (index_b s))
            \<lparr>se_user_id := Some u, se_device_id := Some d, se_owner_node_id := local_node_id s,
             se_state := Authenticated, se_authenticated_at := Some now\<rparr>)"
  by (auto simp: authenticate_def authenticate_switch_def authenticate_bind_def Let_def
           split: option.splits)

lemma lookup_authenticate_other:
  "x \<noteq> sid \<Longrightarrow> fmlookup (index_b (fst (authenticate now sid u d s))) x =
     map_option (\<lambda>b. if route s u d = Some x
       then b\<lparr>se_state := (if se_state b = Authenticated then Replaced else se_state b),
              se_superseded_by := Some sid\<rparr> else b) (fmlookup (index_b s) x)"
  by (cases "fmlookup (index_b s) x")
     (auto simp: authenticate_def authenticate_switch_def authenticate_bind_def Let_def
        route_via_get_or split: option.splits)

lemma index_a_authenticate:
  "index_a (fst (authenticate now sid u d s)) =
     fmupd u (fmupd d sid (fm_get_or fmempty u (index_a s))) (index_a s)"
  by (auto simp: authenticate_def authenticate_switch_def authenticate_bind_def Let_def
           split: option.splits)

lemma route_authenticate:
  "route (fst (authenticate now sid u d s)) u' d' = (if u' = u \<and> d' = d then Some sid else route s u' d')"
  using route_insert [where s = s and u = u and d = d and u' = u' and d' = d'] by (simp add: route_def index_a_authenticate)

lemma route_unregister:
  "route (fst (unregister_connection sid s)) u d =
     (case fmlookup (index_b s) sid of
        Some e \<Rightarrow> if se_user_id e = Some u \<and> se_device_id e = Some d \<and> route s u d = Some sid
                  then None else route s u d
      | None \<Rightarrow> route s u d)"
  by (auto simp: unregister_connection_def unregister_remove_def unregister_clean_def Let_def
           split: option.splits)

lemma index_b_unregister:
  "index_b (fst (unregister_connection sid s)) = fmdrop sid (index_b s)"
  by (auto simp: unregister_connection_def unregister_remove_def unregister_clean_def Let_def
           split: option.splits)

lemma route_disconnect_device:
  "route (disconnect_device u d s) u' d' = (if u' = u \<and> d' = d then None else route s u' d')"
  by (auto simp: disconnect_device_def Let_def split: option.splits)

lemma lookup_disconnect_device:
  "fmlookup (index_b (disconnect_device u d s)) x =
     map_option (\<lambda>b. if route s u d = Some x \<and> se_state b = Authenticated
       then b\<lparr>se_state := Closing\<rparr> else b) (fmlookup (index_b s) x)"
  by (cases "fmlookup (index_b s) x")
     (auto simp: disconnect_device_def Let_def split: option.splits)

section \<open>Preservation of the invariants\<close>

lemma conn_wfI:
  assumes "\<And>u d sid. route s u d = Some sid \<Longrightarrow>
     \<exists>e. fmlookup (index_b s) sid = Some e \<and> se_user_id e = Some u \<and> se_device_id e = Some d \<and>
         se_superseded_by e = None \<and> (se_state e = Authenticated \<or> se_state e = Closing)"
    and "\<And>sid e. fmlookup (index_b s) sid = Some e \<Longrightarrow> se_session_id e = sid"
    and "\<And>sid e. fmlookup (index_b s) sid = Some e \<Longrightarrow> se_state e = Authenticated \<Longrightarrow>
     \<exists>u d. se_user_id e = Some u \<and> se_device_id e = Some d \<and> route s u d = Some sid"
    and "\<And>sid e. fmlookup (index_b s) sid = Some e \<Longrightarrow> se_state e = Connecting \<Longrightarrow> se_user_id e = None"
    and "\<And>u m. fmlookup (index_a s) u = Some m \<Longrightarrow> \<not> fm_is_empty m"
  shows "conn_wf s"
  using assms unfolding conn_wf_def route_wf_def entry_wf_def no_empty_user_def by blast

lemma wf_routeE:
  assumes "conn_wf s" "route s u d = Some sid"
  obtains e where "fmlookup (index_b s) sid = Some e" "se_user_id e = Some u" "se_device_id e = Some d"
    "se_superseded_by e = None" "se_state e = Authenticated \<or> se_state e = Closing"
  using assms unfolding conn_wf_def route_wf_def by blast

lemma wf_authenticatedE:
  assumes "conn_wf s" "fmlookup (index_b s) sid = Some e" "se_state e = Authenticated"
  obtains u d where "se_user_id e = Some u" "se_device_id e = Some d" "route s u d = Some sid"
  using assms unfolding conn_wf_def entry_wf_def by blast

lemma wf_entryD:
  assumes "conn_wf s" "fmlookup (index_b s) sid = Some e"
  shows "se_session_id e = sid" "se_state e = Connecting \<Longrightarrow> se_user_id e = None"
  using assms unfolding conn_wf_def entry_wf_def by blast+

lemma wf_nonempty: "conn_wf s \<Longrightarrow> fmlookup (index_a s) u = Some m \<Longrightarrow> \<not> fm_is_empty m"
  unfolding conn_wf_def no_empty_user_def by blast

lemma route_unique:
  "conn_wf s \<Longrightarrow> route s u d = Some sid \<Longrightarrow> route s u' d' = Some sid \<Longrightarrow> u' = u \<and> d' = d"
  by (metis option.inject wf_routeE)

lemma wf_new: "conn_wf (new_with_node_id node)"
  by (rule conn_wfI) (auto simp: new_with_node_id_def route_def)

lemma wf_register_connecting:
  assumes "conn_wf s" shows "conn_wf (register_connecting now sid s)"
proof (cases "fmlookup (index_b s) sid")
  case (Some e)
  then show ?thesis using assms by (simp add: register_connecting_def)
next
  case None
  let ?s = "s\<lparr>index_b := fmupd sid (connecting_entry (local_node_id s) now sid) (index_b s)\<rparr>"
  have "conn_wf ?s"
    by (rule conn_wfI)
       (use assms None in \<open>auto simp: connecting_entry_def split: if_splits
          elim: wf_routeE wf_authenticatedE dest: wf_entryD wf_nonempty\<close>)
  then show ?thesis using None by (simp add: register_connecting_def)
qed

lemma wf_authenticate:
  assumes wf: "conn_wf s" and may: "may_authenticate s sid u d"
  shows "conn_wf (fst (authenticate now sid u d s))" (is "conn_wf ?t")
proof (rule conn_wfI)
  fix u' d' x assume x: "route ?t u' d' = Some x"
  show "\<exists>e. fmlookup (index_b ?t) x = Some e \<and> se_user_id e = Some u' \<and> se_device_id e = Some d' \<and>
            se_superseded_by e = None \<and> (se_state e = Authenticated \<or> se_state e = Closing)"
  proof (cases "u' = u \<and> d' = d")
    case True
    with x may show ?thesis
      by (auto simp: route_authenticate lookup_authenticate_self may_authenticate_def
            connecting_entry_def fm_get_or_def split: option.splits)
  next
    case False
    with x have r: "route s u' d' = Some x" by (auto simp: route_authenticate)
    with wf obtain e where e: "fmlookup (index_b s) x = Some e" "se_user_id e = Some u'"
      "se_device_id e = Some d'" "se_superseded_by e = None"
      "se_state e = Authenticated \<or> se_state e = Closing"
      by (rule wf_routeE)
    have "x \<noteq> sid" using may e False by (auto simp: may_authenticate_def)
    moreover have "route s u d \<noteq> Some x" using route_unique [OF wf r] False by blast
    ultimately show ?thesis using e by (simp add: lookup_authenticate_other)
  qed
next
  fix x e assume x: "fmlookup (index_b ?t) x = Some e"
  show "se_session_id e = x"
    using x wf_entryD(1) [OF wf]
    by (cases "x = sid")
       (auto simp: lookup_authenticate_self lookup_authenticate_other connecting_entry_def
          fm_get_or_def split: option.splits if_splits)
  show "se_state e = Connecting \<Longrightarrow> se_user_id e = None"
    using x wf_entryD(2) [OF wf]
    by (cases "x = sid")
       (auto simp: lookup_authenticate_self lookup_authenticate_other split: if_splits)
  assume auth: "se_state e = Authenticated"
  show "\<exists>u' d'. se_user_id e = Some u' \<and> se_device_id e = Some d' \<and> route ?t u' d' = Some x"
  proof (cases "x = sid")
    case True
    with x show ?thesis by (auto simp: lookup_authenticate_self route_authenticate)
  next
    case False
    then obtain b where b: "fmlookup (index_b s) x = Some b"
      and eb: "e = (if route s u d = Some x
         then b\<lparr>se_state := (if se_state b = Authenticated then Replaced else se_state b),
                se_superseded_by := Some sid\<rparr> else b)"
      using x by (auto simp: lookup_authenticate_other)
    from eb auth have "route s u d \<noteq> Some x" by (auto split: if_splits)
    with b eb have e: "fmlookup (index_b s) x = Some e" "route s u d \<noteq> Some x" by simp_all
    from wf e(1) auth obtain u' d' where "se_user_id e = Some u'" "se_device_id e = Some d'"
      "route s u' d' = Some x" by (rule wf_authenticatedE)
    with e(2) show ?thesis by (auto simp: route_authenticate)
  qed
next
  fix u' m assume "fmlookup (index_a ?t) u' = Some m"
  then show "\<not> fm_is_empty m"
    using wf by (auto simp: index_a_authenticate fm_is_empty_def dest: wf_nonempty split: if_splits)
qed

lemma nonempty_remove_route:
  assumes "conn_wf s" "fmlookup (index_a (remove_route u d s)) u' = Some m"
  shows "\<not> fm_is_empty m"
  using assms by (auto simp: remove_route_def Let_def dest: wf_nonempty split: if_splits)

lemma index_a_unregister:
  "index_a (fst (unregister_connection sid s)) = index_a s \<or>
   (\<exists>u d. index_a (fst (unregister_connection sid s)) = index_a (remove_route u d s))"
  by (auto simp: unregister_connection_def unregister_remove_def unregister_clean_def Let_def
        remove_route_def split: option.splits)

lemma wf_unregister:
  assumes wf: "conn_wf s" shows "conn_wf (fst (unregister_connection sid s))" (is "conn_wf ?t")
proof (rule conn_wfI)
  fix u d x assume x: "route ?t u d = Some x"
  then have r: "route s u d = Some x" by (auto simp: route_unregister split: option.splits if_splits)
  from wf r obtain e where e: "fmlookup (index_b s) x = Some e" "se_user_id e = Some u"
    "se_device_id e = Some d" "se_superseded_by e = None"
    "se_state e = Authenticated \<or> se_state e = Closing" by (rule wf_routeE)
  moreover have "x \<noteq> sid" using x r e by (auto simp: route_unregister)
  ultimately show "\<exists>e. fmlookup (index_b ?t) x = Some e \<and> se_user_id e = Some u \<and> se_device_id e = Some d \<and>
      se_superseded_by e = None \<and> (se_state e = Authenticated \<or> se_state e = Closing)"
    by (auto simp: index_b_unregister)
next
  fix x e assume x: "fmlookup (index_b ?t) x = Some e"
  then have x': "x \<noteq> sid" "fmlookup (index_b s) x = Some e"
    by (auto simp: index_b_unregister split: if_splits)
  show "se_session_id e = x" and "se_state e = Connecting \<Longrightarrow> se_user_id e = None"
    using wf_entryD [OF wf x'(2)] by auto
  assume "se_state e = Authenticated"
  with wf x'(2) obtain u d where "se_user_id e = Some u" "se_device_id e = Some d" "route s u d = Some x"
    by (rule wf_authenticatedE)
  with x'(1) show "\<exists>u d. se_user_id e = Some u \<and> se_device_id e = Some d \<and> route ?t u d = Some x"
    by (auto simp: route_unregister split: option.splits)
next
  fix u m assume "fmlookup (index_a ?t) u = Some m"
  then show "\<not> fm_is_empty m"
    using index_a_unregister [of sid s] nonempty_remove_route [OF wf] wf_nonempty [OF wf] by metis
qed

lemma wf_mark_closing:
  assumes wf: "conn_wf s" shows "conn_wf (mark_closing sid s)"
proof (rule conn_wfI)
  fix u d x assume "route (mark_closing sid s) u d = Some x"
  then have "route s u d = Some x" by simp
  with wf obtain e where "fmlookup (index_b s) x = Some e" "se_user_id e = Some u" "se_device_id e = Some d"
    "se_superseded_by e = None" "se_state e = Authenticated \<or> se_state e = Closing" by (rule wf_routeE)
  then show "\<exists>e. fmlookup (index_b (mark_closing sid s)) x = Some e \<and> se_user_id e = Some u \<and>
      se_device_id e = Some d \<and> se_superseded_by e = None \<and> (se_state e = Authenticated \<or> se_state e = Closing)"
    by auto
next
  fix x e assume x: "fmlookup (index_b (mark_closing sid s)) x = Some e"
  show "se_session_id e = x" "se_state e = Connecting \<Longrightarrow> se_user_id e = None"
    using x wf_entryD [OF wf] by (auto split: if_splits)
  assume "se_state e = Authenticated"
  with x show "\<exists>u d. se_user_id e = Some u \<and> se_device_id e = Some d \<and> route (mark_closing sid s) u d = Some x"
    by (auto elim!: wf_authenticatedE [OF wf] split: if_splits)
qed (use wf_nonempty [OF wf] in simp)

lemma index_a_disconnect_device:
  "index_a (disconnect_device u d s) = index_a s \<or>
   index_a (disconnect_device u d s) = index_a (remove_route u d s)"
  by (auto simp: disconnect_device_def Let_def remove_route_def split: option.splits)

lemma wf_disconnect_device:
  assumes wf: "conn_wf s" shows "conn_wf (disconnect_device u d s)" (is "conn_wf ?t")
proof (rule conn_wfI)
  fix u' d' x assume x: "route ?t u' d' = Some x"
  then have r: "route s u' d' = Some x" and ne: "\<not> (u' = u \<and> d' = d)"
    by (auto simp: route_disconnect_device split: if_splits)
  then have "route s u d \<noteq> Some x" using route_unique [OF wf r] by blast
  with wf_routeE [OF wf r] show "\<exists>e. fmlookup (index_b ?t) x = Some e \<and> se_user_id e = Some u' \<and>
      se_device_id e = Some d' \<and> se_superseded_by e = None \<and> (se_state e = Authenticated \<or> se_state e = Closing)"
    by (auto simp: lookup_disconnect_device)
next
  fix x e assume x: "fmlookup (index_b ?t) x = Some e"
  then obtain b where b: "fmlookup (index_b s) x = Some b"
    and eb: "e = (if route s u d = Some x \<and> se_state b = Authenticated then b\<lparr>se_state := Closing\<rparr> else b)"
    by (auto simp: lookup_disconnect_device)
  show "se_session_id e = x" "se_state e = Connecting \<Longrightarrow> se_user_id e = None"
    using eb wf_entryD [OF wf b] by (auto split: if_splits)
  assume "se_state e = Authenticated"
  with eb have "e = b" "route s u d \<noteq> Some x" "se_state b = Authenticated" by (auto split: if_splits)
  with wf_authenticatedE [OF wf b]
  show "\<exists>u' d'. se_user_id e = Some u' \<and> se_device_id e = Some d' \<and> route ?t u' d' = Some x"
    by (metis route_disconnect_device)
next
  fix u' m assume "fmlookup (index_a ?t) u' = Some m"
  then show "\<not> fm_is_empty m"
    using index_a_disconnect_device [of u d s] nonempty_remove_route [OF wf] wf_nonempty [OF wf] by metis
qed

lemma wf_disconnect_other_devices: "conn_wf s \<Longrightarrow> conn_wf (fst (disconnect_other_devices u d s))"
  by (simp add: disconnect_other_devices_def Let_def fold_invariant wf_disconnect_device)

lemma wf_close_connecting:
  assumes wf: "conn_wf s" and e: "fmlookup (index_b s) sid = Some e" "se_state e = Connecting"
  shows "conn_wf (s\<lparr>index_b := fmupd sid (e\<lparr>se_state := Closing\<rparr>) (index_b s)\<rparr>)"
proof (rule conn_wfI)
  have none: "route s u d \<noteq> Some sid" for u d
    using wf_entryD(2) [OF wf e(1)] e by (auto elim: wf_routeE [OF wf])
  fix u d x assume "route (s\<lparr>index_b := fmupd sid (e\<lparr>se_state := Closing\<rparr>) (index_b s)\<rparr>) u d = Some x"
  with none wf_routeE [OF wf] show "\<exists>e'. fmlookup (index_b (s\<lparr>index_b := fmupd sid (e\<lparr>se_state := Closing\<rparr>) (index_b s)\<rparr>)) x = Some e' \<and>
      se_user_id e' = Some u \<and> se_device_id e' = Some d \<and> se_superseded_by e' = None \<and>
      (se_state e' = Authenticated \<or> se_state e' = Closing)"
    by fastforce
qed (use wf_entryD [OF wf] e wf_nonempty [OF wf] wf_authenticatedE [OF wf] in
       \<open>fastforce split: if_splits\<close>)+

lemma close_stale_frame:
  "index_a (fst (close_stale tr sids s n)) = index_a s"
  "route (fst (close_stale tr sids s n)) = route s"
  "total_authenticated (fst (close_stale tr sids s n)) = total_authenticated s"
  by (induction sids arbitrary: s n) (auto split: option.splits)

lemma lookup_close_stale:
  "fmlookup (index_b (fst (close_stale tr sids s n))) x =
     map_option (\<lambda>b. if x \<in> set sids \<and> se_state b = Connecting then b\<lparr>se_state := Closing\<rparr> else b)
       (fmlookup (index_b s) x)"
proof (induction sids arbitrary: s n)
  case Nil
  then show ?case by (simp add: option.map_ident)
next
  case (Cons sid sids)
  show ?case
    by (cases "fmlookup (index_b s) x") (auto simp: Cons.IH split: option.splits)
qed

lemma wf_close_stale: "conn_wf s \<Longrightarrow> conn_wf (fst (close_stale tr sids s n))"
  by (induction sids arbitrary: s n) (auto simp: wf_close_connecting split: option.splits)

lemma wf_cleanup_stale: "conn_wf s \<Longrightarrow> conn_wf (fst (cleanup_stale_connecting tr now t s))"
  by (simp add: cleanup_stale_connecting_def Let_def wf_close_stale)

lemmas wf_operations = wf_register_connecting wf_authenticate wf_unregister wf_disconnect_device
  wf_disconnect_other_devices wf_cleanup_stale wf_mark_closing

lemma wf_step: "conn_wf s \<Longrightarrow> conn_ok s e \<Longrightarrow> conn_wf (conn_step s e)"
  by (cases e) (simp_all add: wf_operations force_close_session_def)

interpretation wf_system: invariant_system "new_with_node_id node" conn_step conn_ok conn_wf
  by unfold_locales (auto intro: wf_new wf_step)

lemma finite_routed [simp]: "finite (routed s)"
proof (rule finite_subset)
  show "routed s \<subseteq> (SIGMA u:fmdom' (index_a s). fmdom' (the (fmlookup (index_a s) u)))"
    by (auto simp: routed_def route_def fmlookup_dom'_iff split: option.splits)
  show "finite \<dots>" by (intro finite_SigmaI) auto
qed

lemma total_authenticate:
  "total_authenticated (fst (authenticate now sid u d s)) = total_authenticated s +
     (case route s u d of
        None \<Rightarrow> 1
      | Some old \<Rightarrow>
          if old = sid then 0
          else (case fmlookup (index_b s) old of
                  Some b \<Rightarrow> if se_state b = Authenticated then 0 else 1
                | None \<Rightarrow> 1))"
  by (auto simp: authenticate_def authenticate_switch_def authenticate_bind_def Let_def
        route_via_get_or mark_replaced_def split: option.splits)

lemma routed_authenticate: "routed (fst (authenticate now sid u d s)) = insert (u, d) (routed s)"
  by (auto simp: routed_def route_authenticate)

lemma inv_live:
  "conn_inv s \<Longrightarrow> route s u d = Some sid \<Longrightarrow>
     \<exists>b. fmlookup (index_b s) sid = Some b \<and> se_state b = Authenticated \<and> se_superseded_by b = None \<and>
         se_user_id b = Some u \<and> se_device_id b = Some d"
  unfolding conn_inv_def routes_live_def by (metis wf_routeE)

lemma inv_authenticate:
  assumes inv: "conn_inv s" and may: "may_authenticate s sid u d"
  shows "conn_inv (fst (authenticate now sid u d s))" (is "conn_inv ?t")
proof -
  have "se_state e = Authenticated"
    if r: "route ?t u' d' = Some x" and e: "fmlookup (index_b ?t) x = Some e" for u' d' x e
  proof (cases "x = sid")
    case True
    then show ?thesis using e by (auto simp: lookup_authenticate_self)
  next
    case False
    with r have "route s u' d' = Some x" "\<not> (u' = u \<and> d' = d)"
      by (auto simp: route_authenticate split: if_splits)
    moreover from this have "route s u d \<noteq> Some x"
      using inv route_unique unfolding conn_inv_def by blast
    ultimately show ?thesis
      using e False by (auto simp: lookup_authenticate_other dest: inv_live [OF inv])
  qed
  moreover have "total_authenticated ?t = of_nat (card (routed ?t))"
  proof (cases "route s u d")
    case None
    then have "(u, d) \<notin> routed s" by (simp add: routed_def)
    with None inv show ?thesis
      by (simp add: total_authenticate routed_authenticate conn_inv_def)
  next
    case (Some old)
    then have "insert (u, d) (routed s) = routed s" by (auto simp: routed_def)
    with Some inv inv_live [OF inv Some] show ?thesis
      by (auto simp: total_authenticate routed_authenticate conn_inv_def)
  qed
  ultimately show ?thesis
    using inv may unfolding conn_inv_def routes_live_def by (blast intro: wf_authenticate)
qed

text \<open>Removing one route takes one off the counter and leaves the other routes live.\<close>

lemma inv_drop_route:
  assumes inv: "conn_inv s" and wf: "conn_wf t"
    and r: "\<And>u' d'. route t u' d' = (if u' = u \<and> d' = d then None else route s u' d')"
    and b: "\<And>x u' d'. route t u' d' = Some x \<Longrightarrow> fmlookup (index_b t) x = fmlookup (index_b s) x"
    and n: "total_authenticated t = total_authenticated s - (if route s u d = None then 0 else 1)"
  shows "conn_inv t"
proof -
  have routed_t: "routed t = routed s - {(u, d)}" by (auto simp: routed_def r)
  have "total_authenticated t = of_nat (card (routed t))"
  proof (cases "(u, d) \<in> routed s")
    case True
    then have "card (routed s) = Suc (card (routed t))"
      unfolding routed_t by (simp add: card_Suc_Diff1 del: card_Diff_insert)
    moreover have "route s u d \<noteq> None" using True by (simp add: routed_def)
    ultimately show ?thesis using inv n by (auto simp: conn_inv_def)
  next
    case False
    then have "route s u d = None" by (simp add: routed_def)
    moreover have "routed t = routed s" using False routed_t by blast
    ultimately show ?thesis using inv n by (simp add: conn_inv_def)
  qed
  moreover have "se_state e = Authenticated"
    if "route t u' d' = Some x" "fmlookup (index_b t) x = Some e" for u' d' x e
  proof -
    have "route s u' d' = Some x" using that(1) by (simp add: r split: if_splits)
    with inv_live [OF inv] b [OF that(1)] that(2) show ?thesis by fastforce
  qed
  ultimately show ?thesis using wf unfolding conn_inv_def routes_live_def by blast
qed

lemma inv_same_routes:
  assumes "conn_inv s" "conn_wf t" "route t = route s" "total_authenticated t = total_authenticated s"
    and "\<And>x u' d'. route s u' d' = Some x \<Longrightarrow> fmlookup (index_b t) x = fmlookup (index_b s) x"
  shows "conn_inv t"
proof -
  have "routed t = routed s" by (simp add: routed_def assms(3))
  moreover have "routes_live t"
    using assms(1,3,5) unfolding conn_inv_def routes_live_def by metis
  ultimately show ?thesis using assms(1,2,4) by (simp add: conn_inv_def)
qed

lemma total_unregister:
  "total_authenticated (fst (unregister_connection sid s)) = total_authenticated s -
     (case fmlookup (index_b s) sid of
        Some e \<Rightarrow> (case (se_user_id e, se_device_id e) of
            (Some u, Some d) \<Rightarrow> if se_state e = Authenticated \<and> route s u d = Some sid then 1 else 0
          | _ \<Rightarrow> 0)
      | None \<Rightarrow> 0)"
  by (auto simp: unregister_connection_def unregister_remove_def unregister_clean_def Let_def
           split: option.splits)

lemma inv_wf: "conn_inv s \<Longrightarrow> conn_wf s"
  by (simp add: conn_inv_def)

lemma inv_unregister:
  assumes inv: "conn_inv s" shows "conn_inv (fst (unregister_connection sid s))" (is "conn_inv ?t")
proof (cases "\<exists>u d. route s u d = Some sid")
  case True
  then obtain u d where r: "route s u d = Some sid" by blast
  from inv_live [OF inv r] obtain b where b: "fmlookup (index_b s) sid = Some b"
    "se_state b = Authenticated" "se_user_id b = Some u" "se_device_id b = Some d" by blast
  have other: "route s u' d' \<noteq> Some sid" if "\<not> (u' = u \<and> d' = d)" for u' d'
    using route_unique [OF inv_wf [OF inv] r] that by blast
  have rt: "route ?t u' d' = (if u' = u \<and> d' = d then None else route s u' d')" for u' d'
    using b r by (auto simp: route_unregister)
  show ?thesis
  proof (rule inv_drop_route [OF inv wf_unregister [OF inv_wf [OF inv]] rt])
    show "fmlookup (index_b ?t) x = fmlookup (index_b s) x" if "route ?t u' d' = Some x" for x u' d'
      using that rt [of u' d'] other [of u' d'] by (auto simp: index_b_unregister split: if_splits)
    show "total_authenticated ?t = total_authenticated s - (if route s u d = None then 0 else 1)"
      using b r by (simp add: total_unregister)
  qed
next
  case False
  show ?thesis
  proof (rule inv_same_routes [OF inv wf_unregister [OF inv_wf [OF inv]]])
    show "route ?t = route s" using False by (simp add: fun_eq_iff route_unregister split: option.splits)
    show "total_authenticated ?t = total_authenticated s"
      using False by (simp add: total_unregister split: option.splits)
    show "fmlookup (index_b ?t) x = fmlookup (index_b s) x" if "route s u' d' = Some x" for x u' d'
      using that False by (auto simp: index_b_unregister)
  qed
qed

lemma inv_disconnect_device:
  assumes inv: "conn_inv s" shows "conn_inv (disconnect_device u d s)"
proof (rule inv_drop_route [OF inv wf_disconnect_device [OF inv_wf [OF inv]], where u = u and d = d])
  fix x u' d' assume "route (disconnect_device u d s) u' d' = Some x"
  then have "route s u' d' = Some x" "\<not> (u' = u \<and> d' = d)"
    by (auto simp: route_disconnect_device split: if_splits)
  then have "route s u d \<noteq> Some x" using route_unique [OF inv_wf [OF inv]] by blast
  then show "fmlookup (index_b (disconnect_device u d s)) x = fmlookup (index_b s) x"
    by (simp add: lookup_disconnect_device option.map_ident)
qed (auto simp: route_disconnect_device disconnect_device_def Let_def split: option.splits)

lemma inv_close_stale:
  assumes inv: "conn_inv s" shows "conn_inv (fst (close_stale tr sids s n))"
proof (rule inv_same_routes [OF inv wf_close_stale [OF inv_wf [OF inv]]])
  fix x u d assume "route s u d = Some x"
  from inv_live [OF inv this]
  show "fmlookup (index_b (fst (close_stale tr sids s n))) x = fmlookup (index_b s) x"
    by (auto simp: lookup_close_stale)
qed (simp_all add: close_stale_frame)

lemma inv_register_connecting:
  assumes inv: "conn_inv s" shows "conn_inv (register_connecting now sid s)"
  by (rule inv_same_routes [OF inv wf_register_connecting [OF inv_wf [OF inv]]])
     (auto simp: register_connecting_def dest: inv_live [OF inv] split: option.splits)

lemma inv_disconnect_other_devices: "conn_inv s \<Longrightarrow> conn_inv (fst (disconnect_other_devices u d s))"
  by (simp add: disconnect_other_devices_def Let_def fold_invariant inv_disconnect_device)

lemma inv_cleanup_stale: "conn_inv s \<Longrightarrow> conn_inv (fst (cleanup_stale_connecting tr now t s))"
  by (simp add: cleanup_stale_connecting_def Let_def inv_close_stale)

lemma inv_new: "conn_inv (new_with_node_id node)"
  using wf_new [of node]
  by (simp add: conn_inv_def routes_live_def) (simp add: new_with_node_id_def routed_def route_def)

lemmas inv_operations = inv_register_connecting inv_authenticate inv_unregister inv_disconnect_device
  inv_disconnect_other_devices inv_cleanup_stale

lemma inv_step: "conn_inv s \<Longrightarrow> conn_ok_no_force s e \<Longrightarrow> conn_inv (conn_step s e)"
  by (cases e) (simp_all add: inv_operations)

interpretation inv_system: invariant_system "new_with_node_id node" conn_step conn_ok_no_force conn_inv
  by unfold_locales (auto intro: inv_new inv_step)

section \<open>Properties\<close>

lemma set_all_routes [simp]: "(u, d, sid) \<in> set (all_routes s) \<longleftrightarrow> route s u d = Some sid"
  by (force simp: all_routes_def route_def split: option.splits)

lemma ball_all_routes:
  "(\<forall>x\<in>set (all_routes s). P x) \<longleftrightarrow> (\<forall>u d sid. route s u d = Some sid \<longrightarrow> P (u, d, sid))"
  using set_all_routes by (metis prod_cases3)

lemma is_clean_self_check_iff:
  "is_clean (self_check s) \<longleftrightarrow>
     (\<forall>u d sid. route s u d = Some sid \<longrightarrow> (\<exists>b. fmlookup (index_b s) sid = Some b \<and> live_entry b)) \<and>
     (\<forall>sid b u d. fmlookup (index_b s) sid = Some b \<longrightarrow> se_state b = Authenticated \<longrightarrow>
        se_user_id b = Some u \<longrightarrow> se_device_id b = Some d \<longrightarrow> route s u d = Some (se_session_id b))"
  (is "_ \<longleftrightarrow> ?A \<and> ?C")
proof -
  have "orphan_routes (self_check s) = [] \<longleftrightarrow>
      (\<forall>u d sid. route s u d = Some sid \<longrightarrow> fmlookup (index_b s) sid \<noteq> None)"
    by (simp add: self_check_def filter_empty_conv ball_all_routes)
  moreover have "illegal_state_routes (self_check s) = [] \<longleftrightarrow>
      (\<forall>u d sid b. route s u d = Some sid \<longrightarrow> fmlookup (index_b s) sid = Some b \<longrightarrow> live_entry b)"
    by (auto simp: self_check_def map_filter_Nil_iff ball_all_routes live_entry_def split: option.splits)
       (metis not_None_eq)
  moreover have "(missing_routes (self_check s) = []) = ?C"
    unfolding self_check_def by (simp add: map_filter_Nil_iff ball_fm_entries split: option.split) blast
  moreover have "?A \<longleftrightarrow>
      (\<forall>u d sid. route s u d = Some sid \<longrightarrow> fmlookup (index_b s) sid \<noteq> None) \<and>
      (\<forall>u d sid b. route s u d = Some sid \<longrightarrow> fmlookup (index_b s) sid = Some b \<longrightarrow> live_entry b)"
    by (metis not_None_eq option.inject)
  ultimately show ?thesis unfolding is_clean_def by argo
qed

lemma inv_self_check: "conn_inv s \<Longrightarrow> is_clean (self_check s)"
  unfolding is_clean_self_check_iff live_entry_def
proof (intro conjI allI impI)
  fix u d sid assume "conn_inv s" "route s u d = Some sid"
  then show "\<exists>b. fmlookup (index_b s) sid = Some b \<and> se_state b = Authenticated \<and> se_superseded_by b = None"
    using inv_live by blast
next
  fix sid b u d assume inv: "conn_inv s" and b: "fmlookup (index_b s) sid = Some b"
    "se_state b = Authenticated" "se_user_id b = Some u" "se_device_id b = Some d"
  from wf_authenticatedE [OF inv_wf [OF inv] b(1,2)] b(3,4) have "route s u d = Some sid" by auto
  then show "route s u d = Some (se_session_id b)" using wf_entryD(1) [OF inv_wf [OF inv] b(1)] by simp
qed

definition authenticated_sessions :: "connection_manager \<Rightarrow> session_id set" where
  "authenticated_sessions s = {sid. \<exists>b. fmlookup (index_b s) sid = Some b \<and> se_state b = Authenticated}"

lemma card_authenticated:
  assumes inv: "conn_inv s" shows "card (authenticated_sessions s) = card (routed s)"
proof -
  have "bij_betw (\<lambda>(u, d). the (route s u d)) (routed s) (authenticated_sessions s)"
    unfolding bij_betw_def
  proof
    show "inj_on (\<lambda>(u, d). the (route s u d)) (routed s)"
      using route_unique [OF inv_wf [OF inv]] by (fastforce simp: inj_on_def routed_def)
    show "(\<lambda>(u, d). the (route s u d)) ` routed s = authenticated_sessions s"
    proof (intro set_eqI iffI)
      fix sid assume "sid \<in> (\<lambda>(u, d). the (route s u d)) ` routed s"
      then show "sid \<in> authenticated_sessions s"
        using inv_live [OF inv] by (fastforce simp: routed_def authenticated_sessions_def)
    next
      fix sid assume "sid \<in> authenticated_sessions s"
      then obtain b where "fmlookup (index_b s) sid = Some b" "se_state b = Authenticated"
        by (auto simp: authenticated_sessions_def)
      with inv_wf [OF inv] obtain u d where "route s u d = Some sid" by (rule wf_authenticatedE)
      then show "sid \<in> (\<lambda>(u, d). the (route s u d)) ` routed s"
        by (force simp: routed_def)
    qed
  qed
  then show ?thesis by (metis bij_betw_same_card)
qed

text \<open>
  C1. Along every sequence of connects, admissible authentications, closes, kicks and watchdog
  passes, the self-check reports nothing (no orphan, illegal or missing route) and the connection
  counter is exactly the number of authenticated sessions, modulo the width of the counter.
\<close>

theorem conn_run_consistent:
  assumes "admissible conn_ok_no_force conn_step (new_with_node_id node) es"
  shows "is_clean (self_check (run conn_step (new_with_node_id node) es)) \<and>
         online_sessions_count (run conn_step (new_with_node_id node) es) =
           of_nat (card (authenticated_sessions (run conn_step (new_with_node_id node) es)))"
  using inv_system.run_inv [OF assms] inv_self_check card_authenticated
  by (auto simp: online_sessions_count_def conn_inv_def)

lemmas conn_eval = new_with_node_id_def register_connecting_def connecting_entry_def may_authenticate_def
  authenticate_def authenticate_bind_def authenticate_switch_def mark_replaced_def Let_def
  unregister_connection_def unregister_remove_def unregister_clean_def remove_route_def route_def
  mark_closing_def disconnect_device_def force_close_session_def fm_is_empty_def fm_get_or_def

text \<open>Witness of C1: two devices of a user, a replacement, a late close.\<close>

theorem conn_run_consistent_witness:
  "admissible conn_ok_no_force conn_step (new_with_node_id ''n'')
     [EConnect 1 10, EAuthenticate 2 10 7 ''a'', EAuthenticate 3 11 7 ''a'', EAuthenticate 4 12 7 ''b'', EClosed 10] \<and>
   is_clean (self_check (run conn_step (new_with_node_id ''n'')
     [EConnect 1 10, EAuthenticate 2 10 7 ''a'', EAuthenticate 3 11 7 ''a'', EAuthenticate 4 12 7 ''b'', EClosed 10])) \<and>
   total_authenticated (run conn_step (new_with_node_id ''n'')
     [EConnect 1 10, EAuthenticate 2 10 7 ''a'', EAuthenticate 3 11 7 ''a'', EAuthenticate 4 12 7 ''b'', EClosed 10]) = 2"
proof -
  have adm: "admissible conn_ok_no_force conn_step (new_with_node_id ''n'')
     [EConnect 1 10, EAuthenticate 2 10 7 ''a'', EAuthenticate 3 11 7 ''a'', EAuthenticate 4 12 7 ''b'', EClosed 10]"
    by (simp add: conn_eval)
  show ?thesis
    using adm conn_run_consistent [OF adm] by (simp add: conn_eval)
qed

text \<open>
  C2. A newer connection of a device takes over: in a consistent state, authenticating session
  \<open>sid\<close> on a device routed to \<open>old\<close> reports \<open>old\<close> as replaced, routes the device to
  \<open>sid\<close>, takes \<open>old\<close> out of delivery with a pointer to its successor, moves no other
  device and leaves the counter. The close event of \<open>old\<close>, whenever it arrives, then touches
  neither a route nor the counter.
\<close>

theorem authenticate_supersedes:
  assumes inv: "conn_inv s" and may: "may_authenticate s sid u d"
    and old: "route s u d = Some old" "old \<noteq> sid"
  shows "snd (authenticate now sid u d s) = Some old \<and>
         is_device_online (fst (authenticate now sid u d s)) u d \<and>
         (\<forall>u' d'. route (fst (authenticate now sid u d s)) u' d' =
            (if u' = u \<and> d' = d then Some sid else route s u' d')) \<and>
         map_option (\<lambda>b. (se_state b, se_superseded_by b))
           (fmlookup (index_b (fst (authenticate now sid u d s))) old) = Some (Replaced, Some sid) \<and>
         online_sessions_count (fst (authenticate now sid u d s)) = online_sessions_count s \<and>
         route (fst (unregister_connection old (fst (authenticate now sid u d s)))) =
           route (fst (authenticate now sid u d s)) \<and>
         online_sessions_count (fst (unregister_connection old (fst (authenticate now sid u d s)))) =
           online_sessions_count s"
proof -
  let ?t = "fst (authenticate now sid u d s)"
  from inv_live [OF inv old(1)] obtain b where b: "fmlookup (index_b s) old = Some b"
    "se_state b = Authenticated" "se_user_id b = Some u" "se_device_id b = Some d" by blast
  have snd: "snd (authenticate now sid u d s) = Some old"
    using old by (simp add: authenticate_def authenticate_switch_def authenticate_bind_def Let_def route_via_get_or)
  have self: "is_device_online ?t u d"
    by (simp add: is_device_online_def route_authenticate lookup_authenticate_self)
  have tot: "total_authenticated ?t = total_authenticated s"
    using old b by (simp add: total_authenticate)
  have lk: "fmlookup (index_b ?t) old = Some (b\<lparr>se_state := Replaced, se_superseded_by := Some sid\<rparr>)"
    using old b by (simp add: lookup_authenticate_other)
  have r: "route (fst (unregister_connection old ?t)) = route ?t"
    using old b by (auto simp: fun_eq_iff route_unregister lk route_authenticate)
  show ?thesis
    using snd self tot lk r b by (simp add: route_authenticate total_unregister online_sessions_count_def)
qed

theorem authenticate_supersedes_witness:
  "snd (authenticate 3 11 7 ''a'' (fst (authenticate 2 10 7 ''a'' (new_with_node_id ''n'')))) = Some 10 \<and>
   route (fst (unregister_connection 10
     (fst (authenticate 3 11 7 ''a'' (fst (authenticate 2 10 7 ''a'' (new_with_node_id ''n''))))))) 7 ''a'' = Some 11"
proof -
  let ?s = "fst (authenticate 2 10 7 ''a'' (new_with_node_id ''n''))"
  have "may_authenticate (new_with_node_id ''n'') 10 7 ''a''" by (simp add: conn_eval)
  then have inv: "conn_inv ?s" by (rule inv_authenticate [OF inv_new])
  have may: "may_authenticate ?s 11 7 ''a''" and r: "route ?s 7 ''a'' = Some 10"
    by (simp_all add: conn_eval)
  from authenticate_supersedes [OF inv may r, of 3]
  show ?thesis by simp
qed

text \<open>
  C3. The watchdog only ever closes sessions that never authenticated: every entry in another state
  is left as it is, every \<open>Connecting\<close> entry older than the cutoff is put into
  \<open>Closing\<close> and every younger one is kept, no route and no counter moves, and a timeout of 0
  turns it off.
\<close>

theorem watchdog_only_stale_connecting:
  assumes inv: "conn_inv s" and cut: "cutoff = wrap_i64 (now - sint (timeout_secs * 1000))"
  shows "fmlookup (index_b (fst (cleanup_stale_connecting tr now timeout_secs s))) sid =
           map_option (\<lambda>b. if timeout_secs \<noteq> 0 \<and> se_state b = Connecting \<and> se_connected_at b < cutoff
                            then b\<lparr>se_state := Closing\<rparr> else b) (fmlookup (index_b s) sid) \<and>
         route (fst (cleanup_stale_connecting tr now timeout_secs s)) = route s \<and>
         online_sessions_count (fst (cleanup_stale_connecting tr now timeout_secs s)) = online_sessions_count s"
proof -
  have "sid \<in> set (stale_candidates cutoff s) \<longleftrightarrow>
        se_state b = Connecting \<and> se_connected_at b < cutoff"
    if "fmlookup (index_b s) sid = Some b" for b
    using that wf_entryD(1) [OF inv_wf [OF inv]] by (force simp: stale_candidates_def set_fm_entries)
  then show ?thesis
    unfolding cut cleanup_stale_connecting_def
    by (cases "fmlookup (index_b s) sid")
       (auto simp: Let_def lookup_close_stale close_stale_frame online_sessions_count_def)
qed

theorem watchdog_only_stale_connecting_witness:
  "map_option se_state (fmlookup (index_b (fst (cleanup_stale_connecting None 100000 30
      (fst (authenticate 10 2 7 ''a'' (register_connecting 5 1 (new_with_node_id ''n''))))))) 1) = Some Closing \<and>
   map_option se_state (fmlookup (index_b (fst (cleanup_stale_connecting None 100000 30
      (fst (authenticate 10 2 7 ''a'' (register_connecting 5 1 (new_with_node_id ''n''))))))) 2) = Some Authenticated"
proof -
  let ?s = "fst (authenticate 10 2 7 ''a'' (register_connecting 5 1 (new_with_node_id ''n'')))"
  have "may_authenticate (register_connecting 5 1 (new_with_node_id ''n'')) 2 7 ''a''"
    by (simp add: conn_eval)
  then have inv: "conn_inv ?s" by (intro inv_authenticate inv_register_connecting inv_new)
  show ?thesis
    using watchdog_only_stale_connecting [OF inv refl, of None 100000 30 1]
      watchdog_only_stale_connecting [OF inv refl, of None 100000 30 2]
    by (simp add: conn_eval wrap_i64_def)
qed

lemma route_disconnect_fold:
  "route (fold (disconnect_device u) ds s) u' d' = (if u' = u \<and> d' \<in> set ds then None else route s u' d')"
  by (induction ds arbitrary: s) (auto simp: route_disconnect_device)

text \<open>
  Kicking a user's other devices closes exactly those: the device that asked keeps its session,
  every other device of the user loses its route and is listed in the answer, no other user is
  touched, and the state stays consistent.
\<close>

theorem disconnect_other_devices_exact:
  assumes inv: "conn_inv s"
  shows "conn_inv (fst (disconnect_other_devices u current s)) \<and>
         route (fst (disconnect_other_devices u current s)) u' d' =
           (if u' = u \<and> d' \<noteq> current then None else route s u' d') \<and>
         set (snd (disconnect_other_devices u current s)) = {d. d \<noteq> current \<and> route s u d \<noteq> None}"
proof -
  have ds: "set (snd (disconnect_other_devices u current s)) = {d. d \<noteq> current \<and> route s u d \<noteq> None}"
    by (force simp: disconnect_other_devices_def Let_def set_fm_entries route_via_get_or)
  have "route (fst (disconnect_other_devices u current s)) u' d' =
      (if u' = u \<and> d' \<in> set (snd (disconnect_other_devices u current s)) then None else route s u' d')"
    by (simp add: disconnect_other_devices_def Let_def route_disconnect_fold)
  with ds inv_disconnect_other_devices [OF inv] show ?thesis by auto
qed

theorem disconnect_other_devices_exact_witness:
  "route (fst (disconnect_other_devices 7 ''b''
     (fst (authenticate 3 11 7 ''b'' (fst (authenticate 2 10 7 ''a'' (new_with_node_id ''n''))))))) 7 ''a'' = None \<and>
   route (fst (disconnect_other_devices 7 ''b''
     (fst (authenticate 3 11 7 ''b'' (fst (authenticate 2 10 7 ''a'' (new_with_node_id ''n''))))))) 7 ''b'' = Some 11"
proof -
  let ?s0 = "fst (authenticate 2 10 7 ''a'' (new_with_node_id ''n''))"
  have "may_authenticate (new_with_node_id ''n'') 10 7 ''a''" "may_authenticate ?s0 11 7 ''b''"
    by (simp_all add: conn_eval)
  then have inv: "conn_inv (fst (authenticate 3 11 7 ''b'' ?s0))" by (intro inv_authenticate inv_new)
  show ?thesis
    using disconnect_other_devices_exact [OF inv, of 7 "''b''" 7 "''a''"]
      disconnect_other_devices_exact [OF inv, of 7 "''b''" 7 "''b''"]
    by (simp add: conn_eval)
qed

text \<open>
  The clean-up of a failed delivery (\<open>force_close_session\<close> followed by
  \<open>unregister_connection\<close>) leaks the counter: it removes the route of an authenticated session,
  but the session is no longer \<open>Authenticated\<close> when it is unregistered, so the counter is not
  decremented and from then on exceeds the number of authenticated sessions by one.
\<close>

theorem delivery_cleanup_leaks_count:
  assumes inv: "conn_inv s" and r: "route s u d = Some sid"
  shows "route (fst (unregister_connection sid (force_close_session sid s))) u d = None \<and>
         online_sessions_count (fst (unregister_connection sid (force_close_session sid s))) =
           of_nat (card (routed (fst (unregister_connection sid (force_close_session sid s)))) + 1)"
proof -
  from inv_live [OF inv r] obtain b where b: "fmlookup (index_b s) sid = Some b"
    "se_state b = Authenticated" "se_user_id b = Some u" "se_device_id b = Some d" by blast
  let ?t = "fst (unregister_connection sid (mark_closing sid s))"
  have rt: "route ?t u' d' = (if u' = u \<and> d' = d then None else route s u' d')" for u' d'
    using b r by (auto simp: route_unregister)
  have "routed ?t = routed s - {(u, d)}" by (auto simp: routed_def rt)
  moreover have "(u, d) \<in> routed s" using r by (simp add: routed_def)
  ultimately have "card (routed s) = Suc (card (routed ?t))"
    by (simp add: card_Suc_Diff1 del: card_Diff_insert)
  with inv b show ?thesis
    by (simp add: force_close_session_def rt online_sessions_count_def total_unregister conn_inv_def)
qed

theorem delivery_cleanup_leaks_count_witness:
  "online_sessions_count (fst (unregister_connection 10 (force_close_session 10
      (fst (authenticate 2 10 7 ''a'' (new_with_node_id ''n'')))))) = 1 \<and>
   routed (fst (unregister_connection 10 (force_close_session 10
      (fst (authenticate 2 10 7 ''a'' (new_with_node_id ''n'')))))) = {}"
proof -
  let ?s = "fst (authenticate 2 10 7 ''a'' (new_with_node_id ''n''))"
  have "may_authenticate (new_with_node_id ''n'') 10 7 ''a''" by (simp add: conn_eval)
  then have inv: "conn_inv ?s" by (rule inv_authenticate [OF inv_new])
  have r: "route ?s 7 ''a'' = Some 10" by (simp add: conn_eval)
  have e: "routed (fst (unregister_connection 10 (force_close_session 10 ?s))) = {}"
    by (simp add: routed_def conn_eval)
  show ?thesis using delivery_cleanup_leaks_count [OF inv r] e by simp
qed

end
