(* ===== verification/ConnectionDelivery.thy ===== *)
theory ConnectionDelivery
  imports ConnectionManager "HOL-Library.Multiset"
begin

text \<open>
  The delivery path of \<open>infra/connection_manager.rs\<close>: which sessions of a user a push is routed
  to, how a transport outcome is classified, the clean-up a failed route triggers and the report.
  The transport server (the \<open>msgtrans\<close> crate) and the wire codec are parameters of the
  definitions; of the transport's error type the model has the cases the source distinguishes.
\<close>

section \<open>Outcomes and the report\<close>

datatype delivery_failure_classification =
    RouteTimeout | DeadConnection | SlowConsumer | RetryableTransport | PermanentTransport
  | TransportUnavailable | RemoteOwnerUnsupported | ProtocolAckRejected | ProtocolAckMalformed

fun metric_label :: "delivery_failure_classification \<Rightarrow> string" where
  "metric_label RouteTimeout = ''route_timeout''"
| "metric_label DeadConnection = ''dead_connection''"
| "metric_label SlowConsumer = ''slow_consumer''"
| "metric_label RetryableTransport = ''retryable_transport''"
| "metric_label PermanentTransport = ''permanent_transport''"
| "metric_label TransportUnavailable = ''transport_unavailable''"
| "metric_label RemoteOwnerUnsupported = ''remote_owner_unsupported''"
| "metric_label ProtocolAckRejected = ''protocol_ack_rejected''"
| "metric_label ProtocolAckMalformed = ''protocol_ack_malformed''"

record failed_session_delivery =
  fd_session_id :: session_id
  fd_owner_node_id :: string
  fd_classification :: delivery_failure_classification
  fd_detail :: string
  fd_cleaned_up :: bool

record delivery_report =
  attempted :: nat
  successful_sessions :: "session_id list"
  acknowledged_sessions :: "session_id list"
  failed_sessions :: "failed_session_delivery list"
  failure_classification :: "(delivery_failure_classification, nat) fmap"

definition default_report :: delivery_report where
  "default_report = \<lparr>attempted = 0, successful_sessions = [], acknowledged_sessions = [],
     failed_sessions = [], failure_classification = fmempty\<rparr>"

definition successful_count :: "delivery_report \<Rightarrow> nat" where
  "successful_count r = length (successful_sessions r)"

definition failed_count :: "delivery_report \<Rightarrow> nat" where
  "failed_count r = length (failed_sessions r)"

definition acknowledged_count :: "delivery_report \<Rightarrow> nat" where
  "acknowledged_count r = length (acknowledged_sessions r)"

definition push_failure :: "failed_session_delivery \<Rightarrow> delivery_report \<Rightarrow> delivery_report" where
  "push_failure f r =
     r\<lparr>failure_classification :=
         fmupd (fd_classification f)
           (fm_get_or 0 (fd_classification f) (failure_classification r) + 1) (failure_classification r),
       failed_sessions := failed_sessions r @ [f]\<rparr>"

datatype session_attempt_outcome =
    Success bool
  | Failure delivery_failure_classification string

datatype transport_error =
    TConnection (retryable: bool)
  | TResource (resource: string)
  | TConfiguration
  | TProtocol
  | TTimeout
  | TOther

datatype session_send_failure =
    Transport transport_error
  | Classified delivery_failure_classification string

fun classify_transport_error :: "transport_error \<Rightarrow> delivery_failure_classification" where
  "classify_transport_error (TConnection False) = DeadConnection"
| "classify_transport_error (TResource r) =
     (if sublist ''outbound_queue'' r then SlowConsumer else RetryableTransport)"
| "classify_transport_error TConfiguration = PermanentTransport"
| "classify_transport_error (TConnection True) = RetryableTransport"
| "classify_transport_error TProtocol = RetryableTransport"
| "classify_transport_error TTimeout = RetryableTransport"
| "classify_transport_error TOther = RetryableTransport"

section \<open>The transport server and the codec as parameters\<close>

text \<open>
  \<open>ts_send\<close> and \<open>ts_request\<close> are what the transport answers for a session; the outer
  \<open>Err\<close> of a request is a failure of the detached task. \<open>ts_timed_out\<close> says whether the
  route deadline passes before the answer, \<open>ts_order\<close> is the order in which the concurrent
  attempts complete.
\<close>

record ('p, 'r) transport_server =
  ts_send :: "session_id \<Rightarrow> 'p \<Rightarrow> (unit, transport_error) result"
  ts_request :: "session_id \<Rightarrow> 'p \<Rightarrow> (('r, transport_error) result, string) result"
  ts_timed_out :: "session_id \<Rightarrow> bool"
  ts_display :: "transport_error \<Rightarrow> string"
  ts_order :: "session_id list \<Rightarrow> session_id list"

record push_message_response =
  pr_succeed :: bool
  pr_message :: "string option"

record ('m, 'p, 'r) codec =
  encode_message :: "'m \<Rightarrow> ('p, string) result"
  decode_response :: "'r \<Rightarrow> (push_message_response, string) result"

fun send_outcome ::
  "('p, 'r) transport_server \<Rightarrow> (bool, session_send_failure) result option \<Rightarrow> session_attempt_outcome" where
  "send_outcome ts (Some (Ok acknowledged)) = Success acknowledged"
| "send_outcome ts (Some (Err (Transport e))) = Failure (classify_transport_error e) (ts_display ts e)"
| "send_outcome ts (Some (Err (Classified c detail))) = Failure c detail"
| "send_outcome ts None = Failure RouteTimeout ''route timeout after 5000ms''"

definition deliver_sessions_concurrently ::
  "('p, 'r) transport_server \<Rightarrow> session_id list \<Rightarrow> (session_id \<Rightarrow> (bool, session_send_failure) result) \<Rightarrow>
   (session_id \<times> session_attempt_outcome) list" where
  "deliver_sessions_concurrently ts sessions send =
     map (\<lambda>sid. (sid, send_outcome ts (if ts_timed_out ts sid then None else Some (send sid))))
       (ts_order ts sessions)"

definition decode_ack ::
  "('m, 'p, 'r) codec \<Rightarrow> (('r, transport_error) result, string) result \<Rightarrow> (bool, session_send_failure) result" where
  "decode_ack cd reply =
     (case reply of
        Err e \<Rightarrow> Err (Classified RetryableTransport (''protocol ACK task failed: '' @ e))
      | Ok (Err e) \<Rightarrow> Err (Transport e)
      | Ok (Ok response) \<Rightarrow>
          (case decode_response cd response of
             Err e \<Rightarrow> Err (Classified ProtocolAckMalformed (''invalid PushMessageResponse: '' @ e))
           | Ok ack \<Rightarrow>
               if \<not> pr_succeed ack
               then Err (Classified ProtocolAckRejected
                      (case pr_message ack of Some m \<Rightarrow> m | None \<Rightarrow> ''receiver rejected delivery ACK''))
               else Ok True))"

definition push_once ::
  "('m, 'p, 'r) codec \<Rightarrow> ('p, 'r) transport_server \<Rightarrow> bool \<Rightarrow> 'p \<Rightarrow> session_id \<Rightarrow>
   (bool, session_send_failure) result" where
  "push_once cd ts receipt_required payload sid =
     (if \<not> receipt_required
      then (case ts_send ts sid payload of Ok _ \<Rightarrow> Ok False | Err e \<Rightarrow> Err (Transport e))
      else decode_ack cd (ts_request ts sid payload))"

section \<open>Delivery\<close>

definition needs_cleanup :: "delivery_failure_classification \<Rightarrow> bool" where
  "needs_cleanup c \<longleftrightarrow> c = DeadConnection \<or> c = SlowConsumer \<or> c = RouteTimeout"

fun apply_delivery_attempts ::
  "(session_id, string) fmap \<Rightarrow> (session_id \<times> session_attempt_outcome) list \<Rightarrow>
   connection_manager \<times> delivery_report \<Rightarrow> connection_manager \<times> delivery_report" where
  "apply_delivery_attempts owners [] (s, r) = (s, r)"
| "apply_delivery_attempts owners ((sid, Success acknowledged) # rest) (s, r) =
     apply_delivery_attempts owners rest
       (s, r\<lparr>successful_sessions := successful_sessions r @ [sid],
             acknowledged_sessions := (if acknowledged then acknowledged_sessions r @ [sid]
                                       else acknowledged_sessions r)\<rparr>)"
| "apply_delivery_attempts owners ((sid, Failure c detail) # rest) (s, r) =
     (let (s1, cleaned_up) =
        (if needs_cleanup c
         then (let (s', removed) = unregister_connection sid (force_close_session sid s)
               in (s', removed \<noteq> None))
         else (s, False))
      in apply_delivery_attempts owners rest
           (s1, push_failure
             \<lparr>fd_session_id = sid, fd_owner_node_id = fm_get_or (local_node_id s) sid owners,
              fd_classification = c, fd_detail = detail, fd_cleaned_up = cleaned_up\<rparr> r))"

definition push_target :: "connection_manager \<Rightarrow> session_id \<Rightarrow> (session_id \<times> string) option" where
  "push_target s sid =
     (case fmlookup (index_b s) sid of
        None \<Rightarrow> None
      | Some b \<Rightarrow>
          if se_state b \<noteq> Authenticated then None
          else if se_superseded_by b \<noteq> None then None
          else Some (sid, se_owner_node_id b))"

definition live_sessions :: "connection_manager \<Rightarrow> user_id \<Rightarrow> (session_id \<times> string) list" where
  "live_sessions s u =
     (case fmlookup (index_a s) u of
        None \<Rightarrow> []
      | Some m \<Rightarrow> List.map_filter (push_target s) (map snd (fm_entries m)))"

definition fail_all ::
  "delivery_failure_classification \<Rightarrow> string \<Rightarrow> (session_id \<times> string) list \<Rightarrow> delivery_report \<Rightarrow> delivery_report" where
  "fail_all c detail = fold (\<lambda>(sid, owner). push_failure
     \<lparr>fd_session_id = sid, fd_owner_node_id = owner, fd_classification = c, fd_detail = detail,
      fd_cleaned_up = False\<rparr>)"

definition send_push_to_user ::
  "('m, 'p, 'r) codec \<Rightarrow> ('p, 'r) transport_server option \<Rightarrow> bool \<Rightarrow> 'm \<Rightarrow> user_id \<Rightarrow> connection_manager \<Rightarrow>
   connection_manager \<times> (delivery_report, string) result" where
  "send_push_to_user cd transport need_receipt message u s =
     (let live = live_sessions s u
      in if live = [] then (s, Ok default_report)
         else
           let (local, remote) = partition (\<lambda>(_, owner). owner = local_node_id s) live;
               report = fail_all RemoteOwnerUnsupported ''cross-node dispatch is reserved for CODEX-11'' remote
                          (default_report\<lparr>attempted := length live\<rparr>)
           in (case transport of
                 None \<Rightarrow> (s, Ok (fail_all TransportUnavailable ''TransportServer is not configured'' local report))
               | Some ts \<Rightarrow>
                   (case encode_message cd message of
                      Err e \<Rightarrow> (s, Err (''encode PushMessageRequest failed: '' @ e))
                    | Ok payload \<Rightarrow>
                        (let attempts = deliver_sessions_concurrently ts (map fst local)
                                          (push_once cd ts need_receipt payload);
                             (s', report') = apply_delivery_attempts (fmap_of_list local) attempts (s, report)
                         in (s', Ok report')))))"

definition send_push_on_session ::
  "('m, 'p, 'r) codec \<Rightarrow> ('p, 'r) transport_server option \<Rightarrow> 'm \<Rightarrow> session_id \<Rightarrow> (nat, string) result" where
  "send_push_on_session cd transport message sid =
     (case transport of
        None \<Rightarrow> Ok 0
      | Some ts \<Rightarrow>
          (case encode_message cd message of
             Err e \<Rightarrow> Err (''encode PushMessageRequest failed: '' @ e)
           | Ok payload \<Rightarrow> Ok (case ts_send ts sid payload of Ok _ \<Rightarrow> 1 | Err _ \<Rightarrow> 0)))"

definition send_push_to_session ::
  "('m, 'p, 'r) codec \<Rightarrow> ('p, 'r) transport_server option \<Rightarrow> 'm \<Rightarrow> session_id \<Rightarrow> connection_manager \<Rightarrow> (nat, string) result" where
  "send_push_to_session cd transport message sid s =
     (case fmlookup (index_b s) sid of
        None \<Rightarrow> Ok 0
      | Some b \<Rightarrow>
          if se_state b \<noteq> Authenticated then Ok 0
          else if se_superseded_by b \<noteq> None then Ok 0
          else send_push_on_session cd transport message sid)"

definition send_push_to_device ::
  "('m, 'p, 'r) codec \<Rightarrow> ('p, 'r) transport_server option \<Rightarrow> 'm \<Rightarrow> user_id \<Rightarrow> device_id \<Rightarrow> connection_manager \<Rightarrow>
   (nat, string) result" where
  "send_push_to_device cd transport message u d s =
     (case route s u d of None \<Rightarrow> Ok 0 | Some sid \<Rightarrow> send_push_to_session cd transport message sid s)"

definition send_unauth_event_to_session ::
  "('m, 'p, 'r) codec \<Rightarrow> ('p, 'r) transport_server option \<Rightarrow> 'm \<Rightarrow> session_id \<Rightarrow> (nat, string) result" where
  "send_unauth_event_to_session cd transport message sid = send_push_on_session cd transport message sid"

section \<open>Who receives a push\<close>

lemma push_target_Some:
  "push_target s sid = Some p \<longleftrightarrow>
     (\<exists>b. fmlookup (index_b s) sid = Some b \<and> live_entry b \<and> p = (sid, se_owner_node_id b))"
  by (auto simp: push_target_def live_entry_def split: option.splits)

lemma set_live_sessions:
  "(sid, owner) \<in> set (live_sessions s u) \<longleftrightarrow>
     (\<exists>d b. route s u d = Some sid \<and> fmlookup (index_b s) sid = Some b \<and> live_entry b \<and>
            owner = se_owner_node_id b)"
proof (cases "fmlookup (index_a s) u")
  case (Some m)
  have "(sid, owner) \<in> set (live_sessions s u) \<longleftrightarrow>
      (\<exists>d x. fmlookup m d = Some x \<and> push_target s x = Some (sid, owner))"
    by (force simp: live_sessions_def Some set_map_filter set_fm_entries)
  then show ?thesis by (simp add: route_def Some push_target_Some) blast
qed (simp add: live_sessions_def route_def)

lemma distinct_map_filter_fst:
  assumes "distinct xs" and f: "\<And>x y. f x = Some y \<Longrightarrow> x = fst y"
  shows "distinct (map fst (List.map_filter f xs))"
  using assms(1)
proof (induction xs)
  case (Cons x xs)
  show ?case
  proof (cases "f x")
    case (Some y)
    have "fst y \<notin> fst ` set (List.map_filter f xs)"
    proof
      assume "fst y \<in> fst ` set (List.map_filter f xs)"
      then obtain x' z where "x' \<in> set xs" "f x' = Some z" "fst z = fst y" by (auto simp: set_map_filter)
      with f [of x' z] f [of x y] Some have "x \<in> set xs" by simp
      with Cons.prems show False by simp
    qed
    with Some Cons show ?thesis by simp
  qed (use Cons in simp)
qed simp

lemma distinct_live_sessions:
  assumes wf: "conn_wf s" shows "distinct (map fst (live_sessions s u))"
proof (cases "fmlookup (index_a s) u")
  case (Some m)
  have "inj_on snd (set (fm_entries m))"
  proof (rule inj_onI)
    fix x y assume "x \<in> set (fm_entries m)" "y \<in> set (fm_entries m)" "snd x = snd y"
    then have "route s u (fst x) = Some (snd x)" "route s u (fst y) = Some (snd x)"
      using Some by (auto simp: route_def set_fm_entries)
    then have "fst x = fst y" using route_unique [OF wf] by metis
    then show "x = y" using \<open>snd x = snd y\<close> by (simp add: prod_eq_iff)
  qed
  then have "distinct (map snd (fm_entries m))"
    using distinct_fm_entries [of m] by (simp add: distinct_map)
  then show ?thesis
    unfolding live_sessions_def Some option.case
    by (rule distinct_map_filter_fst) (auto simp: push_target_Some)
qed (simp add: live_sessions_def)

lemma has_authenticated_connection_iff:
  "has_authenticated_connection s u \<longleftrightarrow> live_sessions s u \<noteq> []"
proof (cases "fmlookup (index_a s) u")
  case (Some m)
  have "has_authenticated_connection s u \<longleftrightarrow> (\<exists>x\<in>set (fm_entries m). push_target s (snd x) \<noteq> None)"
    unfolding has_authenticated_connection_def Some option.case list_ex_iff
    by (rule bex_cong [OF refl]) (auto simp: push_target_def live_entry_def split: option.splits)
  with Some show ?thesis by (simp add: live_sessions_def map_filter_Nil_iff)
qed (simp add: has_authenticated_connection_def live_sessions_def)

text \<open>
  C4. A push goes to the right people. After every sequence of calls (forced closes included) in
  which authentications are admissible, the sessions a push for a user is sent to are exactly the
  authenticated sessions bound to that user, each of them once; in particular no session of another
  user, no replaced and no closing session. The offline decision agrees:
  \<open>has_authenticated_connection\<close> holds iff that set is not empty.
\<close>

theorem delivery_targets_exact:
  assumes "admissible conn_ok conn_step (new_with_node_id node) es"
    and s: "s = run conn_step (new_with_node_id node) es"
  shows "set (map fst (live_sessions s u)) =
           {sid. \<exists>b. fmlookup (index_b s) sid = Some b \<and> se_state b = Authenticated \<and> se_user_id b = Some u} \<and>
         distinct (map fst (live_sessions s u)) \<and>
         (has_authenticated_connection s u \<longleftrightarrow> live_sessions s u \<noteq> [])"
proof -
  have wf: "conn_wf s" using wf_system.run_inv [OF assms(1)] s by simp
  have "sid \<in> set (map fst (live_sessions s u)) \<longleftrightarrow>
      (\<exists>b. fmlookup (index_b s) sid = Some b \<and> se_state b = Authenticated \<and> se_user_id b = Some u)" for sid
  proof
    assume "sid \<in> set (map fst (live_sessions s u))"
    then obtain d b where "route s u d = Some sid" "fmlookup (index_b s) sid = Some b" "live_entry b"
      by (auto simp: set_live_sessions)
    then show "\<exists>b. fmlookup (index_b s) sid = Some b \<and> se_state b = Authenticated \<and> se_user_id b = Some u"
      by (auto simp: live_entry_def elim: wf_routeE [OF wf])
  next
    assume "\<exists>b. fmlookup (index_b s) sid = Some b \<and> se_state b = Authenticated \<and> se_user_id b = Some u"
    then obtain b d where b: "fmlookup (index_b s) sid = Some b" "se_state b = Authenticated"
      and r: "route s u d = Some sid" by (metis option.inject wf wf_authenticatedE)
    from wf_routeE [OF wf r] b have "live_entry b" by (auto simp: live_entry_def)
    with r b have "(sid, se_owner_node_id b) \<in> set (live_sessions s u)" by (auto simp: set_live_sessions)
    then show "sid \<in> set (map fst (live_sessions s u))" by force
  qed
  then show ?thesis
    using distinct_live_sessions [OF wf] has_authenticated_connection_iff by blast
qed

theorem delivery_targets_exact_witness:
  "set (map fst (live_sessions (run conn_step (new_with_node_id ''n'')
      [EAuthenticate 1 10 7 ''a'', EAuthenticate 2 11 7 ''b'', EAuthenticate 3 12 8 ''c'', EForceClose 11]) 7)) = {10}"
proof -
  let ?es = "[EAuthenticate 1 10 7 ''a'', EAuthenticate 2 11 7 ''b'', EAuthenticate 3 12 8 ''c'', EForceClose 11]"
  let ?s = "run conn_step (new_with_node_id ''n'') ?es"
  have adm: "admissible conn_ok conn_step (new_with_node_id ''n'') ?es" by (simp add: conn_eval)
  have "{sid. \<exists>b. fmlookup (index_b ?s) sid = Some b \<and> se_state b = Authenticated \<and> se_user_id b = Some 7} = {10}"
    by (auto simp: conn_eval)
  with delivery_targets_exact [OF adm refl, of 7] show ?thesis by simp
qed

section \<open>What the report says\<close>

definition report_wf :: "delivery_report \<Rightarrow> bool" where
  "report_wf r \<longleftrightarrow> set (acknowledged_sessions r) \<subseteq> set (successful_sessions r) \<and>
     (\<forall>c. fm_get_or 0 c (failure_classification r) =
            length (filter (\<lambda>f. fd_classification f = c) (failed_sessions r)))"

definition reported :: "delivery_report \<Rightarrow> session_id multiset" where
  "reported r = mset (successful_sessions r) + mset (map fd_session_id (failed_sessions r))"

lemma report_wf_default [simp]: "report_wf (default_report\<lparr>attempted := n\<rparr>)"
  by (simp add: report_wf_def default_report_def)

lemma report_wf_push_failure [simp]: "report_wf r \<Longrightarrow> report_wf (push_failure f r)"
  by (simp add: report_wf_def push_failure_def)

lemma reported_push_failure [simp]:
  "reported (push_failure f r) = add_mset (fd_session_id f) (reported r)"
  by (simp add: reported_def push_failure_def)

lemma attempted_push_failure [simp]: "attempted (push_failure f r) = attempted r"
  by (simp add: push_failure_def)

lemma fail_all_report:
  "report_wf r \<Longrightarrow> report_wf (fail_all c detail xs r) \<and> attempted (fail_all c detail xs r) = attempted r \<and>
     reported (fail_all c detail xs r) = mset (map fst xs) + reported r"
  by (induction xs arbitrary: r) (auto simp: fail_all_def)

lemma apply_delivery_attempts_report:
  "report_wf r \<Longrightarrow> apply_delivery_attempts owners atts (s, r) = (s', r') \<Longrightarrow>
     report_wf r' \<and> attempted r' = attempted r \<and> reported r' = mset (map fst atts) + reported r"
proof (induction owners atts "(s, r)" arbitrary: s r rule: apply_delivery_attempts.induct)
  case (2 owners sid acknowledged rest s r)
  have "report_wf (r\<lparr>successful_sessions := successful_sessions r @ [sid],
      acknowledged_sessions := (if acknowledged then acknowledged_sessions r @ [sid] else acknowledged_sessions r)\<rparr>)"
    using 2(2) by (auto simp: report_wf_def)
  from 2(1) [OF this] 2(3) show ?case by (simp add: reported_def)
next
  case (3 owners sid c detail rest s r)
  then show ?case by (auto simp: Let_def split: if_splits prod.splits)
qed simp

definition fail_keys :: "delivery_report \<Rightarrow> (session_id \<times> delivery_failure_classification) set" where
  "fail_keys r = (\<lambda>f. (fd_session_id f, fd_classification f)) ` set (failed_sessions r)"

lemma fail_keys_push_failure [simp]:
  "fail_keys (push_failure f r) = insert (fd_session_id f, fd_classification f) (fail_keys r)"
  by (auto simp: fail_keys_def push_failure_def)

lemma fail_keys_default [simp]: "fail_keys (default_report\<lparr>attempted := n\<rparr>) = {}"
  by (simp add: fail_keys_def default_report_def)

lemma fail_keys_fail_all: "fail_keys (fail_all c detail xs r) = (\<lambda>(sid, _). (sid, c)) ` set xs \<union> fail_keys r"
  by (induction xs arbitrary: r) (auto simp: fail_all_def)

lemma fail_keys_apply_delivery_attempts:
  "fail_keys (snd (apply_delivery_attempts owners atts (s, r))) =
     {(sid, c). \<exists>detail. (sid, Failure c detail) \<in> set atts} \<union> fail_keys r"
proof (induction owners atts "(s, r)" arbitrary: s r rule: apply_delivery_attempts.induct)
  case (2 owners sid acknowledged rest s r)
  then show ?case by (auto simp: fail_keys_def)
next
  case (3 owners sid c detail rest s r)
  then show ?case by (auto simp: Let_def split: prod.splits)
qed simp

definition cleaned_by :: "(session_id \<times> session_attempt_outcome) list \<Rightarrow> session_id \<Rightarrow> bool" where
  "cleaned_by atts sid \<longleftrightarrow> (\<exists>c detail. (sid, Failure c detail) \<in> set atts \<and> needs_cleanup c)"

lemma index_b_delivery_cleanup:
  "fmlookup (index_b (fst (unregister_connection sid (force_close_session sid s)))) x =
     (if x = sid then None else fmlookup (index_b s) x)"
  by (simp add: index_b_unregister force_close_session_def option.map_ident)

lemma lookup_apply_delivery_attempts:
  "fmlookup (index_b (fst (apply_delivery_attempts owners atts (s, r)))) x =
     (if cleaned_by atts x then None else fmlookup (index_b s) x)"
proof (induction owners atts "(s, r)" arbitrary: s r rule: apply_delivery_attempts.induct)
  case (3 owners sid c detail rest s r)
  have "cleaned_by ((sid, Failure c detail) # rest) x \<longleftrightarrow> x = sid \<and> needs_cleanup c \<or> cleaned_by rest x"
    by (auto simp: cleaned_by_def)
  with 3 index_b_delivery_cleanup [of sid s x] show ?case
    by (auto simp: Let_def split: prod.splits)
qed (auto simp: cleaned_by_def)

lemma send_push_live:
  assumes order: "\<And>xs. mset (ts_order ts xs) = mset xs"
    and sent: "send_push_to_user cd (Some ts) need_receipt message u s = (s', Ok r)"
    and live: "live_sessions s u \<noteq> []"
  shows "report_wf r \<and> attempted r = length (live_sessions s u) \<and>
         reported r = mset (map fst (live_sessions s u)) \<and>
         (\<forall>x. fmlookup (index_b s') x =
            (if \<exists>c. needs_cleanup c \<and> (x, c) \<in> fail_keys r then None else fmlookup (index_b s) x))"
proof -
  let ?live = "live_sessions s u" and ?own = "\<lambda>(_, owner). owner = local_node_id s"
  let ?r0 = "fail_all RemoteOwnerUnsupported ''cross-node dispatch is reserved for CODEX-11''
               (filter (\<lambda>x. \<not> ?own x) ?live) (default_report\<lparr>attempted := length ?live\<rparr>)"
  from sent live obtain payload where
    app: "apply_delivery_attempts (fmap_of_list (filter ?own ?live))
            (deliver_sessions_concurrently ts (map fst (filter ?own ?live))
               (push_once cd ts need_receipt payload)) (s, ?r0) = (s', r)"
      (is "apply_delivery_attempts ?owners ?atts _ = _")
    by (auto simp: send_push_to_user_def Let_def o_def split: result.splits prod.splits)
  have r0: "report_wf ?r0 \<and> attempted ?r0 = length ?live \<and>
      reported ?r0 = mset (map fst (filter (\<lambda>x. \<not> ?own x) ?live))"
    using fail_all_report [OF report_wf_default] by (simp add: reported_def default_report_def)
  then have "report_wf r \<and> attempted r = length ?live \<and> reported r =
      mset (ts_order ts (map fst (filter ?own ?live))) + mset (map fst (filter (\<lambda>x. \<not> ?own x) ?live))"
    using apply_delivery_attempts_report [OF _ app] by (simp add: deliver_sessions_concurrently_def comp_def)
  moreover have "mset (ts_order ts (map fst (filter ?own ?live))) +
      mset (map fst (filter (\<lambda>x. \<not> ?own x) ?live)) = mset (map fst ?live)"
    by (simp add: order flip: image_mset_union)
  moreover have "(\<exists>c. needs_cleanup c \<and> (x, c) \<in> fail_keys r) \<longleftrightarrow> cleaned_by ?atts x" for x
    using fail_keys_apply_delivery_attempts [of ?owners ?atts s ?r0] app
    by (auto simp: fail_keys_fail_all cleaned_by_def needs_cleanup_def)
  ultimately show ?thesis
    using lookup_apply_delivery_attempts [of ?owners ?atts s ?r0] app by simp
qed

text \<open>
  C5. The delivery report accounts for every session. When the transport completes each attempt
  once, in whatever order, every live session of the user is reported exactly once, as a success or
  as a failure; the attempted number is the sum of the two; acknowledgements are successes; the
  classification table counts the failures. Index B loses exactly the sessions whose attempt timed
  out, was dead or was too slow.
\<close>

theorem send_push_report_accounts:
  assumes order: "\<And>xs. mset (ts_order ts xs) = mset xs"
    and sent: "send_push_to_user cd (Some ts) need_receipt message u s = (s', Ok r)"
  shows "reported r = mset (map fst (live_sessions s u)) \<and>
         attempted r = successful_count r + failed_count r \<and>
         set (acknowledged_sessions r) \<subseteq> set (successful_sessions r) \<and>
         (\<forall>c. fm_get_or 0 c (failure_classification r) =
            length (filter (\<lambda>f. fd_classification f = c) (failed_sessions r))) \<and>
         (\<forall>x. fmlookup (index_b s') x =
            (if \<exists>c. needs_cleanup c \<and> (x, c) \<in> fail_keys r then None else fmlookup (index_b s) x))"
proof -
  have "report_wf r \<and> attempted r = length (live_sessions s u) \<and>
        reported r = mset (map fst (live_sessions s u)) \<and>
        (\<forall>x. fmlookup (index_b s') x =
            (if \<exists>c. needs_cleanup c \<and> (x, c) \<in> fail_keys r then None else fmlookup (index_b s) x))"
    (is "?wf \<and> ?n \<and> ?m \<and> ?b")
  proof (cases "live_sessions s u = []")
    case True
    with sent have "r = default_report" "s' = s" by (auto simp: send_push_to_user_def)
    with True show ?thesis by (simp add: report_wf_def reported_def fail_keys_def default_report_def)
  next
    case False
    show ?thesis by (rule send_push_live [OF order sent False])
  qed
  then have wf: ?wf and n: ?n and m: ?m and b: ?b by blast+
  have "successful_count r + failed_count r = size (reported r)"
    by (simp add: reported_def successful_count_def failed_count_def)
  with n m have "attempted r = successful_count r + failed_count r" by simp
  with wf m b show ?thesis unfolding report_wf_def by blast
qed

lemma send_push_returns:
  "encode_message cd message = Ok payload \<Longrightarrow>
     \<exists>s' r. send_push_to_user cd transport need_receipt message u s = (s', Ok r)"
  by (simp add: send_push_to_user_def Let_def split: prod.split option.split)

text \<open>Witness of C7: two devices, one answers, the other times out and is dropped.\<close>

definition sample_transport :: "(unit, unit) transport_server" where
  "sample_transport = \<lparr>ts_send = (\<lambda>_ _. Ok ()), ts_request = (\<lambda>_ _. Ok (Ok ())),
     ts_timed_out = (\<lambda>sid. sid = 11), ts_display = (\<lambda>_. []), ts_order = rev\<rparr>"

definition sample_codec :: "(unit, unit, unit) codec" where
  "sample_codec = \<lparr>encode_message = (\<lambda>_. Ok ()), decode_response = (\<lambda>_. Ok \<lparr>pr_succeed = True, pr_message = None\<rparr>)\<rparr>"

theorem send_push_report_accounts_witness:
  "\<exists>s' r. send_push_to_user sample_codec (Some sample_transport) False () 7
      (run conn_step (new_with_node_id ''n'') [EAuthenticate 1 10 7 ''a'', EAuthenticate 2 11 7 ''b'']) = (s', Ok r) \<and>
    attempted r = successful_count r + failed_count r \<and>
    fmlookup (index_b s') 11 =
      (if \<exists>c. needs_cleanup c \<and> (11, c) \<in> fail_keys r then None
       else fmlookup (index_b (run conn_step (new_with_node_id ''n'') [EAuthenticate 1 10 7 ''a'', EAuthenticate 2 11 7 ''b''])) 11)"
proof -
  let ?s = "run conn_step (new_with_node_id ''n'') [EAuthenticate 1 10 7 ''a'', EAuthenticate 2 11 7 ''b'']"
  have "encode_message sample_codec () = Ok ()" by (simp add: sample_codec_def)
  from send_push_returns [OF this] obtain s' r
    where sent: "send_push_to_user sample_codec (Some sample_transport) False () 7 ?s = (s', Ok r)" by blast
  have order: "\<And>xs. mset (ts_order sample_transport xs) = mset xs" by (simp add: sample_transport_def)
  show ?thesis
    by (intro exI conjI, rule sent) (use send_push_report_accounts [OF order sent] in blast)+
qed

text \<open>
  C6. A session that authenticates again under another account keeps receiving the first account's
  messages: \<open>authenticate\<close> rebinds the entry of the session but leaves the first user's route,
  and neither the delivery filter nor the self-check compares the entry's user with the route's.
\<close>

theorem reauthentication_keeps_old_route:
  assumes inv: "conn_inv s" and r: "route s u1 d1 = Some sid" and ne: "u2 \<noteq> u1"
    and free: "route s u2 d2 = None"
  shows "sid \<in> set (map fst (live_sessions (fst (authenticate now sid u2 d2 s)) u1)) \<and>
         map_option se_user_id (fmlookup (index_b (fst (authenticate now sid u2 d2 s))) sid) = Some (Some u2) \<and>
         is_clean (self_check (fst (authenticate now sid u2 d2 s)))"
proof -
  let ?t = "fst (authenticate now sid u2 d2 s)"
  from inv_live [OF inv r] obtain b where b: "fmlookup (index_b s) sid = Some b" "se_superseded_by b = None" by blast
  have rt: "route ?t u1 d1 = Some sid" using r ne by (simp add: route_authenticate)
  have self: "fmlookup (index_b ?t) sid = Some (b\<lparr>se_user_id := Some u2, se_device_id := Some d2,
      se_owner_node_id := local_node_id s, se_state := Authenticated, se_authenticated_at := Some now\<rparr>)"
    using b by (simp add: lookup_authenticate_self)
  have other: "fmlookup (index_b ?t) x = fmlookup (index_b s) x" if "x \<noteq> sid" for x
    using that free by (simp add: lookup_authenticate_other option.map_ident)
  have "is_clean (self_check ?t)"
    unfolding is_clean_self_check_iff
  proof (intro conjI allI impI)
    fix u d x assume "route ?t u d = Some x"
    then have "x = sid \<or> route s u d = Some x" by (auto simp: route_authenticate split: if_splits)
    then consider "x = sid" | "x \<noteq> sid" "route s u d = Some x" by blast
    then show "\<exists>e. fmlookup (index_b ?t) x = Some e \<and> live_entry e"
    proof cases
      case 1
      with self b show ?thesis by (simp add: live_entry_def)
    next
      case 2
      with other [OF 2(1)] inv_live [OF inv 2(2)] show ?thesis by (auto simp: live_entry_def)
    qed
  next
    fix x e u d assume e: "fmlookup (index_b ?t) x = Some e" "se_state e = Authenticated"
      "se_user_id e = Some u" "se_device_id e = Some d"
    show "route ?t u d = Some (se_session_id e)"
    proof (cases "x = sid")
      case True
      with e self wf_entryD(1) [OF inv_wf [OF inv] b(1)] show ?thesis by (auto simp: route_authenticate)
    next
      case False
      with e have e': "fmlookup (index_b s) x = Some e" by (simp add: other)
      with e inv_wf [OF inv] have "route s u d = Some x" by (metis option.inject wf_authenticatedE)
      with free wf_entryD(1) [OF inv_wf [OF inv] e'] show ?thesis by (auto simp: route_authenticate)
    qed
  qed
  moreover have "(sid, local_node_id s) \<in> set (live_sessions ?t u1)"
    using rt self b by (auto simp: set_live_sessions live_entry_def)
  ultimately show ?thesis using self by force
qed

theorem reauthentication_keeps_old_route_witness:
  "10 \<in> set (map fst (live_sessions (fst (authenticate 2 10 8 ''b''
      (fst (authenticate 1 10 7 ''a'' (new_with_node_id ''n''))))) 7))"
proof -
  let ?s = "fst (authenticate 1 10 7 ''a'' (new_with_node_id ''n''))"
  have "may_authenticate (new_with_node_id ''n'') 10 7 ''a''" by (simp add: conn_eval)
  then have inv: "conn_inv ?s" by (rule inv_authenticate [OF inv_new])
  have r: "route ?s 7 ''a'' = Some 10" "route ?s 8 ''b'' = None" by (simp_all add: conn_eval)
  show ?thesis using reauthentication_keeps_old_route [OF inv r(1) _ r(2), of 2] by simp
qed

end
