(* ===== verification/ConnectionRaces.thy ===== *)
theory ConnectionRaces
  imports ConnectionDelivery
begin

text \<open>
  The connection manager under concurrency. Its operations run on several threads and hold a lock
  of one index at a time, so the critical sections of different calls interleave. The step relation
  below schedules the critical sections of \<open>authenticate\<close>, \<open>unregister_connection\<close>,
  \<open>disconnect_device\<close>, \<open>force_close_session\<close> and the watchdog one by one; a call that is
  between two of its critical sections is a pending item of the world.
\<close>

section \<open>Critical sections and pending calls\<close>

definition kick_clean :: "user_id \<Rightarrow> device_id \<Rightarrow> session_id \<Rightarrow> connection_manager \<Rightarrow> connection_manager" where
  "kick_clean u d sid s =
     (if route s u d = Some sid
      then (let s1 = remove_route u d s in s1\<lparr>total_authenticated := total_authenticated s1 - 1\<rparr>)
      else s)"

definition watchdog_close :: "session_id \<Rightarrow> connection_manager \<Rightarrow> connection_manager" where
  "watchdog_close sid s =
     (case fmlookup (index_b s) sid of
        None \<Rightarrow> s
      | Some e \<Rightarrow>
          if se_state e = Connecting
          then s\<lparr>index_b := fmupd sid (e\<lparr>se_state := Closing\<rparr>) (index_b s)\<rparr> else s)"

datatype pending =
    PSwitch session_id user_id device_id
  | PClean session_id session_entry
  | PKickMark user_id device_id session_id
  | PKickClean user_id device_id session_id

record world =
  cm :: connection_manager
  pend :: "pending list"

text \<open>
  \<open>ident\<close> is the identity a session authenticates under: the transport never reuses a session
  id, and the sessions considered here do not change accounts.
\<close>

inductive wstep :: "(session_id \<Rightarrow> user_id \<times> device_id) \<Rightarrow> world \<Rightarrow> world \<Rightarrow> bool"
  for ident :: "session_id \<Rightarrow> user_id \<times> device_id" where
  connect: "wstep ident w (w\<lparr>cm := register_connecting now sid (cm w)\<rparr>)"
| bind: "ident sid = (u, d) \<Longrightarrow>
    wstep ident w (w\<lparr>cm := authenticate_bind now sid u d (cm w), pend := PSwitch sid u d # pend w\<rparr>)"
| switch: "PSwitch sid u d \<in> set (pend w) \<Longrightarrow>
    wstep ident w (w\<lparr>cm := fst (authenticate_switch sid u d (cm w)), pend := remove1 (PSwitch sid u d) (pend w)\<rparr>)"
| remove: "unregister_remove sid (cm w) = (s, Some e) \<Longrightarrow>
    wstep ident w (w\<lparr>cm := s, pend := PClean sid e # pend w\<rparr>)"
| clean: "PClean sid e \<in> set (pend w) \<Longrightarrow>
    wstep ident w (w\<lparr>cm := fst (unregister_clean sid e (cm w)), pend := remove1 (PClean sid e) (pend w)\<rparr>)"
| kick: "route (cm w) u d = Some sid \<Longrightarrow> wstep ident w (w\<lparr>pend := PKickMark u d sid # pend w\<rparr>)"
| kick_mark: "PKickMark u d sid \<in> set (pend w) \<Longrightarrow>
    wstep ident w (w\<lparr>cm := mark_closing sid (cm w),
                     pend := PKickClean u d sid # remove1 (PKickMark u d sid) (pend w)\<rparr>)"
| kick_clean: "PKickClean u d sid \<in> set (pend w) \<Longrightarrow>
    wstep ident w (w\<lparr>cm := kick_clean u d sid (cm w), pend := remove1 (PKickClean u d sid) (pend w)\<rparr>)"
| force: "wstep ident w (w\<lparr>cm := force_close_session sid (cm w)\<rparr>)"
| watchdog: "wstep ident w (w\<lparr>cm := watchdog_close sid (cm w)\<rparr>)"

inductive_cases wstepE: "wstep ident w w'"

inductive reachable :: "(session_id \<Rightarrow> user_id \<times> device_id) \<Rightarrow> string \<Rightarrow> world \<Rightarrow> bool"
  for ident :: "session_id \<Rightarrow> user_id \<times> device_id" and node :: string where
  start: "reachable ident node \<lparr>cm = new_with_node_id node, pend = []\<rparr>"
| step: "reachable ident node w \<Longrightarrow> wstep ident w w' \<Longrightarrow> reachable ident node w'"

text \<open>The calls are their critical sections run back to back.\<close>

lemma disconnect_device_sections:
  "disconnect_device u d s =
     (case route s u d of None \<Rightarrow> s | Some sid \<Rightarrow> kick_clean u d sid (mark_closing sid s))"
  by (simp add: disconnect_device_def kick_clean_def split: option.split)

lemma close_stale_sections: "fst (close_stale tr sids s n) = fold watchdog_close sids s"
  by (induction sids arbitrary: s n) (simp_all add: watchdog_close_def split: option.split)

section \<open>Safety under every interleaving\<close>

definition ident_ok :: "(session_id \<Rightarrow> user_id \<times> device_id) \<Rightarrow> connection_manager \<Rightarrow> bool" where
  "ident_ok ident s \<longleftrightarrow>
     (\<forall>u d sid. route s u d = Some sid \<longrightarrow> ident sid = (u, d)) \<and>
     (\<forall>sid e u. fmlookup (index_b s) sid = Some e \<longrightarrow> se_user_id e = Some u \<longrightarrow> u = fst (ident sid)) \<and>
     (\<forall>sid e. fmlookup (index_b s) sid = Some e \<longrightarrow> se_state e = Authenticated \<longrightarrow> se_user_id e \<noteq> None)"

fun pending_ok :: "(session_id \<Rightarrow> user_id \<times> device_id) \<Rightarrow> pending \<Rightarrow> bool" where
  "pending_ok ident (PSwitch sid u d) \<longleftrightarrow> ident sid = (u, d)"
| "pending_ok ident _ \<longleftrightarrow> True"

definition world_ok :: "(session_id \<Rightarrow> user_id \<times> device_id) \<Rightarrow> world \<Rightarrow> bool" where
  "world_ok ident w \<longleftrightarrow> ident_ok ident (cm w) \<and> list_all (pending_ok ident) (pend w)"

lemma ident_ok_routes_shrink:
  assumes "ident_ok ident s"
    and "\<And>u d sid. route t u d = Some sid \<Longrightarrow> route s u d = Some sid"
    and "\<And>sid e. fmlookup (index_b t) sid = Some e \<Longrightarrow>
           \<exists>e'. fmlookup (index_b s) sid = Some e' \<and> se_user_id e' = se_user_id e \<and>
                (se_state e = Authenticated \<longrightarrow> se_state e' = Authenticated)"
  shows "ident_ok ident t"
  unfolding ident_ok_def
proof (intro conjI allI impI)
  fix u d sid assume "route t u d = Some sid"
  then show "ident sid = (u, d)" using assms(1) assms(2) by (simp add: ident_ok_def)
next
  fix sid e u assume e: "fmlookup (index_b t) sid = Some e" "se_user_id e = Some u"
  from assms(3) [OF e(1)] e(2) assms(1) show "u = fst (ident sid)" by (auto simp: ident_ok_def)
next
  fix sid e assume e: "fmlookup (index_b t) sid = Some e" "se_state e = Authenticated"
  from assms(3) [OF e(1)] e(2) obtain e' where "fmlookup (index_b s) sid = Some e'"
    "se_user_id e' = se_user_id e" "se_state e' = Authenticated" by blast
  moreover from this assms(1) have "se_user_id e' \<noteq> None" unfolding ident_ok_def by blast
  ultimately show "se_user_id e \<noteq> None" by simp
qed

lemma route_switch:
  "route (fst (authenticate_switch sid u d s)) u' d' = (if u' = u \<and> d' = d then Some sid else route s u' d')"
proof -
  have "index_a (fst (authenticate_switch sid u d s)) =
      fmupd u (fmupd d sid (fm_get_or fmempty u (index_a s))) (index_a s)"
    by (auto simp: authenticate_switch_def Let_def split: option.splits)
  then show ?thesis
    using route_insert [where s = s and u = u and d = d and u' = u' and d' = d'] by (simp add: route_def)
qed

lemma lookup_switch:
  "fmlookup (index_b (fst (authenticate_switch sid u d s))) x =
     map_option (\<lambda>b. if route s u d = Some x \<and> x \<noteq> sid
       then b\<lparr>se_state := (if se_state b = Authenticated then Replaced else se_state b),
              se_superseded_by := Some sid\<rparr> else b) (fmlookup (index_b s) x)"
  by (cases "fmlookup (index_b s) x")
     (auto simp: authenticate_switch_def Let_def route_via_get_or split: option.splits)

lemma ident_ok_connect: "ident_ok ident s \<Longrightarrow> ident_ok ident (register_connecting now sid s)"
  by (auto simp: ident_ok_def register_connecting_def connecting_entry_def split: option.splits if_splits)

lemma ident_ok_bind: "ident_ok ident s \<Longrightarrow> ident sid = (u, d) \<Longrightarrow> ident_ok ident (authenticate_bind now sid u d s)"
  by (auto simp: ident_ok_def authenticate_bind_def Let_def split: if_splits)

lemma ident_ok_switch:
  assumes ok: "ident_ok ident s" and i: "ident sid = (u, d)"
  shows "ident_ok ident (fst (authenticate_switch sid u d s))"
  unfolding ident_ok_def
proof (intro conjI allI impI)
  fix u' d' x assume "route (fst (authenticate_switch sid u d s)) u' d' = Some x"
  then show "ident x = (u', d')" using ok i by (auto simp: route_switch ident_ok_def split: if_splits)
next
  fix x e u' assume "fmlookup (index_b (fst (authenticate_switch sid u d s))) x = Some e" "se_user_id e = Some u'"
  then show "u' = fst (ident x)" using ok by (auto simp: lookup_switch ident_ok_def split: if_splits)
next
  fix x e assume "fmlookup (index_b (fst (authenticate_switch sid u d s))) x = Some e" "se_state e = Authenticated"
  then show "se_user_id e \<noteq> None" using ok by (auto simp: lookup_switch ident_ok_def split: if_splits)
qed

lemma ident_ok_mark_closing: "ident_ok ident s \<Longrightarrow> ident_ok ident (mark_closing sid s)"
  by (erule ident_ok_routes_shrink) (auto split: if_splits)

lemma ident_ok_kick_clean: "ident_ok ident s \<Longrightarrow> ident_ok ident (kick_clean u d sid s)"
  by (erule ident_ok_routes_shrink) (auto simp: kick_clean_def Let_def split: if_splits)

lemma ident_ok_remove: "ident_ok ident s \<Longrightarrow> unregister_remove sid s = (t, x) \<Longrightarrow> ident_ok ident t"
  by (erule ident_ok_routes_shrink) (auto simp: unregister_remove_def split: if_splits)

lemma ident_ok_clean: "ident_ok ident s \<Longrightarrow> ident_ok ident (fst (unregister_clean sid e s))"
  by (erule ident_ok_routes_shrink)
     (auto simp: unregister_clean_def Let_def split: if_splits option.splits)

lemma ident_ok_watchdog: "ident_ok ident s \<Longrightarrow> ident_ok ident (watchdog_close sid s)"
  by (erule ident_ok_routes_shrink) (auto simp: watchdog_close_def split: if_splits option.splits)

lemmas ident_ok_sections = ident_ok_connect ident_ok_bind ident_ok_switch ident_ok_mark_closing
  ident_ok_kick_clean ident_ok_remove ident_ok_clean ident_ok_watchdog

lemma list_all_remove1: "list_all P xs \<Longrightarrow> list_all P (remove1 x xs)"
  by (auto simp: list_all_iff dest: notin_set_remove1)

lemma world_ok_step: "wstep ident w w' \<Longrightarrow> world_ok ident w \<Longrightarrow> world_ok ident w'"
proof (induction rule: wstep.induct)
  case (switch sid u d w)
  then have "pending_ok ident (PSwitch sid u d)" by (auto simp: world_ok_def list_all_iff)
  with switch show ?case by (simp add: world_ok_def ident_ok_switch list_all_remove1)
next
  case (remove sid w s e)
  then show ?case by (auto simp: world_ok_def intro: ident_ok_remove)
qed (simp_all add: world_ok_def force_close_session_def list_all_remove1 ident_ok_sections)

lemma reachable_ok: "reachable ident node w \<Longrightarrow> world_ok ident w"
proof (induction rule: reachable.induct)
  case start
  show ?case by (simp add: world_ok_def ident_ok_def new_with_node_id_def route_def)
qed (rule world_ok_step)


lemma race_connected:
  "reachable (\<lambda>sid. (7, ''a'')) ''n''
     \<lparr>cm = authenticate_bind 1 10 7 ''a'' (new_with_node_id ''n''), pend = [PSwitch 10 7 ''a'']\<rparr>"
  using reachable.step [OF reachable.start bind] by simp



end
