(* ===== verification/SubscribeManager.thy ===== *)
theory SubscribeManager
  imports Prelude
begin

text \<open>
  Channel event subscriptions, \<open>infra/subscribe_manager.rs\<close>: two indexes, channel to sessions and
  session to channels, written under one lock. The model has both indexes as the code keeps them;
  the specification is one relation between sessions and channels, and the operations are shown to
  implement the obvious operations on it. The interface a client relies on is a locale.
\<close>

section \<open>The manager\<close>

record subscribe_manager =
  channel_routes :: "(channel_id, session_id list) fmap"
  session_channels :: "(session_id, channel_id fset) fmap"
  max_subscriptions_per_session :: nat
  max_channel_subscribers_online :: nat

definition MAX_CHANNEL_SUBSCRIBERS_ONLINE :: nat where
  "MAX_CHANNEL_SUBSCRIBERS_ONLINE = 20000"

definition MAX_SUBSCRIPTIONS_PER_SESSION :: nat where
  "MAX_SUBSCRIPTIONS_PER_SESSION = 32"

definition new_with_limits :: "nat \<Rightarrow> nat \<Rightarrow> subscribe_manager" where
  "new_with_limits per_session per_channel =
     \<lparr>channel_routes = fmempty, session_channels = fmempty,
      max_subscriptions_per_session = max per_session 1,
      max_channel_subscribers_online = max per_channel 1\<rparr>"

definition new_subscribe_manager :: subscribe_manager where
  "new_subscribe_manager = new_with_limits MAX_SUBSCRIPTIONS_PER_SESSION MAX_CHANNEL_SUBSCRIBERS_ONLINE"

fun unique_from :: "session_id fset \<Rightarrow> session_id list \<Rightarrow> session_id list" where
  "unique_from seen [] = []"
| "unique_from seen (x # xs) =
     (if x |\<in>| seen then unique_from seen xs else x # unique_from (finsert x seen) xs)"

definition unique_sessions :: "session_id list \<Rightarrow> session_id list" where
  "unique_sessions xs = unique_from {||} xs"

definition unique_session_count :: "session_id list \<Rightarrow> nat" where
  "unique_session_count xs = length (unique_from {||} xs)"

definition subscribe ::
  "session_id \<Rightarrow> channel_id \<Rightarrow> subscribe_manager \<Rightarrow> subscribe_manager \<times> (unit, string) result" where
  "subscribe sid c s =
     (let channels = fmlookup (session_channels s) sid
      in if (case channels of Some cs \<Rightarrow> c |\<in>| cs | None \<Rightarrow> False) then (s, Ok ())
         else if (case channels of
                    Some cs \<Rightarrow> max_subscriptions_per_session s \<le> fcard cs
                  | None \<Rightarrow> False) then (s, Err ''too many subscriptions'')
         else
           let current_count = (case fmlookup (channel_routes s) c of
                                  Some xs \<Rightarrow> unique_session_count xs | None \<Rightarrow> 0)
           in if max_channel_subscribers_online s \<le> current_count then (s, Err ''channel is full'')
              else
                let xs = fm_get_or [] c (channel_routes s);
                    xs' = (if sid \<in> set xs then xs else xs @ [sid])
                in (s\<lparr>channel_routes := fmupd c xs' (channel_routes s),
                      session_channels :=
                        fmupd sid (finsert c (fm_get_or {||} sid (session_channels s))) (session_channels s)\<rparr>,
                    Ok ()))"

definition unsubscribe_from_channel ::
  "session_id \<Rightarrow> channel_id \<Rightarrow> subscribe_manager \<Rightarrow> subscribe_manager" where
  "unsubscribe_from_channel sid c s =
     (case fmlookup (channel_routes s) c of
        None \<Rightarrow> s
      | Some xs \<Rightarrow>
          (let xs' = filter (\<lambda>x. x \<noteq> sid) xs
           in if xs' = [] then s\<lparr>channel_routes := fmdrop c (channel_routes s)\<rparr>
              else s\<lparr>channel_routes := fmupd c xs' (channel_routes s)\<rparr>))"

definition unsubscribe ::
  "session_id \<Rightarrow> channel_id \<Rightarrow> subscribe_manager \<Rightarrow> subscribe_manager \<times> bool" where
  "unsubscribe sid c s =
     (case fmlookup (session_channels s) sid of
        None \<Rightarrow> (s, False)
      | Some cs \<Rightarrow>
          (let removed = (c |\<in>| cs);
               cs' = cs |-| {|c|};
               s1 = (if cs' = {||} then s\<lparr>session_channels := fmdrop sid (session_channels s)\<rparr>
                     else s\<lparr>session_channels := fmupd sid cs' (session_channels s)\<rparr>)
           in (if removed then unsubscribe_from_channel sid c s1 else s1, removed)))"

definition on_session_disconnect ::
  "session_id \<Rightarrow> subscribe_manager \<Rightarrow> subscribe_manager \<times> channel_id list" where
  "on_session_disconnect sid s =
     (let cs = sorted_list_of_fset (fm_get_or {||} sid (session_channels s));
          s1 = s\<lparr>session_channels := fmdrop sid (session_channels s)\<rparr>
      in (fold (unsubscribe_from_channel sid) cs s1, cs))"

definition get_channel_sessions :: "subscribe_manager \<Rightarrow> channel_id \<Rightarrow> session_id list" where
  "get_channel_sessions s c =
     (case fmlookup (channel_routes s) c of Some xs \<Rightarrow> unique_sessions xs | None \<Rightarrow> [])"

definition get_session_channels :: "subscribe_manager \<Rightarrow> session_id \<Rightarrow> channel_id fset" where
  "get_session_channels s sid = fm_get_or {||} sid (session_channels s)"

definition get_channel_online_count :: "subscribe_manager \<Rightarrow> channel_id \<Rightarrow> nat" where
  "get_channel_online_count s c =
     (case fmlookup (channel_routes s) c of Some xs \<Rightarrow> unique_session_count xs | None \<Rightarrow> 0)"

definition get_channel_count :: "subscribe_manager \<Rightarrow> nat" where
  "get_channel_count s = fm_len (channel_routes s)"

definition get_total_session_count :: "subscribe_manager \<Rightarrow> nat" where
  "get_total_session_count s = fm_len (session_channels s)"

definition get_all_channels :: "subscribe_manager \<Rightarrow> (channel_id \<times> nat) list" where
  "get_all_channels s = map (\<lambda>(c, xs). (c, unique_session_count xs)) (fm_entries (channel_routes s))"

section \<open>Specification and invariant\<close>

definition subscriptions :: "subscribe_manager \<Rightarrow> (session_id \<times> channel_id) set" where
  "subscriptions s = {(sid, c). c |\<in>| get_session_channels s sid}"

definition routes_of :: "subscribe_manager \<Rightarrow> channel_id \<Rightarrow> session_id list" where
  "routes_of s c = fm_get_or [] c (channel_routes s)"

definition sub_inv :: "subscribe_manager \<Rightarrow> bool" where
  "sub_inv s \<longleftrightarrow>
     1 \<le> max_subscriptions_per_session s \<and> 1 \<le> max_channel_subscribers_online s \<and>
     (\<forall>c sid. sid \<in> set (routes_of s c) \<longleftrightarrow> (sid, c) \<in> subscriptions s) \<and>
     (\<forall>c. distinct (routes_of s c) \<and> length (routes_of s c) \<le> max_channel_subscribers_online s) \<and>
     (\<forall>sid. fcard (get_session_channels s sid) \<le> max_subscriptions_per_session s) \<and>
     (\<forall>c. fmlookup (channel_routes s) c \<noteq> Some []) \<and>
     (\<forall>sid. fmlookup (session_channels s) sid \<noteq> Some {||})"

lemma unique_from_distinct:
  "distinct xs \<Longrightarrow> set xs \<inter> fset seen = {} \<Longrightarrow> unique_from seen xs = xs"
  by (induction xs arbitrary: seen) auto

lemma set_unique_from: "set (unique_from seen xs) = set xs - fset seen"
  by (induction xs arbitrary: seen) auto

lemma distinct_unique_from: "distinct (unique_from seen xs)"
  by (induction xs arbitrary: seen) (auto simp: set_unique_from)

lemma unique_sessions_set: "set (unique_sessions xs) = set xs" "distinct (unique_sessions xs)"
  by (simp_all add: unique_sessions_def set_unique_from distinct_unique_from)

lemma online_count_routes:
  "distinct (routes_of s c) \<Longrightarrow> get_channel_online_count s c = length (routes_of s c)"
  by (auto simp: get_channel_online_count_def routes_of_def unique_session_count_def
        unique_from_distinct split: option.splits)

lemma sub_frames [simp]:
  "get_session_channels (s\<lparr>channel_routes := r\<rparr>) = get_session_channels s"
  "subscriptions (s\<lparr>channel_routes := r\<rparr>) = subscriptions s"
  "routes_of (s\<lparr>session_channels := m\<rparr>) = routes_of s"
  by (simp_all add: fun_eq_iff get_session_channels_def subscriptions_def routes_of_def)

lemma unsubscribe_from_channel_frame [simp]:
  "session_channels (unsubscribe_from_channel sid c s) = session_channels s"
  "max_subscriptions_per_session (unsubscribe_from_channel sid c s) = max_subscriptions_per_session s"
  "max_channel_subscribers_online (unsubscribe_from_channel sid c s) = max_channel_subscribers_online s"
  by (simp_all add: unsubscribe_from_channel_def Let_def split: option.splits)

lemma routes_unsubscribe_from_channel:
  "routes_of (unsubscribe_from_channel sid c s) c' =
     (if c' = c then filter (\<lambda>x. x \<noteq> sid) (routes_of s c) else routes_of s c')"
  by (auto simp: unsubscribe_from_channel_def routes_of_def Let_def fm_get_or_def split: option.splits)

lemma no_empty_unsubscribe_from_channel:
  "(\<forall>c. fmlookup (channel_routes s) c \<noteq> Some []) \<Longrightarrow>
     fmlookup (channel_routes (unsubscribe_from_channel sid c s)) c' \<noteq> Some []"
  by (auto simp: unsubscribe_from_channel_def Let_def split: option.splits)

lemma unsubscribe_fold:
  fixes s :: subscribe_manager and sid :: session_id
  defines "f \<equiv> unsubscribe_from_channel sid"
  shows "session_channels (fold f cs s) = session_channels s"
    and "max_subscriptions_per_session (fold f cs s) = max_subscriptions_per_session s"
    and "max_channel_subscribers_online (fold f cs s) = max_channel_subscribers_online s"
    and "routes_of (fold f cs s) c = (if c \<in> set cs then filter (\<lambda>x. x \<noteq> sid) (routes_of s c) else routes_of s c)"
    and "\<forall>c. fmlookup (channel_routes s) c \<noteq> Some [] \<Longrightarrow> fmlookup (channel_routes (fold f cs s)) c \<noteq> Some []"
  unfolding f_def
  by (induction cs arbitrary: s) (auto simp: routes_unsubscribe_from_channel no_empty_unsubscribe_from_channel)

lemma subscriptions_upd_session:
  "subscriptions (s\<lparr>channel_routes := r, session_channels := fmupd sid cs (session_channels s)\<rparr>) =
     {(x, c). if x = sid then c |\<in>| cs else (x, c) \<in> subscriptions s}"
  by (auto simp: subscriptions_def get_session_channels_def split: if_splits)

lemma sub_inv_new: "sub_inv (new_with_limits a b)"
  by (simp add: sub_inv_def new_with_limits_def routes_of_def subscriptions_def get_session_channels_def
        fcard.rep_eq)

text \<open>\<open>subscribe\<close> in terms of the relation.\<close>

lemma in_subscriptions: "(sid, c) \<in> subscriptions s \<longleftrightarrow> c |\<in>| get_session_channels s sid"
  by (simp add: subscriptions_def)

lemma subscribe_alt:
  assumes inv: "sub_inv s"
  shows "subscribe sid c s =
    (if (sid, c) \<in> subscriptions s then (s, Ok ())
     else if max_subscriptions_per_session s \<le> fcard (get_session_channels s sid)
     then (s, Err ''too many subscriptions'')
     else if max_channel_subscribers_online s \<le> length (routes_of s c) then (s, Err ''channel is full'')
     else (s\<lparr>channel_routes := fmupd c (routes_of s c @ [sid]) (channel_routes s),
             session_channels := fmupd sid (finsert c (get_session_channels s sid)) (session_channels s)\<rparr>, Ok ()))"
proof -
  have "(case fmlookup (session_channels s) sid of Some cs \<Rightarrow> c |\<in>| cs | None \<Rightarrow> False) \<longleftrightarrow> (sid, c) \<in> subscriptions s"
    by (auto simp: in_subscriptions get_session_channels_def split: option.splits)
  moreover have "(case fmlookup (session_channels s) sid of Some cs \<Rightarrow> max_subscriptions_per_session s \<le> fcard cs | None \<Rightarrow> False)
      \<longleftrightarrow> max_subscriptions_per_session s \<le> fcard (get_session_channels s sid)"
    using inv by (auto simp: sub_inv_def get_session_channels_def fcard.rep_eq split: option.splits)
  moreover have "(case fmlookup (channel_routes s) c of Some xs \<Rightarrow> unique_session_count xs | None \<Rightarrow> 0) = length (routes_of s c)"
    using inv online_count_routes [of s c] by (simp add: sub_inv_def get_channel_online_count_def)
  moreover have "sid \<in> set (routes_of s c) \<longleftrightarrow> (sid, c) \<in> subscriptions s" using inv by (simp add: sub_inv_def)
  ultimately show ?thesis
    by (simp add: subscribe_def Let_def) (simp add: routes_of_def get_session_channels_def)
qed

lemma fcard_get_finsert: "c |\<notin>| cs \<Longrightarrow> fcard (finsert c cs) = Suc (fcard cs)"
  by (simp add: fcard_finsert_disjoint)

lemma sub_inv_subscribe: "sub_inv s \<Longrightarrow> sub_inv (fst (subscribe sid c s))"
  by (auto simp: subscribe_alt) (auto simp: sub_inv_def subscriptions_upd_session routes_of_def
        in_subscriptions get_session_channels_def fcard_get_finsert)

lemma subs_subscribe:
  "sub_inv s \<Longrightarrow> subscriptions (fst (subscribe sid c s)) =
     (if snd (subscribe sid c s) = Ok () then insert (sid, c) (subscriptions s) else subscriptions s)"
  by (auto simp: subscribe_alt subscriptions_upd_session in_subscriptions)

lemma unsubscribe_session_channels:
  "get_session_channels (fst (unsubscribe sid c s)) x =
     (if x = sid then get_session_channels s sid |-| {|c|} else get_session_channels s x)"
  by (auto simp: unsubscribe_def Let_def get_session_channels_def split: option.splits)

lemma unsubscribe_routes:
  "routes_of (fst (unsubscribe sid c s)) c' =
     (if c' = c \<and> (sid, c) \<in> subscriptions s then filter (\<lambda>x. x \<noteq> sid) (routes_of s c) else routes_of s c')"
  by (auto simp: unsubscribe_def Let_def in_subscriptions get_session_channels_def
        routes_unsubscribe_from_channel split: option.splits)

lemma subs_unsubscribe: "subscriptions (fst (unsubscribe sid c s)) = subscriptions s - {(sid, c)}"
  by (auto simp: subscriptions_def unsubscribe_session_channels split: if_splits)

lemma unsubscribe_answer: "snd (unsubscribe sid c s) \<longleftrightarrow> (sid, c) \<in> subscriptions s"
  by (auto simp: unsubscribe_def Let_def in_subscriptions get_session_channels_def split: option.splits)

lemma fcard_fminus_le: "fcard (cs |-| ds) \<le> fcard cs"
  by (simp add: fcard.rep_eq card_mono)

lemma unsubscribe_frame [simp]:
  "max_subscriptions_per_session (fst (unsubscribe sid c s)) = max_subscriptions_per_session s"
  "max_channel_subscribers_online (fst (unsubscribe sid c s)) = max_channel_subscribers_online s"
  by (simp_all add: unsubscribe_def Let_def split: option.splits)

lemma unsubscribe_no_empty:
  assumes "sub_inv s"
  shows "fmlookup (channel_routes (fst (unsubscribe sid c s))) c' \<noteq> Some []"
    and "fmlookup (session_channels (fst (unsubscribe sid c s))) x \<noteq> Some {||}"
  using assms by (auto simp: sub_inv_def unsubscribe_def Let_def no_empty_unsubscribe_from_channel
        split: option.splits)

lemma sub_inv_unsubscribe:
  assumes inv: "sub_inv s" shows "sub_inv (fst (unsubscribe sid c s))"
proof -
  have "fcard (get_session_channels s x |-| {|c|}) \<le> max_subscriptions_per_session s" for x
    using inv unfolding sub_inv_def by (blast intro: le_trans [OF fcard_fminus_le])
  moreover have "length (filter P (routes_of s c')) \<le> max_channel_subscribers_online s" for P c'
    using inv unfolding sub_inv_def by (blast intro: le_trans [OF length_filter_le])
  ultimately show ?thesis
    unfolding sub_inv_def
    using inv unsubscribe_no_empty [OF inv]
    by (auto simp: unsubscribe_routes unsubscribe_session_channels subs_unsubscribe sub_inv_def split: if_splits)
qed

lemma disconnect_session_channels:
  "get_session_channels (fst (on_session_disconnect sid s)) x =
     (if x = sid then {||} else get_session_channels s x)"
  by (simp add: on_session_disconnect_def Let_def get_session_channels_def unsubscribe_fold)

lemma subs_disconnect: "subscriptions (fst (on_session_disconnect sid s)) = subscriptions s - {sid} \<times> UNIV"
  by (auto simp: subscriptions_def disconnect_session_channels split: if_splits)

lemma disconnect_routes:
  assumes "sub_inv s"
  shows "routes_of (fst (on_session_disconnect sid s)) c = filter (\<lambda>x. x \<noteq> sid) (routes_of s c)"
proof -
  have "filter (\<lambda>x. x \<noteq> sid) (routes_of s c) = routes_of s c" if "c |\<notin>| get_session_channels s sid"
    using that assms by (auto simp: filter_id_conv sub_inv_def in_subscriptions)
  then show ?thesis
    by (simp add: on_session_disconnect_def Let_def unsubscribe_fold get_session_channels_def)
qed

lemma disconnect_answer: "set (snd (on_session_disconnect sid s)) = {c. (sid, c) \<in> subscriptions s}"
  by (simp add: on_session_disconnect_def Let_def in_subscriptions get_session_channels_def)

lemma disconnect_no_empty:
  assumes "sub_inv s"
  shows "fmlookup (channel_routes (fst (on_session_disconnect sid s))) c \<noteq> Some []"
    and "fmlookup (session_channels (fst (on_session_disconnect sid s))) x \<noteq> Some {||}"
  using assms by (auto simp: sub_inv_def on_session_disconnect_def Let_def unsubscribe_fold)

lemma sub_inv_disconnect:
  assumes inv: "sub_inv s" shows "sub_inv (fst (on_session_disconnect sid s))"
proof -
  have "max_subscriptions_per_session (fst (on_session_disconnect sid s)) = max_subscriptions_per_session s"
    "max_channel_subscribers_online (fst (on_session_disconnect sid s)) = max_channel_subscribers_online s"
    by (simp_all add: on_session_disconnect_def Let_def unsubscribe_fold)
  moreover have "length (filter P (routes_of s c')) \<le> max_channel_subscribers_online s" for P c'
    using inv unfolding sub_inv_def by (blast intro: le_trans [OF length_filter_le])
  ultimately show ?thesis
    unfolding sub_inv_def
    using inv disconnect_no_empty [OF inv]
    by (auto simp: disconnect_routes [OF inv] disconnect_session_channels subs_disconnect sub_inv_def
          fcard.rep_eq)
qed

section \<open>The interface\<close>

datatype sub_event = ESubscribe session_id channel_id | EUnsubscribe session_id channel_id | EDisconnect session_id

fun registry_step ::
  "(session_id \<Rightarrow> channel_id \<Rightarrow> 's \<Rightarrow> 's \<times> 'r) \<Rightarrow> (session_id \<Rightarrow> channel_id \<Rightarrow> 's \<Rightarrow> 's \<times> bool) \<Rightarrow>
   (session_id \<Rightarrow> 's \<Rightarrow> 's \<times> channel_id list) \<Rightarrow> 's \<Rightarrow> sub_event \<Rightarrow> 's" where
  "registry_step sub unsub disc s (ESubscribe sid c) = fst (sub sid c s)"
| "registry_step sub unsub disc s (EUnsubscribe sid c) = fst (unsub sid c s)"
| "registry_step sub unsub disc s (EDisconnect sid) = fst (disc sid s)"

text \<open>What the event fan-out relies on: the operations change the relation as their names say.\<close>

locale subscription_registry =
  fixes sub :: "session_id \<Rightarrow> channel_id \<Rightarrow> 's \<Rightarrow> 's \<times> (unit, string) result"
    and unsub :: "session_id \<Rightarrow> channel_id \<Rightarrow> 's \<Rightarrow> 's \<times> bool"
    and disc :: "session_id \<Rightarrow> 's \<Rightarrow> 's \<times> channel_id list"
    and subs :: "'s \<Rightarrow> (session_id \<times> channel_id) set"
    and inv :: "'s \<Rightarrow> bool"
  assumes sub_keeps: "inv s \<Longrightarrow> inv (fst (sub sid c s))"
    and unsub_keeps: "inv s \<Longrightarrow> inv (fst (unsub sid c s))"
    and disc_keeps: "inv s \<Longrightarrow> inv (fst (disc sid s))"
    and sub_subs: "inv s \<Longrightarrow> subs (fst (sub sid c s)) =
      (if snd (sub sid c s) = Ok () then insert (sid, c) (subs s) else subs s)"
    and unsub_subs: "inv s \<Longrightarrow> subs (fst (unsub sid c s)) = subs s - {(sid, c)}"
    and disc_subs: "inv s \<Longrightarrow> subs (fst (disc sid s)) = subs s - {sid} \<times> UNIV"
begin

lemma step_keeps: "inv s \<Longrightarrow> inv (registry_step sub unsub disc s e)"
  by (cases e) (simp_all add: sub_keeps unsub_keeps disc_keeps)

lemma step_subs:
  "inv s \<Longrightarrow> (sid, c) \<in> subs (registry_step sub unsub disc s e) \<Longrightarrow> e \<noteq> ESubscribe sid c \<Longrightarrow> (sid, c) \<in> subs s"
  by (cases e) (auto simp: sub_subs unsub_subs disc_subs split: if_splits)

lemma not_subscribed_until_asked:
  "inv s \<Longrightarrow> (sid, c) \<notin> subs s \<Longrightarrow> ESubscribe sid c \<notin> set es \<Longrightarrow>
     (sid, c) \<notin> subs (run (registry_step sub unsub disc) s es)"
proof (induction es arbitrary: s)
  case (Cons e es)
  then have "(sid, c) \<notin> subs (registry_step sub unsub disc s e)" using step_subs by auto
  with Cons step_keeps show ?case by simp
qed simp

lemma gone_after_disconnect:
  "inv s \<Longrightarrow> ESubscribe sid c \<notin> set es \<Longrightarrow>
     (sid, c) \<notin> subs (run (registry_step sub unsub disc) (fst (disc sid s)) es)"
  by (rule not_subscribed_until_asked) (simp_all add: disc_keeps disc_subs)

end

interpretation sm: subscription_registry subscribe unsubscribe on_session_disconnect subscriptions sub_inv
  by unfold_locales
     (simp_all add: sub_inv_subscribe sub_inv_unsubscribe sub_inv_disconnect subs_subscribe subs_unsubscribe
        subs_disconnect)

abbreviation sub_step :: "subscribe_manager \<Rightarrow> sub_event \<Rightarrow> subscribe_manager" where
  "sub_step \<equiv> registry_step subscribe unsubscribe on_session_disconnect"

interpretation sub_system: invariant_system "new_with_limits a b" sub_step "\<lambda>_ _. True" sub_inv
  by unfold_locales (auto intro: sub_inv_new sm.step_keeps)

section \<open>Properties\<close>


text \<open>
  C10. The manager implements the relation between sessions and channels. A subscription is added
  exactly when it is answered \<open>Ok\<close>, which for a new pair is exactly when both limits leave room;
  unsubscribing and disconnecting remove what they name and report what was there; the channel list
  and the session set read the relation back.
\<close>

theorem subscribe_refines_relation:
  assumes inv: "sub_inv s"
  shows "(snd (subscribe sid c s) = Ok () \<longleftrightarrow> (sid, c) \<in> subscriptions s \<or>
            card {c'. (sid, c') \<in> subscriptions s} < max_subscriptions_per_session s \<and>
            card {x. (x, c) \<in> subscriptions s} < max_channel_subscribers_online s) \<and>
         subscriptions (fst (subscribe sid c s)) =
           (if snd (subscribe sid c s) = Ok () then insert (sid, c) (subscriptions s) else subscriptions s) \<and>
         unsubscribe sid c s = (fst (unsubscribe sid c s), (sid, c) \<in> subscriptions s) \<and>
         subscriptions (fst (unsubscribe sid c s)) = subscriptions s - {(sid, c)} \<and>
         subscriptions (fst (on_session_disconnect sid s)) = subscriptions s - {sid} \<times> UNIV \<and>
         set (snd (on_session_disconnect sid s)) = {c'. (sid, c') \<in> subscriptions s} \<and>
         set (get_channel_sessions s c) = {x. (x, c) \<in> subscriptions s}"
proof -
  have cs: "{c'. (sid, c') \<in> subscriptions s} = fset (get_session_channels s sid)"
    by (auto simp: in_subscriptions)
  have xs: "{x. (x, c) \<in> subscriptions s} = set (routes_of s c)" using inv by (auto simp: sub_inv_def)
  have "card {x. (x, c) \<in> subscriptions s} = length (routes_of s c)"
    unfolding xs using inv by (simp add: sub_inv_def distinct_card)
  then have "snd (subscribe sid c s) = Ok () \<longleftrightarrow> (sid, c) \<in> subscriptions s \<or>
      card {c'. (sid, c') \<in> subscriptions s} < max_subscriptions_per_session s \<and>
      card {x. (x, c) \<in> subscriptions s} < max_channel_subscribers_online s"
    by (simp add: subscribe_alt [OF inv] cs fcard.rep_eq not_le)
  moreover have "set (get_channel_sessions s c) = set (routes_of s c)"
    by (simp add: get_channel_sessions_def routes_of_def fm_get_or_def unique_sessions_set split: option.split)
  ultimately show ?thesis
    using inv unsubscribe_answer [of sid c s] xs
    by (simp add: subs_subscribe subs_unsubscribe subs_disconnect disconnect_answer prod_eq_iff)
qed

theorem subscribe_refines_relation_witness:
  "snd (subscribe 1 100 (new_with_limits 2 1)) = Ok () \<and>
   snd (subscribe 2 100 (fst (subscribe 1 100 (new_with_limits 2 1)))) \<noteq> Ok ()"
proof -
  let ?s = "fst (subscribe 1 100 (new_with_limits 2 1))"
  have e: "subscriptions (new_with_limits 2 1) = {}"
    by (simp add: subscriptions_def get_session_channels_def new_with_limits_def)
  have ok: "snd (subscribe 1 100 (new_with_limits 2 1)) = Ok ()"
    by (simp add: subscribe_def new_with_limits_def Let_def)
  then have subs: "subscriptions ?s = {(1, 100)}" using subs_subscribe [OF sub_inv_new, of 1 100 2 1] e by simp
  have "max_channel_subscribers_online ?s = 1"
    by (simp add: subscribe_def new_with_limits_def Let_def)
  then show ?thesis
    using ok subscribe_refines_relation [OF sub_inv_subscribe [OF sub_inv_new], of 2 100 1 100 2 1]
    by (simp add: subs del: One_nat_def)
qed

text \<open>
  C11. A session that disconnected is a target of no channel's events any more, whatever the other
  calls are, until it subscribes again.
\<close>

theorem disconnected_session_gets_no_events:
  assumes "sub_inv s" and "ESubscribe sid c \<notin> set es"
  shows "sid \<notin> set (get_channel_sessions (run sub_step (fst (on_session_disconnect sid s)) es) c)"
proof -
  let ?t = "run sub_step (fst (on_session_disconnect sid s)) es"
  have "sub_inv ?t"
    using sub_inv_disconnect [OF assms(1)]
    by (induction es rule: rev_induct) (simp_all add: run_append sm.step_keeps)
  then show ?thesis
    using sm.gone_after_disconnect [OF assms]
    by (simp add: get_channel_sessions_def sub_inv_def routes_of_def fm_get_or_def unique_sessions_set
          split: option.splits)
qed

theorem disconnected_session_gets_no_events_witness:
  "1 \<notin> set (get_channel_sessions (run sub_step (fst (on_session_disconnect 1
      (fst (subscribe 1 100 (new_with_limits 2 2))))) [ESubscribe 2 100, EUnsubscribe 1 100]) 100)"
  by (rule disconnected_session_gets_no_events [OF sub_inv_subscribe [OF sub_inv_new]]) simp

end
