(* ===== verification/Pts.thy ===== *)
theory Pts
  imports Prelude
begin

text \<open>
  \<open>model/pts.rs\<close>: the per-channel sequence numbers (pts) every synchronisation is based on, the
  sync state of a device, the per-user message index, and the in-memory unread counters. The atomic
  counters are \<open>u64\<close> and \<open>fetch_add\<close> wraps, as in the source.
\<close>

section \<open>The generator\<close>

record pts_generator =
  pg_counters :: "(channel_id, u64) fmap"

definition new_pts_generator :: pts_generator where
  "new_pts_generator = \<lparr>pg_counters = fmempty\<rparr>"

definition next_pts :: "channel_id \<Rightarrow> pts_generator \<Rightarrow> pts_generator \<times> u64" where
  "next_pts c g =
     (let old = fm_get_or 0 c (pg_counters g)
      in (g\<lparr>pg_counters := fmupd c (old + 1) (pg_counters g)\<rparr>, old + 1))"

definition allocate_range :: "channel_id \<Rightarrow> u64 \<Rightarrow> pts_generator \<Rightarrow> pts_generator \<times> u64" where
  "allocate_range c count g =
     (if count = 0 then (g, 0)
      else let old = fm_get_or 0 c (pg_counters g)
           in (g\<lparr>pg_counters := fmupd c (old + count) (pg_counters g)\<rparr>, old + 1))"

definition current_pts :: "channel_id \<Rightarrow> pts_generator \<Rightarrow> u64" where
  "current_pts c g = fm_get_or 0 c (pg_counters g)"

definition set_pts :: "channel_id \<Rightarrow> u64 \<Rightarrow> pts_generator \<Rightarrow> pts_generator" where
  "set_pts c pts g = g\<lparr>pg_counters := fmupd c pts (pg_counters g)\<rparr>"

definition init_from_db :: "(channel_id, u64) fmap \<Rightarrow> pts_generator \<Rightarrow> pts_generator" where
  "init_from_db m g =
     g\<lparr>pg_counters := fold (\<lambda>(c, pts). fmupd c pts) (fm_entries m) (pg_counters g)\<rparr>"

section \<open>Device sync state\<close>

record device_sync_state =
  ds_user_id :: string
  ds_device_id :: string
  ds_local_pts :: u64
  ds_server_pts :: u64
  ds_gap :: u64
  ds_last_sync_time :: time
  ds_last_online_time :: time

definition new_device_sync_state :: "time \<Rightarrow> string \<Rightarrow> string \<Rightarrow> u64 \<Rightarrow> device_sync_state" where
  "new_device_sync_state now u d local_pts =
     \<lparr>ds_user_id = u, ds_device_id = d, ds_local_pts = local_pts, ds_server_pts = 0, ds_gap = 0,
      ds_last_sync_time = now, ds_last_online_time = now\<rparr>"

definition update_sync_state :: "time \<Rightarrow> u64 \<Rightarrow> device_sync_state \<Rightarrow> device_sync_state" where
  "update_sync_state now server_pts st =
     st\<lparr>ds_server_pts := server_pts, ds_gap := saturating_sub server_pts (ds_local_pts st),
        ds_last_sync_time := now\<rparr>"

definition calculate_gap :: "device_sync_state \<Rightarrow> u64" where
  "calculate_gap st = saturating_sub (ds_server_pts st) (ds_local_pts st)"

section \<open>The message index of a user\<close>

type_synonym user_message_index = "(user_id, (u64, message_id) fmap) fmap"

definition add_message_index :: "user_id \<Rightarrow> u64 \<Rightarrow> message_id \<Rightarrow> user_message_index \<Rightarrow> user_message_index" where
  "add_message_index u pts mid ix = fmupd u (fmupd pts mid (fm_get_or fmempty u ix)) ix"

definition pts_range :: "u64 \<Rightarrow> u64 \<Rightarrow> u64 list" where
  "pts_range a b = map of_nat [unat a ..< Suc (unat b)]"

definition get_message_ids :: "user_id \<Rightarrow> u64 \<Rightarrow> u64 \<Rightarrow> user_message_index \<Rightarrow> message_id list" where
  "get_message_ids u from_pts to_pts ix =
     (case fmlookup ix u of
        Some m \<Rightarrow> List.map_filter (fmlookup m) (pts_range from_pts to_pts)
      | None \<Rightarrow> [])"

definition get_message_ids_above :: "user_id \<Rightarrow> u64 \<Rightarrow> user_message_index \<Rightarrow> message_id list" where
  "get_message_ids_above u min_pts ix =
     (case fmlookup ix u of
        Some m \<Rightarrow> map snd (filter (\<lambda>(pts, _). min_pts < pts) (fm_entries m))
      | None \<Rightarrow> [])"

definition get_message_ids_with_pts_above ::
  "user_id \<Rightarrow> u64 \<Rightarrow> user_message_index \<Rightarrow> (message_id, u64) fmap" where
  "get_message_ids_with_pts_above u min_pts ix =
     (case fmlookup ix u of
        Some m \<Rightarrow> fold (\<lambda>(pts, mid) acc. if min_pts < pts then fmupd mid pts acc else acc) (fm_entries m) fmempty
      | None \<Rightarrow> fmempty)"

definition cleanup_index :: "user_id \<Rightarrow> nat \<Rightarrow> user_message_index \<Rightarrow> user_message_index" where
  "cleanup_index u keep_latest ix =
     (case fmlookup ix u of
        None \<Rightarrow> ix
      | Some m \<Rightarrow>
          if keep_latest < fm_len m
          then let pts_list = sorted_list_of_fset (fmdom m);
                   remove_count = length pts_list - keep_latest
               in fmupd u (fold fmdrop (take remove_count pts_list) m) ix
          else ix)"

section \<open>Unread counters\<close>

type_synonym unread_counter = "(user_id, (channel_id, u64) fmap) fmap"

definition increment_unread :: "user_id \<Rightarrow> channel_id \<Rightarrow> u64 \<Rightarrow> unread_counter \<Rightarrow> unread_counter" where
  "increment_unread u c count s =
     (let m = fm_get_or fmempty u s in fmupd u (fmupd c (fm_get_or 0 c m + count) m) s)"

definition get_unread :: "user_id \<Rightarrow> unread_counter \<Rightarrow> (channel_id, u64) fmap" where
  "get_unread u s = fm_get_or fmempty u s"

definition clear_unread :: "user_id \<Rightarrow> unread_counter \<Rightarrow> unread_counter" where
  "clear_unread u s = fmdrop u s"

definition clear_channel_unread :: "user_id \<Rightarrow> channel_id \<Rightarrow> unread_counter \<Rightarrow> unread_counter" where
  "clear_channel_unread u c s =
     (case fmlookup s u of None \<Rightarrow> s | Some m \<Rightarrow> fmupd u (fmdrop c m) s)"

section \<open>Allocation\<close>

datatype pts_request = PNext channel_id | PRange channel_id u64

fun request_channel :: "pts_request \<Rightarrow> channel_id" where
  "request_channel (PNext c) = c"
| "request_channel (PRange c n) = c"

fun request_count :: "pts_request \<Rightarrow> nat" where
  "request_count (PNext c) = 1"
| "request_count (PRange c n) = unat n"

fun serve :: "pts_request \<Rightarrow> pts_generator \<Rightarrow> pts_generator \<times> u64" where
  "serve (PNext c) g = next_pts c g"
| "serve (PRange c n) g = allocate_range c n g"

text \<open>
  The numbers a request hands out are the returned one and its successors, as many as asked for.
  \<open>granted c g rs\<close> lists, in order, the numbers the requests \<open>rs\<close> obtain for channel
  \<open>c\<close>, whichever channels the requests in between are for.
\<close>

fun granted :: "channel_id \<Rightarrow> pts_generator \<Rightarrow> pts_request list \<Rightarrow> nat list" where
  "granted c g [] = []"
| "granted c g (r # rs) =
     (let (g', first) = serve r g
      in (if request_channel r = c then [unat first ..< unat first + request_count r] else []) @ granted c g' rs)"

fun asked :: "channel_id \<Rightarrow> pts_request list \<Rightarrow> nat" where
  "asked c [] = 0"
| "asked c (r # rs) = (if request_channel r = c then request_count r else 0) + asked c rs"

lemma current_serve_other: "request_channel r \<noteq> c \<Longrightarrow> current_pts c (fst (serve r g)) = current_pts c g"
  by (cases r) (auto simp: current_pts_def next_pts_def allocate_range_def Let_def)

lemma current_serve_same:
  "request_channel r = c \<Longrightarrow> unat (current_pts c g) + request_count r < 2 ^ 64 \<Longrightarrow>
     unat (current_pts c (fst (serve r g))) = unat (current_pts c g) + request_count r"
  by (cases r) (auto simp: current_pts_def next_pts_def allocate_range_def Let_def unat_word_ariths)

lemma serve_first:
  "request_channel r = c \<Longrightarrow> unat (current_pts c g) + request_count r < 2 ^ 64 \<Longrightarrow> request_count r \<noteq> 0 \<Longrightarrow>
     unat (snd (serve r g)) = Suc (unat (current_pts c g))"
proof (cases r)
  case (PRange c' n)
  assume a: "request_channel r = c" "unat (current_pts c g) + request_count r < 2 ^ 64" "request_count r \<noteq> 0"
  with PRange have "n \<noteq> 0" and "0 < unat n" by (auto simp: unat_gt_0)
  with a PRange show ?thesis
    by (auto simp: current_pts_def allocate_range_def Let_def unat_word_ariths)
qed (auto simp: current_pts_def next_pts_def Let_def unat_word_ariths)

text \<open>
  C12. The pts of a channel have no gap and no duplicate: any mix of single and range allocations,
  interleaved with allocations for other channels, hands out for a channel exactly the numbers that
  follow its current one, in order, as many as were asked for, as long as the 64-bit counter does
  not overflow. Afterwards the current number is the last one handed out.
\<close>

theorem pts_consecutive_per_channel:
  "unat (current_pts c g) + asked c rs < 2 ^ 64 \<Longrightarrow>
     granted c g rs = [Suc (unat (current_pts c g)) ..< Suc (unat (current_pts c g) + asked c rs)] \<and>
     unat (current_pts c (run (\<lambda>g r. fst (serve r g)) g rs)) = unat (current_pts c g) + asked c rs"
proof (induction rs arbitrary: g)
  case (Cons r rs)
  let ?g = "fst (serve r g)" and ?n = "unat (current_pts c g)"
  show ?case
  proof (cases "request_channel r = c")
    case False
    with Cons.IH [of ?g] Cons.prems show ?thesis
      by (simp add: current_serve_other case_prod_beta)
  next
    case True
    with Cons.prems have lt: "?n + request_count r < 2 ^ 64" by simp
    note cur = current_serve_same [OF True lt]
    have first: "[unat (snd (serve r g)) ..< unat (snd (serve r g)) + request_count r] =
        [Suc ?n ..< Suc (?n + request_count r)]"
      using serve_first [OF True lt] by (cases "request_count r = 0") simp_all
    have "granted c ?g rs = [Suc (?n + request_count r) ..< Suc (?n + request_count r + asked c rs)] \<and>
        unat (current_pts c (run (\<lambda>g r. fst (serve r g)) ?g rs)) = ?n + request_count r + asked c rs"
      using Cons.IH [of ?g] Cons.prems True by (simp add: cur)
    moreover have "[Suc ?n ..< Suc (?n + request_count r)] @
        [Suc (?n + request_count r) ..< Suc (?n + request_count r + asked c rs)] =
        [Suc ?n ..< Suc (?n + request_count r + asked c rs)]"
      using upt_add_eq_append [of "Suc ?n" "Suc (?n + request_count r)" "asked c rs"] by simp
    ultimately show ?thesis
      using True first by (simp add: case_prod_beta add.assoc)
  qed
qed simp

theorem pts_consecutive_per_channel_witness:
  "granted 5 new_pts_generator [PNext 5, PRange 6 10, PRange 5 3, PNext 5] = [1, 2, 3, 4, 5]"
  using pts_consecutive_per_channel [of 5 new_pts_generator "[PNext 5, PRange 6 10, PRange 5 3, PNext 5]"]
  by (simp add: current_pts_def new_pts_generator_def upt_rec)

section \<open>The index\<close>

definition indexed :: "user_message_index \<Rightarrow> user_id \<Rightarrow> u64 \<Rightarrow> message_id option" where
  "indexed ix u pts = fmlookup (fm_get_or fmempty u ix) pts"

lemma indexed_add:
  "indexed (add_message_index u pts mid ix) u' pts' = (if u' = u \<and> pts' = pts then Some mid else indexed ix u' pts')"
  by (auto simp: indexed_def add_message_index_def)

lemma get_message_ids_above_iff:
  "mid \<in> set (get_message_ids_above u min_pts ix) \<longleftrightarrow> (\<exists>pts. min_pts < pts \<and> indexed ix u pts = Some mid)"
  by (cases "fmlookup ix u") (force simp: get_message_ids_above_def indexed_def set_fm_entries)+

lemma fmlookup_fold_fmdrop: "fmlookup (fold fmdrop ks m) k = (if k \<in> set ks then None else fmlookup m k)"
  by (induction ks arbitrary: m) auto

lemma indexed_cleanup:
  "indexed (cleanup_index u keep ix) u' pts =
     (if u' = u \<and> pts \<in> set (take (fm_len (fm_get_or fmempty u ix) - keep)
                              (sorted_list_of_fset (fmdom (fm_get_or fmempty u ix))))
      then None else indexed ix u' pts)"
proof (cases "fmlookup ix u")
  case None
  then show ?thesis by (simp add: indexed_def cleanup_index_def sorted_list_of_fset.rep_eq)
next
  case (Some m)
  have "length (sorted_list_of_fset (fmdom m)) = fm_len m"
    by (simp add: fm_len_def fcard.rep_eq sorted_list_of_fset.rep_eq)
  with Some show ?thesis
    by (auto simp: indexed_def cleanup_index_def Let_def fmlookup_fold_fmdrop)
qed

lemma sorted_take_drop_less:
  assumes "sorted xs" "distinct xs" "x \<in> set (take n xs)" "y \<in> set (drop n xs)"
  shows "x < (y :: 'a :: linorder)"
proof -
  have "sorted (take n xs @ drop n xs)" "distinct (take n xs @ drop n xs)"
    using assms(1,2) by (simp_all only: append_take_drop_id)
  then have "x \<le> y" "x \<noteq> y" using assms(3,4) by (auto simp only: sorted_append distinct_append)
  then show ?thesis by simp
qed

text \<open>
  Cleaning up a user's index keeps exactly the newest entries: at most \<open>keep\<close> of them stay
  (all of them when there were no more), every entry that stays is unchanged, everything that goes
  is older than everything that stays, and no other user is touched.
\<close>

theorem cleanup_keeps_newest:
  assumes m: "fmlookup ix u = Some m"
  shows "card {pts. indexed (cleanup_index u keep ix) u pts \<noteq> None} = min keep (fm_len m) \<and>
         (\<forall>pts. indexed (cleanup_index u keep ix) u pts \<noteq> None \<longrightarrow>
            indexed (cleanup_index u keep ix) u pts = indexed ix u pts) \<and>
         (\<forall>pts pts'. indexed ix u pts \<noteq> None \<longrightarrow> indexed (cleanup_index u keep ix) u pts = None \<longrightarrow>
            indexed (cleanup_index u keep ix) u pts' \<noteq> None \<longrightarrow> pts < pts') \<and>
         (\<forall>u' pts. u' \<noteq> u \<longrightarrow> indexed (cleanup_index u keep ix) u' pts = indexed ix u' pts)"
proof -
  let ?xs = "sorted_list_of_fset (fmdom m)" and ?n = "fm_len m - keep"
  have xs: "sorted ?xs" "distinct ?xs" "set ?xs = fset (fmdom m)" "length ?xs = fm_len m"
    by (simp_all add: sorted_list_of_fset.rep_eq fm_len_def fcard.rep_eq)
  have ix: "indexed (cleanup_index u keep ix) u pts = (if pts \<in> set (take ?n ?xs) then None else fmlookup m pts)" for pts
    using m by (simp add: indexed_cleanup) (simp add: indexed_def)
  have old: "indexed ix u pts = fmlookup m pts" for pts using m by (simp add: indexed_def)
  have split: "set ?xs = set (take ?n ?xs) \<union> set (drop ?n ?xs)" by (simp flip: set_append)
  have disj: "set (take ?n ?xs) \<inter> set (drop ?n ?xs) = {}"
    using xs(2) by (simp add: set_take_disj_set_drop_if_distinct)
  have kept: "{pts. indexed (cleanup_index u keep ix) u pts \<noteq> None} = set (drop ?n ?xs)"
    using split disj xs(3) by (auto simp: ix fmlookup_dom_iff)
  then have "card {pts. indexed (cleanup_index u keep ix) u pts \<noteq> None} = min keep (fm_len m)"
    using xs(2,4) by (auto simp: distinct_card)
  moreover have "pts < pts'" if "indexed ix u pts \<noteq> None" "indexed (cleanup_index u keep ix) u pts = None"
    "indexed (cleanup_index u keep ix) u pts' \<noteq> None" for pts pts'
  proof (rule sorted_take_drop_less [OF xs(1,2)])
    show "pts \<in> set (take ?n ?xs)" using that(1,2) by (auto simp: ix old split: if_splits)
    show "pts' \<in> set (drop ?n ?xs)" using that(3) kept by auto
  qed
  moreover have "indexed (cleanup_index u keep ix) u pts = indexed ix u pts"
    if "indexed (cleanup_index u keep ix) u pts \<noteq> None" for pts
    using that by (auto simp: ix old split: if_splits)
  moreover have "indexed (cleanup_index u keep ix) u' pts = indexed ix u' pts" if "u' \<noteq> u" for u' pts
    using that by (simp add: indexed_cleanup)
  ultimately show ?thesis by blast
qed

theorem cleanup_keeps_newest_witness:
  "card {pts. indexed (cleanup_index 1 2 (add_message_index 1 30 103 (add_message_index 1 20 102
      (add_message_index 1 10 101 fmempty)))) 1 pts \<noteq> None} = 2"
proof -
  let ?ix = "add_message_index 1 30 103 (add_message_index 1 20 102 (add_message_index 1 10 101 fmempty))"
  have m: "fmlookup ?ix 1 = Some (fmupd 30 103 (fmupd 20 102 (fmupd 10 101 fmempty)))"
    by (simp add: add_message_index_def)
  show ?thesis
    using cleanup_keeps_newest [OF m, of 2] by (simp add: fm_len_def fcard.rep_eq)
qed

text \<open>
  Messages get lost from the index: its key is the pts alone, although a pts is only unique
  within a channel. When two channels of a user reach the same pts, the second message overwrites
  the first, which no later range query returns, so that it is not among the messages the offline
  push selects.
\<close>

theorem index_collision_loses_message:
  assumes "mid \<noteq> mid'" and "\<And>p. indexed ix u p \<noteq> Some mid"
  shows "mid \<notin> set (get_message_ids_above u min_pts
           (add_message_index u (snd (next_pts c2 new_pts_generator)) mid'
             (add_message_index u (snd (next_pts c1 new_pts_generator)) mid ix)))"
proof -
  let ?ix = "add_message_index u (snd (next_pts c2 new_pts_generator)) mid'
             (add_message_index u (snd (next_pts c1 new_pts_generator)) mid ix)"
  have one: "snd (next_pts c new_pts_generator) = 1" for c by (simp add: next_pts_def new_pts_generator_def)
  have "indexed ?ix u p \<noteq> Some mid" for p using assms by (simp add: indexed_add one)
  then show ?thesis by (simp add: get_message_ids_above_iff)
qed

theorem index_collision_loses_message_witness:
  "500 \<notin> set (get_message_ids_above 1 0
      (add_message_index 1 (snd (next_pts 8 new_pts_generator)) 600
        (add_message_index 1 (snd (next_pts 7 new_pts_generator)) 500 fmempty)))"
  by (rule index_collision_loses_message) (simp_all add: indexed_def)

end
