(* ===== verification/Decimal.thy ===== *)
theory Decimal
  imports Prelude
begin

text \<open>
  Rust's decimal rendering and parsing of \<open>u64\<close> values, which user ids, source ids and part file
  names go through, and that the two invert each other.
\<close>

section \<open>Printing and parsing\<close>

definition digit_char :: "nat \<Rightarrow> char" where
  "digit_char d = char_of (48 + d)"

fun show_nat :: "nat \<Rightarrow> string" where
  "show_nat n = (if n < 10 then [digit_char n] else show_nat (n div 10) @ [digit_char (n mod 10)])"

definition to_string_u64 :: "u64 \<Rightarrow> string" where
  "to_string_u64 n = show_nat (unat n)"

definition char_digit :: "char \<Rightarrow> nat option" where
  "char_digit ch = (let n = of_char ch in if 48 \<le> n \<and> n \<le> 57 then Some (n - 48) else None)"

text \<open>\<open>str::parse::<u64>\<close>: an optional plus sign, at least one digit, no overflow.\<close>

fun parse_digits :: "nat \<Rightarrow> string \<Rightarrow> nat option" where
  "parse_digits acc [] = Some acc"
| "parse_digits acc (ch # cs) =
     (case char_digit ch of
        None \<Rightarrow> None
      | Some d \<Rightarrow> let acc' = acc * 10 + d in if acc' < 2 ^ 64 then parse_digits acc' cs else None)"

definition parse_u64 :: "string \<Rightarrow> u64 option" where
  "parse_u64 s =
     (let body = (case s of (ch # cs) \<Rightarrow> if ch = CHR ''+'' then cs else s | [] \<Rightarrow> [])
      in if body = [] then None else map_option of_nat (parse_digits 0 body))"

lemma char_digit_digit_char [simp]: "d < 10 \<Longrightarrow> char_digit (digit_char d) = Some d"
  by (simp add: char_digit_def digit_char_def Let_def)

lemma parse_digits_append:
  "parse_digits acc (xs @ ys) = (case parse_digits acc xs of None \<Rightarrow> None | Some a \<Rightarrow> parse_digits a ys)"
  by (induction xs arbitrary: acc) (auto simp: Let_def split: option.splits)

declare show_nat.simps [simp del]

lemma parse_show_nat: "n < 2 ^ 64 \<Longrightarrow> parse_digits 0 (show_nat n) = Some n"
proof (induction n rule: show_nat.induct)
  case (1 n)
  show ?case
  proof (cases "n < 10")
    case True
    then show ?thesis by (simp add: show_nat.simps [of n])
  next
    case False
    with 1 have "parse_digits 0 (show_nat (n div 10)) = Some (n div 10)" by simp
    with False 1(2) show ?thesis by (simp add: show_nat.simps [of n] parse_digits_append)
  qed
qed

lemma show_nat_head: "\<exists>d cs. d < 10 \<and> show_nat n = digit_char d # cs"
proof (induction n rule: show_nat.induct)
  case (1 n)
  then show ?case by (cases "n < 10") (auto simp: show_nat.simps [of n])
qed

text \<open>Reading back a printed id gives the id.\<close>

lemma parse_to_string: "parse_u64 (to_string_u64 n) = Some n"
proof -
  obtain d cs where d: "d < 10" "show_nat (unat n) = digit_char d # cs" using show_nat_head by blast
  have "digit_char d \<noteq> CHR ''+''"
  proof
    assume "digit_char d = CHR ''+''"
    with char_digit_digit_char [OF d(1)] show False by (simp add: char_digit_def)
  qed
  moreover have "unat n < 2 ^ 64" using unsigned_less [of n] by simp
  ultimately show ?thesis
    using parse_show_nat [of "unat n"] d(2) by (simp add: parse_u64_def to_string_u64_def Let_def)
qed

end
