(* ===== verification/OfflineMessage.thy ===== *)
theory OfflineMessage
  imports Decimal "HOL-Library.Product_Lexorder" "HOL-Library.Multiset"
begin

text \<open>
  An offline message and its life cycle, \<open>offline/message.rs\<close>: priority, delivery status, expiry,
  retries with exponential back-off, and the order the delivery queue is sorted by.
\<close>

section \<open>Data\<close>

datatype message_priority = Low | Normal | High | Urgent

instantiation message_priority :: linorder
begin

fun priority_rank :: "message_priority \<Rightarrow> nat" where
  "priority_rank Low = 0"
| "priority_rank Normal = 1"
| "priority_rank High = 2"
| "priority_rank Urgent = 3"

definition less_eq_message_priority :: "message_priority \<Rightarrow> message_priority \<Rightarrow> bool" where
  "less_eq_message_priority a b \<longleftrightarrow> priority_rank a \<le> priority_rank b"

definition less_message_priority :: "message_priority \<Rightarrow> message_priority \<Rightarrow> bool" where
  "less_message_priority a b \<longleftrightarrow> priority_rank a < priority_rank b"

instance
proof
  fix a b c :: message_priority
  show "a < b \<longleftrightarrow> a \<le> b \<and> \<not> b \<le> a"
    by (auto simp: less_eq_message_priority_def less_message_priority_def)
  show "a \<le> a" by (simp add: less_eq_message_priority_def)
  show "a \<le> b \<Longrightarrow> b \<le> c \<Longrightarrow> a \<le> c" by (simp add: less_eq_message_priority_def)
  show "a \<le> b \<Longrightarrow> b \<le> a \<Longrightarrow> a = b"
    by (cases a; cases b) (simp_all add: less_eq_message_priority_def)
  show "a \<le> b \<or> b \<le> a" by (auto simp: less_eq_message_priority_def)
qed

end

datatype delivery_status = Pending | Delivering | Delivered | Failed | Expired

record offline_message =
  om_message_id :: message_id
  om_user_id :: string
  om_sender_id :: string
  om_channel_id :: string
  om_payload :: "u8 list"
  om_message_type :: string
  om_priority :: message_priority
  om_status :: delivery_status
  om_created_at :: time
  om_expire_at :: "time option"
  om_retry_count :: u8
  om_max_retries :: u8
  om_next_retry_at :: "time option"
  om_metadata :: "(string, string) fmap"

abbreviation seconds :: "int \<Rightarrow> time" where
  "seconds n \<equiv> n * 1000"

definition new_offline_message ::
  "time \<Rightarrow> message_id \<Rightarrow> string \<Rightarrow> string \<Rightarrow> string \<Rightarrow> u8 list \<Rightarrow> string \<Rightarrow> offline_message" where
  "new_offline_message now mid u sender c payload ty =
     \<lparr>om_message_id = mid, om_user_id = u, om_sender_id = sender, om_channel_id = c,
      om_payload = payload, om_message_type = ty, om_priority = Normal, om_status = Pending,
      om_created_at = now, om_expire_at = Some (now + seconds (7 * 24 * 3600)), om_retry_count = 0,
      om_max_retries = 3, om_next_retry_at = None, om_metadata = fmempty\<rparr>"

definition with_priority :: "message_priority \<Rightarrow> offline_message \<Rightarrow> offline_message" where
  "with_priority p m = m\<lparr>om_priority := p\<rparr>"

definition with_expiry :: "time \<Rightarrow> offline_message \<Rightarrow> offline_message" where
  "with_expiry duration m = m\<lparr>om_expire_at := Some (om_created_at m + duration)\<rparr>"

definition with_max_retries :: "u8 \<Rightarrow> offline_message \<Rightarrow> offline_message" where
  "with_max_retries n m = m\<lparr>om_max_retries := n\<rparr>"

definition with_metadata :: "string \<Rightarrow> string \<Rightarrow> offline_message \<Rightarrow> offline_message" where
  "with_metadata k v m = m\<lparr>om_metadata := fmupd k v (om_metadata m)\<rparr>"

definition is_expired :: "time \<Rightarrow> offline_message \<Rightarrow> bool" where
  "is_expired now m = (case om_expire_at m of Some e \<Rightarrow> e < now | None \<Rightarrow> False)"

definition can_retry :: "time \<Rightarrow> offline_message \<Rightarrow> bool" where
  "can_retry now m \<longleftrightarrow> om_retry_count m < om_max_retries m \<and> \<not> is_expired now m"

text \<open>\<open>2_u64.pow\<close> wraps in the release build.\<close>

definition retry_delay_seconds :: "u8 \<Rightarrow> u64" where
  "retry_delay_seconds n = min (2 ^ unat n) 300"

definition mark_failed_for_retry :: "time \<Rightarrow> offline_message \<Rightarrow> offline_message \<times> bool" where
  "mark_failed_for_retry now m =
     (if can_retry now m
      then let n = om_retry_count m + 1
           in (m\<lparr>om_retry_count := n, om_status := Pending,
                 om_next_retry_at := Some (now + seconds (sint (retry_delay_seconds n)))\<rparr>, True)
      else (m\<lparr>om_status := Failed\<rparr>, False))"

definition mark_delivered_msg :: "offline_message \<Rightarrow> offline_message" where
  "mark_delivered_msg m = m\<lparr>om_status := Delivered, om_next_retry_at := None\<rparr>"

definition mark_delivering :: "offline_message \<Rightarrow> offline_message" where
  "mark_delivering m = m\<lparr>om_status := Delivering\<rparr>"

definition mark_expired :: "offline_message \<Rightarrow> offline_message" where
  "mark_expired m = m\<lparr>om_status := Expired\<rparr>"

definition is_ready_for_delivery :: "time \<Rightarrow> offline_message \<Rightarrow> bool" where
  "is_ready_for_delivery now m =
     (case om_status m of
        Pending \<Rightarrow> (case om_next_retry_at m of Some t \<Rightarrow> t \<le> now | None \<Rightarrow> True)
      | _ \<Rightarrow> False)"

definition size_bytes :: "offline_message \<Rightarrow> nat" where
  "size_bytes m =
     length (om_payload m) + length (om_user_id m) + length (om_sender_id m) + length (om_channel_id m) +
     length (om_message_type m) + sum_list (map (\<lambda>(k, v). length k + length v) (fm_entries (om_metadata m))) + 256"

definition age :: "time \<Rightarrow> offline_message \<Rightarrow> time" where
  "age now m = now - om_created_at m"

definition ttl :: "time \<Rightarrow> offline_message \<Rightarrow> time option" where
  "ttl now m = map_option (\<lambda>e. e - now) (om_expire_at m)"

text \<open>
  \<open>Ord::cmp\<close> compares the priority and then the creation time the other way round. The order is
  that of the key below; \<open>PartialEq\<close> compares the message id.
\<close>

definition msg_key :: "offline_message \<Rightarrow> message_priority \<times> int" where
  "msg_key m = (om_priority m, - om_created_at m)"

lemma msg_key_less_eq:
  "msg_key a \<le> msg_key b \<longleftrightarrow>
     om_priority a < om_priority b \<or> om_priority a = om_priority b \<and> om_created_at b \<le> om_created_at a"
  by (auto simp: msg_key_def less_eq_prod_def)

section \<open>Retries\<close>

lemma retry_count_no_overflow:
  "can_retry now m \<Longrightarrow> unat (om_retry_count m + 1) = unat (om_retry_count m) + 1"
proof -
  assume "can_retry now m"
  then have "om_retry_count m < om_max_retries m" by (simp add: can_retry_def)
  then have "unat (om_retry_count m) < unat (om_max_retries m)" by (simp add: word_less_nat_alt)
  moreover have "unat (om_max_retries m) < 256" using unsigned_less [of "om_max_retries m"] by simp
  ultimately show ?thesis by (simp add: unat_word_ariths)
qed

lemma retry_delay_value:
  assumes "unat n < 64" shows "unat (retry_delay_seconds n) = min (2 ^ unat n) 300"
proof -
  have "(2 :: nat) ^ unat n < 2 ^ 64" using assms by (rule power_strict_increasing) simp
  moreover have "(2 :: u64) ^ unat n = of_nat (2 ^ unat n)" by simp
  ultimately have "unat ((2 :: u64) ^ unat n) = 2 ^ unat n" by (simp only: unat_of_nat) simp
  then show ?thesis by (simp add: retry_delay_seconds_def min_def word_le_nat_alt)
qed

text \<open>A message is tried at most \<open>max_retries\<close> times: each granted retry counts up, and none is granted at the limit.\<close>

fun fail_times :: "time list \<Rightarrow> offline_message \<Rightarrow> offline_message" where
  "fail_times [] m = m"
| "fail_times (t # ts) m = fail_times ts (fst (mark_failed_for_retry t m))"

fun granted_retries :: "time list \<Rightarrow> offline_message \<Rightarrow> nat" where
  "granted_retries [] m = 0"
| "granted_retries (t # ts) m =
     (if snd (mark_failed_for_retry t m) then 1 else 0) + granted_retries ts (fst (mark_failed_for_retry t m))"

lemma granted_retries_bound:
  "granted_retries ts m + unat (om_retry_count m) \<le> max (unat (om_max_retries m)) (unat (om_retry_count m))"
proof (induction ts arbitrary: m)
  case (Cons t ts)
  show ?case
  proof (cases "can_retry t m")
    case True
    then have lt: "unat (om_retry_count m) < unat (om_max_retries m)"
      by (simp add: can_retry_def word_less_nat_alt)
    let ?m = "fst (mark_failed_for_retry t m)"
    have "unat (om_retry_count ?m) = unat (om_retry_count m) + 1" "om_max_retries ?m = om_max_retries m"
      using True retry_count_no_overflow [OF True] by (simp_all add: mark_failed_for_retry_def Let_def)
    with Cons.IH [of ?m] True lt show ?thesis by (simp add: mark_failed_for_retry_def Let_def)
  next
    case False
    with Cons.IH [of "m\<lparr>om_status := Failed\<rparr>"] show ?thesis by (simp add: mark_failed_for_retry_def)
  qed
qed simp

end
