(* ===== verification/OfflineQueue.thy ===== *)
theory OfflineQueue
  imports OfflineMessage
begin

text \<open>
  The in-memory offline queue, \<open>offline/queue.rs\<close>: the bounded priority queue of a user and the
  manager over all users with its background passes. The standard library's \<open>BinaryHeap\<close> is the
  list of its elements: the order of \<open>iter\<close> and \<open>drain\<close> is unspecified, \<open>pop\<close> removes a
  greatest element. The storage back end is a parameter of the manager.
\<close>

section \<open>The heap\<close>

fun best :: "offline_message \<Rightarrow> offline_message list \<Rightarrow> offline_message" where
  "best m [] = m"
| "best m (x # xs) = (if msg_key m < msg_key x then best x xs else best m xs)"

definition heap_pop :: "offline_message list \<Rightarrow> (offline_message \<times> offline_message list) option" where
  "heap_pop h = (case h of [] \<Rightarrow> None | m # ms \<Rightarrow> let b = best m ms in Some (b, remove1 b h))"

definition heap_push :: "offline_message \<Rightarrow> offline_message list \<Rightarrow> offline_message list" where
  "heap_push m h = h @ [m]"

lemma best_in: "best m xs \<in> set (m # xs)"
  by (induction xs arbitrary: m) auto

lemma best_max: "x \<in> set (m # xs) \<Longrightarrow> msg_key x \<le> msg_key (best m xs)"
proof (induction xs arbitrary: m x)
  case (Cons y xs)
  have mm: "msg_key m \<le> msg_key (best m xs)" "msg_key y \<le> msg_key (best y xs)"
    using Cons.IH [of m m] Cons.IH [of y y] by simp_all
  consider "x = m" | "x = y" | "x \<in> set xs" using Cons.prems by auto
  then show ?case
  proof cases
    case 3
    with Cons.IH [of x m] Cons.IH [of x y] show ?thesis by simp
  qed (use mm in \<open>auto simp: not_less intro: order_trans less_imp_le\<close>)
qed simp

lemma heap_pop_None [simp]: "heap_pop h = None \<longleftrightarrow> h = []"
  by (simp add: heap_pop_def Let_def split: list.splits)

lemma heap_pop_Nil [simp]: "heap_pop [] = None"
  by simp

lemma heap_pop_SomeD:
  assumes "heap_pop h = Some (m, rest)"
  shows "m \<in> set h" "mset h = add_mset m (mset rest)" "\<forall>x\<in>set rest. msg_key x \<le> msg_key m"
    "length h = Suc (length rest)"
proof -
  from assms obtain y ys where h: "h = y # ys" "m = best y ys" "rest = remove1 m h"
    by (auto simp: heap_pop_def Let_def split: list.splits)
  show m: "m \<in> set h" using best_in [of y ys] h by simp
  show ms: "mset h = add_mset m (mset rest)" using m h(3) by simp
  show "length h = Suc (length rest)" using arg_cong [OF ms, of size] by simp
  show "\<forall>x\<in>set rest. msg_key x \<le> msg_key m"
    using best_max [of _ y ys] h by (metis notin_set_remove1)
qed

section \<open>The queue of a user\<close>

record user_queue =
  uq_messages :: "offline_message list"
  uq_message_map :: "(message_id, nat) fmap"
  uq_max_size :: nat
  uq_total_bytes :: u64

definition new_user_queue :: "nat \<Rightarrow> user_queue" where
  "new_user_queue max_size =
     \<lparr>uq_messages = [], uq_message_map = fmempty, uq_max_size = max_size, uq_total_bytes = 0\<rparr>"

definition rebuild_message_map :: "user_queue \<Rightarrow> user_queue" where
  "rebuild_message_map q =
     q\<lparr>uq_message_map :=
         fold (\<lambda>(i, m). fmupd (om_message_id m) i) (enumerate 0 (uq_messages q)) fmempty\<rparr>"

definition remove_oldest_low_priority :: "user_queue \<Rightarrow> user_queue \<times> offline_message option" where
  "remove_oldest_low_priority q =
     (let messages = sort_key msg_key (uq_messages q)
      in if messages = [] then (q\<lparr>uq_messages := []\<rparr>, None)
         else (rebuild_message_map (q\<lparr>uq_messages := butlast messages\<rparr>), Some (last messages)))"

definition push :: "offline_message \<Rightarrow> user_queue \<Rightarrow> user_queue \<times> (offline_message option, string) result" where
  "push message q =
     (let insert_into = (\<lambda>q. q\<lparr>uq_message_map := fmupd (om_message_id message) (length (uq_messages q)) (uq_message_map q),
                             uq_total_bytes := uq_total_bytes q + of_nat (size_bytes message),
                             uq_messages := heap_push message (uq_messages q)\<rparr>)
      in if uq_max_size q \<le> length (uq_messages q)
         then (case remove_oldest_low_priority q of
                 (q1, Some removed) \<Rightarrow>
                   (insert_into (q1\<lparr>uq_total_bytes := uq_total_bytes q1 - of_nat (size_bytes removed)\<rparr>),
                    Ok (Some message))
               | (q1, None) \<Rightarrow> (q1, Err ''Queue is full and cannot remove old messages''))
         else (insert_into q, Ok (Some message)))"

definition get_ready_messages :: "time \<Rightarrow> user_queue \<Rightarrow> offline_message list" where
  "get_ready_messages now q = filter (is_ready_for_delivery now) (uq_messages q)"

fun pop_messages :: "time \<Rightarrow> nat \<Rightarrow> user_queue \<Rightarrow> user_queue \<times> offline_message list" where
  "pop_messages now 0 q = (q, [])"
| "pop_messages now (Suc limit) q =
     (case heap_pop (uq_messages q) of
        None \<Rightarrow> (q, [])
      | Some (message, rest) \<Rightarrow>
          if is_ready_for_delivery now message
          then (let (q', ms) = pop_messages now limit
                      (q\<lparr>uq_messages := rest,
                         uq_message_map := fmdrop (om_message_id message) (uq_message_map q),
                         uq_total_bytes := uq_total_bytes q - of_nat (size_bytes message)\<rparr>)
                in (q', message # ms))
          else (q\<lparr>uq_messages := heap_push message rest\<rparr>, []))"

fun set_first_status :: "message_id \<Rightarrow> delivery_status \<Rightarrow> offline_message list \<Rightarrow> offline_message list \<times> bool" where
  "set_first_status mid st [] = ([], False)"
| "set_first_status mid st (m # ms) =
     (if om_message_id m = mid then (m\<lparr>om_status := st\<rparr> # ms, True)
      else (let (ms', found) = set_first_status mid st ms in (m # ms', found)))"

text \<open>
  The heap is drained first and refilled only when the message was found; otherwise it stays empty.
\<close>

definition update_message_status :: "message_id \<Rightarrow> delivery_status \<Rightarrow> user_queue \<Rightarrow> user_queue \<times> bool" where
  "update_message_status mid st q =
     (let (messages, found) = set_first_status mid st (uq_messages q);
          drained = q\<lparr>uq_messages := []\<rparr>
      in if found then (rebuild_message_map (drained\<lparr>uq_messages := messages\<rparr>), True) else (drained, False))"

definition remove_message :: "message_id \<Rightarrow> user_queue \<Rightarrow> user_queue \<times> offline_message option" where
  "remove_message mid q =
     (let gone = filter (\<lambda>m. om_message_id m = mid) (uq_messages q);
          kept = filter (\<lambda>m. om_message_id m \<noteq> mid) (uq_messages q);
          drained = q\<lparr>uq_messages := [],
                      uq_total_bytes := fold (\<lambda>m n. n - of_nat (size_bytes m)) gone (uq_total_bytes q)\<rparr>
      in if gone \<noteq> [] then (rebuild_message_map (drained\<lparr>uq_messages := kept\<rparr>), Some (last gone))
         else (drained, None))"

definition cleanup_expired :: "time \<Rightarrow> user_queue \<Rightarrow> user_queue \<times> nat" where
  "cleanup_expired now q =
     (let gone = filter (is_expired now) (uq_messages q);
          kept = filter (\<lambda>m. \<not> is_expired now m) (uq_messages q);
          removed_bytes = fold (\<lambda>m n. n + of_nat (size_bytes m)) gone (0 :: u64)
      in (rebuild_message_map (q\<lparr>uq_total_bytes := uq_total_bytes q - removed_bytes, uq_messages := kept\<rparr>),
          length (uq_messages q) - length kept))"

definition retry_failed :: "time \<Rightarrow> user_queue \<Rightarrow> user_queue" where
  "retry_failed now q =
     rebuild_message_map (q\<lparr>uq_messages := map (\<lambda>m.
       if om_status m = Failed \<and> can_retry now m \<and>
          (case om_next_retry_at m of None \<Rightarrow> True | Some t \<Rightarrow> t \<le> now)
       then m\<lparr>om_status := Pending\<rparr> else m) (uq_messages q)\<rparr>)"

definition count_status :: "delivery_status \<Rightarrow> user_queue \<Rightarrow> nat" where
  "count_status st q = length (filter (\<lambda>m. om_status m = st) (uq_messages q))"

definition user_queue_stats :: "user_queue \<Rightarrow> nat \<times> u64 \<times> nat \<times> nat \<times> nat \<times> nat \<times> nat" where
  "user_queue_stats q =
     (length (uq_messages q), uq_total_bytes q, count_status Pending q, count_status Delivering q,
      count_status Delivered q, count_status Failed q, count_status Expired q)"

section \<open>The manager\<close>

text \<open>The back end: the calls of the \<open>StorageBackend\<close> trait the manager makes.\<close>

record 's storage_ops =
  so_store_message :: "offline_message \<Rightarrow> 's \<Rightarrow> 's \<times> (unit, string) result"
  so_delete_messages :: "user_id \<Rightarrow> message_id list \<Rightarrow> 's \<Rightarrow> 's \<times> (nat, string) result"
  so_delete_all_messages :: "user_id \<Rightarrow> 's \<Rightarrow> 's \<times> (nat, string) result"
  so_cleanup_expired_messages :: "time \<Rightarrow> 's \<Rightarrow> 's \<times> (nat, string) result"

record queue_config =
  max_messages_per_user :: nat
  default_expiry_days :: int
  persistence_interval_secs :: u64
  delivery_retry_interval_secs :: u64
  batch_size :: nat
  enable_persistence :: bool

definition default_queue_config :: queue_config where
  "default_queue_config =
     \<lparr>max_messages_per_user = 500, default_expiry_days = 7, persistence_interval_secs = 30,
      delivery_retry_interval_secs = 5, batch_size = 100, enable_persistence = True\<rparr>"

record 's queue_manager =
  user_queues :: "(user_id, user_queue) fmap"
  storage :: 's
  config :: queue_config
  message_id_counter :: u64
  running :: bool

definition new_queue_manager :: "'s \<Rightarrow> queue_config \<Rightarrow> 's queue_manager" where
  "new_queue_manager st cfg =
     \<lparr>user_queues = fmempty, storage = st, config = cfg, message_id_counter = 1, running = False\<rparr>"

definition start_manager :: "'s queue_manager \<Rightarrow> 's queue_manager \<times> (unit, string) result" where
  "start_manager q =
     (if running q then (q, Err ''Queue manager is already running'') else (q\<lparr>running := True\<rparr>, Ok ()))"

definition generate_message_id :: "'s queue_manager \<Rightarrow> 's queue_manager \<times> message_id" where
  "generate_message_id q =
     (let n = message_id_counter q + 1 in (q\<lparr>message_id_counter := n\<rparr>, n))"

definition add_message ::
  "'s storage_ops \<Rightarrow> time \<Rightarrow> user_id \<Rightarrow> string \<Rightarrow> string \<Rightarrow> u8 list \<Rightarrow> string \<Rightarrow> message_priority option \<Rightarrow>
   's queue_manager \<Rightarrow> 's queue_manager \<times> (message_id, string) result" where
  "add_message ops now u sender c payload ty priority q =
     (let (q1, mid) = generate_message_id q;
          m0 = new_offline_message now mid (to_string_u64 u) sender c payload ty;
          m = (case priority of Some p \<Rightarrow> m0\<lparr>om_priority := p\<rparr> | None \<Rightarrow> m0);
          uq = fm_get_or (new_user_queue (max_messages_per_user (config q1))) u (user_queues q1);
          (uq', pushed) = push m uq;
          q2 = q1\<lparr>user_queues := fmupd u uq' (user_queues q1)\<rparr>
      in case pushed of
           Err e \<Rightarrow> (q2, Err e)
         | Ok _ \<Rightarrow>
             if enable_persistence (config q2)
             then (case so_store_message ops m (storage q2) of
                     (st, Ok _) \<Rightarrow> (q2\<lparr>storage := st\<rparr>, Ok mid)
                   | (st, Err e) \<Rightarrow> (q2\<lparr>storage := st\<rparr>, Err e))
             else (q2, Ok mid))"

definition get_messages_for_delivery ::
  "time \<Rightarrow> user_id \<Rightarrow> nat option \<Rightarrow> 's queue_manager \<Rightarrow> 's queue_manager \<times> offline_message list" where
  "get_messages_for_delivery now u limit q =
     (case fmlookup (user_queues q) u of
        None \<Rightarrow> (q, [])
      | Some uq \<Rightarrow>
          (let (uq', ms) = pop_messages now (case limit of Some n \<Rightarrow> n | None \<Rightarrow> batch_size (config q)) uq
           in (q\<lparr>user_queues := fmupd u uq' (user_queues q)\<rparr>, ms)))"

fun mark_each :: "delivery_status \<Rightarrow> message_id list \<Rightarrow> user_queue \<Rightarrow> user_queue \<times> nat" where
  "mark_each st [] q = (q, 0)"
| "mark_each st (mid # mids) q =
     (let (q1, found) = update_message_status mid st q;
          (q2, n) = mark_each st mids q1
      in (q2, (if found then 1 else 0) + n))"

definition mark_delivered ::
  "'s storage_ops \<Rightarrow> user_id \<Rightarrow> message_id list \<Rightarrow> 's queue_manager \<Rightarrow> 's queue_manager \<times> (nat, string) result" where
  "mark_delivered ops u mids q =
     (let (q1, marked) =
        (case fmlookup (user_queues q) u of
           None \<Rightarrow> (q, 0)
         | Some uq \<Rightarrow>
             (let (uq', n) = mark_each Delivered mids uq
              in (q\<lparr>user_queues := fmupd u uq' (user_queues q)\<rparr>, n)))
      in if enable_persistence (config q1) \<and> 0 < marked
         then (case so_delete_messages ops u mids (storage q1) of
                 (st, Ok _) \<Rightarrow> (q1\<lparr>storage := st\<rparr>, Ok marked)
               | (st, Err e) \<Rightarrow> (q1\<lparr>storage := st\<rparr>, Err e))
         else (q1, Ok marked))"

definition mark_failed :: "user_id \<Rightarrow> message_id \<Rightarrow> 's queue_manager \<Rightarrow> 's queue_manager \<times> bool" where
  "mark_failed u mid q =
     (case fmlookup (user_queues q) u of
        None \<Rightarrow> (q, False)
      | Some uq \<Rightarrow>
          (let (uq', updated) = update_message_status mid Failed uq
           in (q\<lparr>user_queues := fmupd u uq' (user_queues q)\<rparr>, updated)))"

definition clear_user_messages ::
  "'s storage_ops \<Rightarrow> user_id \<Rightarrow> 's queue_manager \<Rightarrow> 's queue_manager \<times> (nat, string) result" where
  "clear_user_messages ops u q =
     (let removed_count = (case fmlookup (user_queues q) u of Some uq \<Rightarrow> length (uq_messages uq) | None \<Rightarrow> 0);
          q1 = q\<lparr>user_queues := fmdrop u (user_queues q)\<rparr>
      in if enable_persistence (config q1) \<and> 0 < removed_count
         then (case so_delete_all_messages ops u (storage q1) of
                 (st, Ok _) \<Rightarrow> (q1\<lparr>storage := st\<rparr>, Ok removed_count)
               | (st, Err e) \<Rightarrow> (q1\<lparr>storage := st\<rparr>, Err e))
         else (q1, Ok removed_count))"

definition all_messages :: "'s queue_manager \<Rightarrow> offline_message list" where
  "all_messages q = concat (map (\<lambda>(_, uq). uq_messages uq) (fm_entries (user_queues q)))"

fun store_until_error ::
  "'s storage_ops \<Rightarrow> offline_message list \<Rightarrow> 's \<Rightarrow> 's \<times> (unit, string) result" where
  "store_until_error ops [] st = (st, Ok ())"
| "store_until_error ops (m # ms) st =
     (case so_store_message ops m st of
        (st', Ok _) \<Rightarrow> store_until_error ops ms st'
      | (st', Err e) \<Rightarrow> (st', Err e))"

definition persist_to_storage :: "'s storage_ops \<Rightarrow> 's queue_manager \<Rightarrow> 's queue_manager \<times> (unit, string) result" where
  "persist_to_storage ops q =
     (let (st, r) = store_until_error ops (all_messages q) (storage q) in (q\<lparr>storage := st\<rparr>, r))"

definition stop_manager :: "'s storage_ops \<Rightarrow> 's queue_manager \<Rightarrow> 's queue_manager \<times> (unit, string) result" where
  "stop_manager ops q =
     (if \<not> running q then (q, Ok ())
      else let q1 = q\<lparr>running := False\<rparr>
           in if enable_persistence (config q1) then persist_to_storage ops q1 else (q1, Ok ()))"

definition persistence_tick :: "'s storage_ops \<Rightarrow> 's queue_manager \<Rightarrow> 's queue_manager" where
  "persistence_tick ops q = q\<lparr>storage := fold (\<lambda>m st. fst (so_store_message ops m st)) (all_messages q) (storage q)\<rparr>"

definition cleanup_tick :: "'s storage_ops \<Rightarrow> time \<Rightarrow> 's queue_manager \<Rightarrow> 's queue_manager" where
  "cleanup_tick ops now q =
     (let cleaned = fmmap (cleanup_expired now) (user_queues q);
          total_cleaned = sum_list (map (\<lambda>(_, _, n). n) (fm_entries cleaned));
          queues = fmfilter (\<lambda>u. uq_messages (fst (the (fmlookup cleaned u))) \<noteq> []) (fmmap fst cleaned);
          q1 = q\<lparr>user_queues := queues\<rparr>
      in if enable_persistence (config q) \<and> 0 < total_cleaned
         then q1\<lparr>storage := fst (so_cleanup_expired_messages ops now (storage q1))\<rparr> else q1)"

definition retry_tick :: "time \<Rightarrow> 's queue_manager \<Rightarrow> 's queue_manager" where
  "retry_tick now q = q\<lparr>user_queues := fmmap (retry_failed now) (user_queues q)\<rparr>"

section \<open>Accounting of a user queue\<close>

definition bytes_of :: "offline_message list \<Rightarrow> nat" where
  "bytes_of ms = sum_list (map size_bytes ms)"

definition queue_inv :: "user_queue \<Rightarrow> bool" where
  "queue_inv q \<longleftrightarrow> length (uq_messages q) \<le> uq_max_size q \<and> uq_total_bytes q = of_nat (bytes_of (uq_messages q))"

lemma bytes_of_simps [simp]:
  "bytes_of [] = 0" "bytes_of (m # ms) = size_bytes m + bytes_of ms" "bytes_of (xs @ ys) = bytes_of xs + bytes_of ys"
  by (simp_all add: bytes_of_def)

lemma bytes_of_mset: "mset xs = mset ys \<Longrightarrow> bytes_of xs = bytes_of ys"
  unfolding bytes_of_def by (metis mset_map sum_mset_sum_list)

lemma bytes_of_split: "bytes_of xs = bytes_of (filter P xs) + bytes_of (filter (\<lambda>x. \<not> P x) xs)"
  by (induction xs) auto

lemma fold_minus_bytes:
  "fold (\<lambda>m n. n - of_nat (size_bytes m)) ms (b :: u64) = b - of_nat (bytes_of ms)"
  by (induction ms arbitrary: b) (auto simp: algebra_simps)

lemma fold_plus_bytes:
  "fold (\<lambda>m n. n + of_nat (size_bytes m)) ms (b :: u64) = b + of_nat (bytes_of ms)"
  by (induction ms arbitrary: b) (auto simp: algebra_simps)

lemma rebuild_frame [simp]:
  "uq_messages (rebuild_message_map q) = uq_messages q"
  "uq_max_size (rebuild_message_map q) = uq_max_size q"
  "uq_total_bytes (rebuild_message_map q) = uq_total_bytes q"
  by (simp_all add: rebuild_message_map_def)

lemma heap_push_simps [simp]: "length (heap_push m h) = Suc (length h)" "mset (heap_push m h) = add_mset m (mset h)"
  by (simp_all add: heap_push_def)

lemma evict_messages:
  assumes "uq_messages q \<noteq> []"
  obtains removed where "remove_oldest_low_priority q = (rebuild_message_map (q\<lparr>uq_messages :=
      butlast (sort_key msg_key (uq_messages q))\<rparr>), Some removed)"
    "mset (uq_messages q) = add_mset removed (mset (butlast (sort_key msg_key (uq_messages q))))"
    "\<forall>x\<in>set (uq_messages q). msg_key x \<le> msg_key removed"
proof -
  let ?s = "sort_key msg_key (uq_messages q)"
  have ne: "?s \<noteq> []" using assms by (metis length_sort length_0_conv)
  then have split: "?s = butlast ?s @ [last ?s]" by simp
  have "mset (uq_messages q) = mset ?s" by simp
  also have "\<dots> = add_mset (last ?s) (mset (butlast ?s))" by (subst split) simp
  finally have ms: "mset (uq_messages q) = add_mset (last ?s) (mset (butlast ?s))" .
  have "sorted (map msg_key (butlast ?s @ [last ?s]))" using split sorted_sort_key by metis
  then have "\<forall>x\<in>set (butlast ?s). msg_key x \<le> msg_key (last ?s)" by (simp add: sorted_append)
  moreover have "set (uq_messages q) = insert (last ?s) (set (butlast ?s))"
    using arg_cong [OF ms, of set_mset] by simp
  ultimately have "\<forall>x\<in>set (uq_messages q). msg_key x \<le> msg_key (last ?s)" by auto
  with ms ne show ?thesis by (intro that [of "last ?s"]) (simp_all add: remove_oldest_low_priority_def Let_def)
qed

lemma push_cases:
  assumes "queue_inv q"
  obtains (room) "length (uq_messages q) < uq_max_size q" "snd (push m q) = Ok (Some m)"
      "uq_messages (fst (push m q)) = heap_push m (uq_messages q)"
      "uq_total_bytes (fst (push m q)) = uq_total_bytes q + of_nat (size_bytes m)"
  | (evict) removed where "length (uq_messages q) = uq_max_size q" "snd (push m q) = Ok (Some m)"
      "removed \<in> set (uq_messages q)" "\<forall>x\<in>set (uq_messages q). msg_key x \<le> msg_key removed"
      "mset (uq_messages (fst (push m q))) = add_mset m (mset (uq_messages q) - {#removed#})"
      "uq_total_bytes (fst (push m q)) = uq_total_bytes q - of_nat (size_bytes removed) + of_nat (size_bytes m)"
  | (refuse) "uq_max_size q = 0" "uq_messages q = []" "push m q = (q, Err ''Queue is full and cannot remove old messages'')"
proof (cases "length (uq_messages q) < uq_max_size q")
  case True
  then show ?thesis by (intro room) (simp_all add: push_def Let_def)
next
  case full: False
  with assms have eq: "length (uq_messages q) = uq_max_size q" by (simp add: queue_inv_def)
  show ?thesis
  proof (cases "uq_messages q = []")
    case True
    with eq have "push m q = (q\<lparr>uq_messages := []\<rparr>, Err ''Queue is full and cannot remove old messages'')"
      by (simp add: push_def remove_oldest_low_priority_def Let_def)
    moreover have "q\<lparr>uq_messages := []\<rparr> = q" using True by (cases q) simp
    ultimately show ?thesis using True eq by (intro refuse) simp_all
  next
    case False
    then obtain removed where r: "remove_oldest_low_priority q = (rebuild_message_map (q\<lparr>uq_messages :=
        butlast (sort_key msg_key (uq_messages q))\<rparr>), Some removed)"
      "mset (uq_messages q) = add_mset removed (mset (butlast (sort_key msg_key (uq_messages q))))"
      "\<forall>x\<in>set (uq_messages q). msg_key x \<le> msg_key removed"
      by (rule evict_messages)
    have "removed \<in> set (uq_messages q)" using arg_cong [OF r(2), of set_mset] by simp
    with r eq show ?thesis by (intro evict [of removed]) (simp_all add: push_def Let_def)
  qed
qed

lemma push_frame [simp]: "uq_max_size (fst (push m q)) = uq_max_size q"
  by (auto simp: push_def Let_def remove_oldest_low_priority_def split: prod.splits option.splits if_splits)

lemma inv_push: assumes inv: "queue_inv q" shows "queue_inv (fst (push m q))"
  using inv
proof (cases rule: push_cases [where m = m])
  case (evict removed)
  let ?new = "uq_messages (fst (push m q))"
  have split: "mset (uq_messages q) = mset (removed # remove1 removed (uq_messages q))" using evict(3) by simp
  have new: "mset ?new = mset (m # remove1 removed (uq_messages q))" using evict(5) by simp
  have "length ?new = length (uq_messages q)"
    using arg_cong [OF new, of size] arg_cong [OF split, of size] by simp
  moreover have "bytes_of (uq_messages q) = size_bytes removed + bytes_of (remove1 removed (uq_messages q))"
    using bytes_of_mset [OF split] by simp
  moreover have "bytes_of ?new = size_bytes m + bytes_of (remove1 removed (uq_messages q))"
    using bytes_of_mset [OF new] by simp
  ultimately show ?thesis using inv evict(6) by (simp add: queue_inv_def algebra_simps)
qed (use inv in \<open>auto simp: queue_inv_def heap_push_def algebra_simps\<close>)

lemma pop_step:
  assumes "heap_pop (uq_messages q) = Some (m, rest)"
  shows "length (uq_messages q) = Suc (length rest)" "bytes_of (uq_messages q) = size_bytes m + bytes_of rest"
    "mset (heap_push m rest) = mset (uq_messages q)"
proof -
  show "length (uq_messages q) = Suc (length rest)" using heap_pop_SomeD(4) [OF assms] .
  show "mset (heap_push m rest) = mset (uq_messages q)" using heap_pop_SomeD(2) [OF assms] by simp
  have "mset (uq_messages q) = mset (m # rest)" using heap_pop_SomeD(2) [OF assms] by simp
  from bytes_of_mset [OF this] show "bytes_of (uq_messages q) = size_bytes m + bytes_of rest" by simp
qed

definition popped :: "offline_message \<Rightarrow> offline_message list \<Rightarrow> user_queue \<Rightarrow> user_queue" where
  "popped m rest q =
     q\<lparr>uq_messages := rest, uq_message_map := fmdrop (om_message_id m) (uq_message_map q),
       uq_total_bytes := uq_total_bytes q - of_nat (size_bytes m)\<rparr>"

lemma popped_simps [simp]:
  "uq_messages (popped m rest q) = rest"
  "uq_max_size (popped m rest q) = uq_max_size q"
  "uq_total_bytes (popped m rest q) = uq_total_bytes q - of_nat (size_bytes m)"
  by (simp_all add: popped_def)

lemma pop_messages_Suc:
  "pop_messages now (Suc n) q =
     (case heap_pop (uq_messages q) of
        None \<Rightarrow> (q, [])
      | Some (m, rest) \<Rightarrow>
          if is_ready_for_delivery now m
          then (fst (pop_messages now n (popped m rest q)), m # snd (pop_messages now n (popped m rest q)))
          else (q\<lparr>uq_messages := heap_push m rest\<rparr>, []))"
  by (cases "heap_pop (uq_messages q)") (auto simp: popped_def case_prod_beta Let_def)

declare pop_messages.simps(2) [simp del]

lemma pop_frame [simp]: "uq_max_size (fst (pop_messages now n q)) = uq_max_size q"
  by (induction n arbitrary: q) (simp_all add: pop_messages_Suc split: option.split)

lemma inv_pop: "queue_inv q \<Longrightarrow> queue_inv (fst (pop_messages now n q))"
proof (induction n arbitrary: q)
  case (Suc n)
  show ?case
  proof (cases "heap_pop (uq_messages q)")
    case (Some p)
    obtain m rest where p: "heap_pop (uq_messages q) = Some (m, rest)" using Some by (cases p) auto
    note ps = pop_step [OF p]
    have "queue_inv (popped m rest q)" using Suc.prems ps by (simp add: queue_inv_def)
    moreover have "bytes_of (heap_push m rest) = bytes_of (uq_messages q)" by (rule bytes_of_mset [OF ps(3)])
    ultimately show ?thesis
      using Suc.IH [of "popped m rest q"] Suc.prems p ps
      by (cases "is_ready_for_delivery now m") (simp_all add: pop_messages_Suc queue_inv_def)
  qed (use Suc in \<open>simp add: pop_messages_Suc\<close>)
qed simp

lemma set_first_status_props:
  "length (fst (set_first_status mid st ms)) = length ms"
  "bytes_of (fst (set_first_status mid st ms)) = bytes_of ms"
  "snd (set_first_status mid st ms) \<longleftrightarrow> mid \<in> om_message_id ` set ms"
  by (induction ms) (auto simp: Let_def size_bytes_def split: prod.splits)

definition has_message :: "message_id \<Rightarrow> user_queue \<Rightarrow> bool" where
  "has_message mid q \<longleftrightarrow> mid \<in> om_message_id ` set (uq_messages q)"

lemma inv_update: "queue_inv q \<Longrightarrow> has_message mid q \<Longrightarrow> queue_inv (fst (update_message_status mid st q))"
  using set_first_status_props [of mid st "uq_messages q"]
  by (auto simp: update_message_status_def Let_def has_message_def queue_inv_def split: prod.splits)

lemma inv_remove:
  assumes "queue_inv q" "has_message mid q" shows "queue_inv (fst (remove_message mid q))"
proof -
  have "filter (\<lambda>m. om_message_id m = mid) (uq_messages q) \<noteq> []"
    using assms(2) by (auto simp: has_message_def filter_empty_conv)
  moreover have "length (filter P (uq_messages q)) \<le> uq_max_size q" for P
    using assms(1) le_trans [OF length_filter_le] by (auto simp: queue_inv_def)
  ultimately show ?thesis
    using assms(1) bytes_of_split [of "uq_messages q" "\<lambda>m. om_message_id m = mid"]
    by (simp add: remove_message_def Let_def queue_inv_def fold_minus_bytes)
qed

lemma inv_cleanup: assumes "queue_inv q" shows "queue_inv (fst (cleanup_expired now q))"
proof -
  have "length (filter P (uq_messages q)) \<le> uq_max_size q" for P
    using assms(1) le_trans [OF length_filter_le] by (auto simp: queue_inv_def)
  then show ?thesis
    using assms bytes_of_split [of "uq_messages q" "is_expired now"]
    by (simp add: cleanup_expired_def Let_def queue_inv_def fold_plus_bytes)
qed

lemma size_bytes_status [simp]: "size_bytes (m\<lparr>om_status := st\<rparr>) = size_bytes m"
  by (simp add: size_bytes_def)

lemma inv_retry: "queue_inv q \<Longrightarrow> queue_inv (retry_failed now q)"
proof -
  have "bytes_of (map (\<lambda>m. if P m then m\<lparr>om_status := Pending\<rparr> else m) ms) = bytes_of ms" for P ms
    by (induction ms) auto
  then show "queue_inv q \<Longrightarrow> queue_inv (retry_failed now q)"
    by (simp add: retry_failed_def queue_inv_def)
qed

datatype queue_event =
    QPush offline_message
  | QPop time nat
  | QUpdate message_id delivery_status
  | QRemove message_id
  | QCleanup time
  | QRetry time

fun queue_step :: "user_queue \<Rightarrow> queue_event \<Rightarrow> user_queue" where
  "queue_step q (QPush m) = fst (push m q)"
| "queue_step q (QPop now n) = fst (pop_messages now n q)"
| "queue_step q (QUpdate mid st) = fst (update_message_status mid st q)"
| "queue_step q (QRemove mid) = fst (remove_message mid q)"
| "queue_step q (QCleanup now) = fst (cleanup_expired now q)"
| "queue_step q (QRetry now) = retry_failed now q"

fun queue_ok :: "user_queue \<Rightarrow> queue_event \<Rightarrow> bool" where
  "queue_ok q (QUpdate mid st) = has_message mid q"
| "queue_ok q (QRemove mid) = has_message mid q"
| "queue_ok q _ = True"

lemma inv_new_queue: "queue_inv (new_user_queue n)"
  by (simp add: queue_inv_def new_user_queue_def)

lemmas inv_queue_operations = inv_push inv_pop inv_update inv_remove inv_cleanup inv_retry

interpretation queue_system: invariant_system "new_user_queue n" queue_step queue_ok queue_inv
proof
  show "queue_inv (new_user_queue n)" by (rule inv_new_queue)
  show "queue_inv q \<Longrightarrow> queue_ok q e \<Longrightarrow> queue_inv (queue_step q e)" for q e
    by (cases e) (simp_all add: inv_queue_operations)
qed

lemma max_size_step: "uq_max_size (queue_step q e) = uq_max_size q"
  by (cases e) (auto simp: update_message_status_def remove_message_def cleanup_expired_def retry_failed_def Let_def
        split: prod.splits)

lemma max_size_run: "uq_max_size (run queue_step q es) = uq_max_size q"
  by (induction es arbitrary: q) (simp_all add: max_size_step)



section \<open>Delivery order\<close>

lemma pop_messages_mset:
  "mset (uq_messages q) = mset (snd (pop_messages now n q)) + mset (uq_messages (fst (pop_messages now n q)))"
proof (induction n arbitrary: q)
  case (Suc n)
  show ?case
  proof (cases "heap_pop (uq_messages q)")
    case (Some p)
    obtain m rest where p: "heap_pop (uq_messages q) = Some (m, rest)" using Some by (cases p) auto
    have "mset rest = mset (snd (pop_messages now n (popped m rest q))) +
        mset (uq_messages (fst (pop_messages now n (popped m rest q))))"
      using Suc.IH [of "popped m rest q"] unfolding popped_simps(1) .
    then show ?thesis using heap_pop_SomeD(2) [OF p] p by (simp add: pop_messages_Suc)
  qed (simp add: pop_messages_Suc)
qed simp

text \<open>
  A delivery batch is the front of the queue: popping up to \<open>n\<close> messages loses none, hands
  out only messages that are ready, in order of priority and then of age, and none that remains
  comes before one handed out. Fewer than \<open>n\<close> are handed out only if the queue is empty or if
  its first remaining message is not ready (which then also holds back every ready message behind it).
\<close>

theorem pop_messages_front:
  "mset (uq_messages q) = mset (snd (pop_messages now n q)) + mset (uq_messages (fst (pop_messages now n q))) \<and>
   sorted_wrt (\<lambda>a b. msg_key b \<le> msg_key a) (snd (pop_messages now n q)) \<and>
   list_all (is_ready_for_delivery now) (snd (pop_messages now n q)) \<and>
   (\<forall>m x. m \<in> set (snd (pop_messages now n q)) \<longrightarrow> x \<in> set (uq_messages (fst (pop_messages now n q))) \<longrightarrow>
      msg_key x \<le> msg_key m) \<and>
   (length (snd (pop_messages now n q)) = n \<or>
    length (snd (pop_messages now n q)) < n \<and>
      (uq_messages (fst (pop_messages now n q)) = [] \<or>
       (\<exists>h\<in>set (uq_messages (fst (pop_messages now n q))). \<not> is_ready_for_delivery now h \<and>
          (\<forall>x. x \<in> set (uq_messages (fst (pop_messages now n q))) \<longrightarrow> msg_key x \<le> msg_key h))))"
proof (induction n arbitrary: q)
  case (Suc n)
  show ?case
  proof (cases "heap_pop (uq_messages q)")
    case (Some p)
    obtain m rest where p: "heap_pop (uq_messages q) = Some (m, rest)" using Some by (cases p) auto
    note d = heap_pop_SomeD [OF p]
    show ?thesis
    proof (cases "is_ready_for_delivery now m")
      case ready: True
      let ?r = "pop_messages now n (popped m rest q)"
      note IH = Suc.IH [of "popped m rest q", simplified]
      have rest: "mset rest = mset (snd ?r) + mset (uq_messages (fst ?r))" using IH by blast
      then have "set rest = set (snd ?r) \<union> set (uq_messages (fst ?r))"
        by (metis set_mset_mset set_mset_union)
      then have "\<forall>x \<in> set (snd ?r) \<union> set (uq_messages (fst ?r)). msg_key x \<le> msg_key m" using d(3) by simp
      with IH p ready d(2) rest show ?thesis
        by (simp add: pop_messages_Suc)
    next
      case False
      have "set (heap_push m rest) = insert m (set rest)" by (simp add: heap_push_def)
      with False p d show ?thesis by (auto simp: pop_messages_Suc)
    qed
  qed (simp add: pop_messages_Suc)
qed simp

theorem pop_messages_front_witness:
  "mset (uq_messages (fst (pop_messages 5 1 (fst (push (new_offline_message 0 1 ''7'' ''8'' ''c'' [] ''t'') (new_user_queue 3)))))) +
   mset (snd (pop_messages 5 1 (fst (push (new_offline_message 0 1 ''7'' ''8'' ''c'' [] ''t'') (new_user_queue 3))))) =
   {#new_offline_message 0 1 ''7'' ''8'' ''c'' [] ''t''#}"
  using pop_messages_front [of "fst (push (new_offline_message 0 1 ''7'' ''8'' ''c'' [] ''t'') (new_user_queue 3))" 5 1]
  by (simp add: push_def new_user_queue_def Let_def heap_push_def ac_simps)

section \<open>What goes wrong\<close>

text \<open>
  A push onto a full queue evicts the wrong message: documented to drop the oldest message of
  low priority, it drops the message that is delivered first, a greatest one in the delivery order
  (the oldest of the highest priority present).
\<close>

theorem full_queue_evicts_first_in_line:
  assumes inv: "queue_inv q" and full: "length (uq_messages q) = uq_max_size q" "uq_messages q \<noteq> []"
  shows "\<exists>removed. removed \<in> set (uq_messages q) \<and>
           mset (uq_messages (fst (push m q))) = add_mset m (mset (uq_messages q) - {#removed#}) \<and>
           (\<forall>x. x \<in> set (uq_messages q) \<longrightarrow> om_priority x \<le> om_priority removed) \<and>
           (\<forall>x. x \<in> set (uq_messages q) \<longrightarrow> om_priority x = om_priority removed \<longrightarrow>
              om_created_at removed \<le> om_created_at x)"
  using inv
proof (cases rule: push_cases [where m = m])
  case (evict removed)
  then show ?thesis
    by (intro exI [of _ removed]) (force simp: msg_key_less_eq)
qed (use full in auto)

theorem full_queue_evicts_first_in_line_witness:
  "uq_messages (fst (push (with_priority Low (new_offline_message 2 2 ''7'' ''8'' ''c'' [] ''t''))
     (fst (push (with_priority Urgent (new_offline_message 0 1 ''7'' ''8'' ''c'' [] ''t'')) (new_user_queue 1))))) =
   [with_priority Low (new_offline_message 2 2 ''7'' ''8'' ''c'' [] ''t'')]"
proof -
  let ?u = "with_priority Urgent (new_offline_message 0 1 ''7'' ''8'' ''c'' [] ''t'')"
  let ?q = "fst (push ?u (new_user_queue 1))"
  have inv: "queue_inv ?q" by (intro inv_push inv_new_queue)
  have q: "uq_messages ?q = [?u]" "uq_max_size ?q = 1"
    by (simp_all add: push_def new_user_queue_def Let_def heap_push_def)
  have full: "length (uq_messages ?q) = uq_max_size ?q" "uq_messages ?q \<noteq> []"
    unfolding q(1) q(2) by simp_all
  from full_queue_evicts_first_in_line [OF inv full, of "with_priority Low (new_offline_message 2 2 ''7'' ''8'' ''c'' [] ''t'')"]
  show ?thesis unfolding q by auto
qed

lemma update_unknown_drains:
  "\<not> has_message mid q \<Longrightarrow> update_message_status mid st q = (q\<lparr>uq_messages := []\<rparr>, False)"
  using set_first_status_props(3) [of mid st "uq_messages q"]
  by (auto simp: update_message_status_def has_message_def Let_def split: prod.splits)

lemma mark_each_unknown:
  "\<forall>mid\<in>set mids. \<not> has_message mid q \<Longrightarrow> mids \<noteq> [] \<Longrightarrow>
     mark_each st mids q = (q\<lparr>uq_messages := []\<rparr>, 0)"
proof (induction mids arbitrary: q)
  case (Cons mid mids)
  then show ?case
    by (cases "mids = []") (simp_all add: update_unknown_drains has_message_def)
qed simp

lemma get_messages_eq:
  "fmlookup (user_queues q) u = Some uq \<Longrightarrow> get_messages_for_delivery now u (Some n) q =
     (q\<lparr>user_queues := fmupd u (fst (pop_messages now n uq)) (user_queues q)\<rparr>, snd (pop_messages now n uq))"
  by (simp add: get_messages_for_delivery_def Let_def case_prod_beta)

text \<open>
  C14. Reporting a delivered batch loses the rest of the queue. \<open>get_messages_for_delivery\<close>
  already takes the batch out of the queue, so \<open>mark_delivered\<close> finds none of its messages; it
  answers 0, deletes nothing from the storage, and because the search drains the heap and refills it
  only on success, every message still queued for the user is gone.
\<close>

theorem mark_delivered_loses_queue:
  assumes uq: "fmlookup (user_queues q) u = Some uq"
    and ids: "distinct (map om_message_id (uq_messages uq))"
    and got: "get_messages_for_delivery now u limit q = (q1, ms)" "ms \<noteq> []"
  shows "\<exists>q2. mark_delivered ops u (map om_message_id ms) q1 = (q2, Ok 0) \<and> storage q2 = storage q \<and>
           map_option uq_messages (fmlookup (user_queues q2) u) = Some []"
proof -
  define n where "n = (case limit of Some n \<Rightarrow> n | None \<Rightarrow> batch_size (config q))"
  let ?uq = "fst (pop_messages now n uq)"
  have q1: "q1 = q\<lparr>user_queues := fmupd u ?uq (user_queues q)\<rparr>" "ms = snd (pop_messages now n uq)"
    using got uq by (auto simp: get_messages_for_delivery_def n_def [symmetric] Let_def split: prod.splits)
  have "mset (uq_messages uq) = mset (ms @ uq_messages ?uq)"
    using pop_messages_mset [of uq now n] q1(2) by simp
  then have "distinct (map om_message_id (ms @ uq_messages ?uq))"
    using ids by (metis mset_eq_imp_distinct_iff mset_map)
  then have "\<forall>mid\<in>set (map om_message_id ms). \<not> has_message mid ?uq"
    by (auto simp: has_message_def)
  then have "mark_each Delivered (map om_message_id ms) ?uq = (?uq\<lparr>uq_messages := []\<rparr>, 0)"
    using got(2) by (intro mark_each_unknown) simp_all
  then show ?thesis by (simp add: mark_delivered_def q1(1) Let_def)
qed

theorem mark_delivered_loses_queue_witness:
  "\<exists>q1 ms q2. ms \<noteq> [] \<and>
     get_messages_for_delivery 5 7 (Some 1)
       ((new_queue_manager () default_queue_config)\<lparr>user_queues := fmupd 7
          (fst (push (new_offline_message 1 2 ''7'' ''8'' ''c'' [] ''t'')
            (fst (push (new_offline_message 0 1 ''7'' ''8'' ''c'' [] ''t'') (new_user_queue 9))))) fmempty\<rparr>) = (q1, ms) \<and>
     map_option (length \<circ> uq_messages) (fmlookup (user_queues q1) 7) = Some 1 \<and>
     mark_delivered undefined 7 (map om_message_id ms) q1 = (q2, Ok 0) \<and>
     map_option uq_messages (fmlookup (user_queues q2) 7) = Some []"
proof -
  let ?m1 = "new_offline_message 0 1 ''7'' ''8'' ''c'' [] ''t''"
  let ?m2 = "new_offline_message 1 2 ''7'' ''8'' ''c'' [] ''t''"
  let ?uq = "fst (push ?m2 (fst (push ?m1 (new_user_queue 9))))"
  let ?q = "(new_queue_manager () default_queue_config)\<lparr>user_queues := fmupd 7 ?uq fmempty\<rparr>"
  have ms: "uq_messages ?uq = [?m1, ?m2]"
    by (simp add: push_def new_user_queue_def Let_def heap_push_def)
  have pop: "snd (pop_messages 5 1 ?uq) = [?m1]" "uq_messages (fst (pop_messages 5 1 ?uq)) = [?m2]"
    using pop_messages_Suc [of 5 0 ?uq] unfolding ms
    by (simp_all add: heap_pop_def Let_def msg_key_def new_offline_message_def is_ready_for_delivery_def less_prod_def)
  have uq: "fmlookup (user_queues ?q) 7 = Some ?uq" by simp
  define q1 where "q1 = ?q\<lparr>user_queues := fmupd 7 (fst (pop_messages 5 1 ?uq)) (user_queues ?q)\<rparr>"
  have q1: "get_messages_for_delivery 5 7 (Some 1) ?q = (q1, [?m1])"
    unfolding get_messages_eq [OF uq] pop(1) q1_def ..
  have q1_uq: "fmlookup (user_queues q1) 7 = Some (fst (pop_messages 5 1 ?uq))" by (simp add: q1_def)
  have ids: "distinct (map om_message_id (uq_messages ?uq))" unfolding ms by (simp add: new_offline_message_def)
  from mark_delivered_loses_queue [OF uq ids q1, of undefined] obtain q2 where
    q2: "mark_delivered undefined 7 (map om_message_id [?m1]) q1 = (q2, Ok 0)"
      "map_option uq_messages (fmlookup (user_queues q2) 7) = Some []" by blast
  have "map_option (length \<circ> uq_messages) (fmlookup (user_queues q1) 7) = Some 1"
    unfolding q1_uq using pop(2) by simp
  with q1 q2 show ?thesis by blast
qed

end
