(* ===== verification/OfflineStorage.thy ===== *)
theory OfflineStorage
  imports OfflineQueue
begin

text \<open>
  The storage back ends of \<open>offline/storage.rs\<close>: the \<open>StorageBackend\<close> trait as a locale with
  the laws its users rely on, and the in-memory implementation, on which the locale is interpreted.
\<close>

section \<open>The in-memory back end\<close>

type_synonym memory_storage = "(user_id, offline_message list) fmap"

definition new_memory_storage :: memory_storage where
  "new_memory_storage = fmempty"

definition owner_of :: "offline_message \<Rightarrow> user_id" where
  "owner_of m = (case parse_u64 (om_user_id m) of Some u \<Rightarrow> u | None \<Rightarrow> 0)"

definition store_message :: "offline_message \<Rightarrow> memory_storage \<Rightarrow> memory_storage" where
  "store_message m s = (let u = owner_of m in fmupd u (fm_get_or [] u s @ [m]) s)"

definition store_messages :: "offline_message list \<Rightarrow> memory_storage \<Rightarrow> memory_storage" where
  "store_messages ms s = fold store_message ms s"

definition get_messages :: "user_id \<Rightarrow> memory_storage \<Rightarrow> offline_message list" where
  "get_messages u s = sort_key msg_key (fm_get_or [] u s)"

definition get_messages_limit :: "user_id \<Rightarrow> nat \<Rightarrow> memory_storage \<Rightarrow> offline_message list" where
  "get_messages_limit u limit s = take limit (get_messages u s)"

definition delete_message :: "user_id \<Rightarrow> message_id \<Rightarrow> memory_storage \<Rightarrow> memory_storage \<times> bool" where
  "delete_message u mid s =
     (case fmlookup s u of
        None \<Rightarrow> (s, False)
      | Some ms \<Rightarrow>
          (let ms' = filter (\<lambda>m. om_message_id m \<noteq> mid) ms
           in (fmupd u ms' s, length ms' < length ms)))"

fun delete_messages :: "user_id \<Rightarrow> message_id list \<Rightarrow> memory_storage \<Rightarrow> memory_storage \<times> nat" where
  "delete_messages u [] s = (s, 0)"
| "delete_messages u (mid # mids) s =
     (let (s1, deleted) = delete_message u mid s;
          (s2, n) = delete_messages u mids s1
      in (s2, (if deleted then 1 else 0) + n))"

definition delete_all_messages :: "user_id \<Rightarrow> memory_storage \<Rightarrow> memory_storage \<times> nat" where
  "delete_all_messages u s =
     (case fmlookup s u of None \<Rightarrow> (s, 0) | Some ms \<Rightarrow> (fmdrop u s, length ms))"

definition cleanup_expired_messages :: "time \<Rightarrow> memory_storage \<Rightarrow> memory_storage \<times> nat" where
  "cleanup_expired_messages now s =
     (let kept = fmmap (filter (\<lambda>m. \<not> is_expired now m)) s;
          total_removed = sum_list (map (\<lambda>(_, ms). length ms - length (filter (\<lambda>m. \<not> is_expired now m) ms)) (fm_entries s))
      in (fmfilter (\<lambda>u. fmlookup kept u \<noteq> Some []) kept, total_removed))"

record storage_stats =
  ss_total_messages :: u64
  ss_pending_messages :: u64
  ss_delivered_messages :: u64
  ss_failed_messages :: u64
  ss_expired_messages :: u64
  ss_storage_size_bytes :: u64
  ss_user_count :: u64

definition count_message :: "offline_message \<Rightarrow> storage_stats \<Rightarrow> storage_stats" where
  "count_message m st =
     (let st1 = st\<lparr>ss_total_messages := ss_total_messages st + 1,
                   ss_storage_size_bytes := ss_storage_size_bytes st + of_nat (size_bytes m)\<rparr>
      in case om_status m of
           Pending \<Rightarrow> st1\<lparr>ss_pending_messages := ss_pending_messages st1 + 1\<rparr>
         | Delivering \<Rightarrow> st1\<lparr>ss_pending_messages := ss_pending_messages st1 + 1\<rparr>
         | Delivered \<Rightarrow> st1\<lparr>ss_delivered_messages := ss_delivered_messages st1 + 1\<rparr>
         | Failed \<Rightarrow> st1\<lparr>ss_failed_messages := ss_failed_messages st1 + 1\<rparr>
         | Expired \<Rightarrow> st1\<lparr>ss_expired_messages := ss_expired_messages st1 + 1\<rparr>)"

definition memory_storage_stats :: "memory_storage \<Rightarrow> storage_stats" where
  "memory_storage_stats s =
     fold (\<lambda>(_, ms). fold count_message ms) (fm_entries s)
       \<lparr>ss_total_messages = 0, ss_pending_messages = 0, ss_delivered_messages = 0, ss_failed_messages = 0,
        ss_expired_messages = 0, ss_storage_size_bytes = 0, ss_user_count = of_nat (fm_len s)\<rparr>"

text \<open>The operations as the queue manager calls them.\<close>

definition memory_ops :: "memory_storage storage_ops" where
  "memory_ops =
     \<lparr>so_store_message = (\<lambda>m s. (store_message m s, Ok ())),
      so_delete_messages = (\<lambda>u mids s. map_prod id Ok (delete_messages u mids s)),
      so_delete_all_messages = (\<lambda>u s. map_prod id Ok (delete_all_messages u s)),
      so_cleanup_expired_messages = (\<lambda>now s. map_prod id Ok (cleanup_expired_messages now s))\<rparr>"

section \<open>The interface\<close>

text \<open>
  What a user of a back end may rely on. A message that is stored is found under its owner; storing
  does not lose a message with another id and invents none; the deletions and the clean-up remove
  what they say and nothing else.
\<close>

locale storage_backend =
  fixes store :: "offline_message \<Rightarrow> 's \<Rightarrow> 's"
    and get :: "user_id \<Rightarrow> 's \<Rightarrow> offline_message list"
    and delete :: "user_id \<Rightarrow> message_id \<Rightarrow> 's \<Rightarrow> 's \<times> bool"
    and delete_all :: "user_id \<Rightarrow> 's \<Rightarrow> 's \<times> nat"
    and cleanup :: "time \<Rightarrow> 's \<Rightarrow> 's \<times> nat"
  assumes store_found: "m \<in> set (get (owner_of m) (store m s))"
    and store_keeps: "x \<in> set (get u s) \<Longrightarrow> u \<noteq> owner_of m \<or> om_message_id x \<noteq> om_message_id m \<Longrightarrow>
      x \<in> set (get u (store m s))"
    and store_no_other: "x \<in> set (get u (store m s)) \<Longrightarrow> x = m \<and> u = owner_of m \<or> x \<in> set (get u s)"
    and delete_set: "set (get u' (fst (delete u mid s))) = {x \<in> set (get u' s). \<not> (u' = u \<and> om_message_id x = mid)}"
    and delete_answer: "snd (delete u mid s) \<longleftrightarrow> (\<exists>x\<in>set (get u s). om_message_id x = mid)"
    and delete_all_set: "set (get u' (fst (delete_all u s))) = (if u' = u then {} else set (get u' s))"
    and cleanup_set: "set (get u (fst (cleanup now s))) = {x \<in> set (get u s). \<not> is_expired now x}"
begin

lemma stored_batch_found:
  "distinct (map om_message_id ms) \<Longrightarrow> m \<in> set ms \<Longrightarrow> m \<in> set (get (owner_of m) (fold store ms s))"
proof (induction ms arbitrary: s)
  case (Cons x ms)
  have keep: "om_message_id x \<notin> om_message_id ` set ys \<Longrightarrow> x \<in> set (get (owner_of x) t) \<Longrightarrow>
      x \<in> set (get (owner_of x) (fold store ys t))" for ys t
    by (induction ys arbitrary: t) (auto simp: store_keeps)
  show ?case
  proof (cases "m = x")
    case True
    with Cons.prems keep [of ms "store x s"] store_found show ?thesis by simp
  next
    case False
    with Cons show ?thesis by simp
  qed
qed simp

lemma deleted_not_found: "x \<in> set (get u (fst (delete u mid s))) \<Longrightarrow> om_message_id x \<noteq> mid"
  by (simp add: delete_set)

lemma store_then_delete:
  "m \<notin> set (get (owner_of m) (fst (delete (owner_of m) (om_message_id m) (store m s))))"
  by (simp add: delete_set)

lemma cleanup_idempotent:
  "set (get u (fst (cleanup now (fst (cleanup now s))))) = set (get u (fst (cleanup now s)))"
  by (auto simp: cleanup_set)

end

lemma set_get_messages: "set (get_messages u s) = set (fm_get_or [] u s)"
  by (simp add: get_messages_def)

lemma length_filter_less_iff: "length (filter P xs) < length xs \<longleftrightarrow> (\<exists>x\<in>set xs. \<not> P x)"
proof
  assume "length (filter P xs) < length xs"
  then have "filter P xs \<noteq> xs" by auto
  then show "\<exists>x\<in>set xs. \<not> P x" by (auto simp: filter_id_conv)
qed (auto intro: length_filter_less)

interpretation mem: storage_backend store_message get_messages delete_message delete_all_messages cleanup_expired_messages
proof
  show "m \<in> set (get_messages (owner_of m) (store_message m s))" for m s
    by (simp add: set_get_messages store_message_def Let_def)
  show "x \<in> set (get_messages u s) \<Longrightarrow> u \<noteq> owner_of m \<or> om_message_id x \<noteq> om_message_id m \<Longrightarrow>
      x \<in> set (get_messages u (store_message m s))" for x u m s
    by (auto simp: set_get_messages store_message_def Let_def)
  show "x \<in> set (get_messages u (store_message m s)) \<Longrightarrow> x = m \<and> u = owner_of m \<or> x \<in> set (get_messages u s)" for x u m s
    by (auto simp: set_get_messages store_message_def Let_def split: if_splits)
  show "set (get_messages u' (fst (delete_message u mid s))) =
      {x \<in> set (get_messages u' s). \<not> (u' = u \<and> om_message_id x = mid)}" for u' u mid s
    by (auto simp: set_get_messages delete_message_def Let_def split: option.splits)
  show "snd (delete_message u mid s) \<longleftrightarrow> (\<exists>x\<in>set (get_messages u s). om_message_id x = mid)" for u mid s
    by (simp add: set_get_messages delete_message_def Let_def length_filter_less_iff split: option.splits)
  show "set (get_messages u' (fst (delete_all_messages u s))) = (if u' = u then {} else set (get_messages u' s))" for u' u s
    by (auto simp: set_get_messages delete_all_messages_def split: option.splits)
  show "set (get_messages u (fst (cleanup_expired_messages now s))) =
      {x \<in> set (get_messages u s). \<not> is_expired now x}" for u now s
    by (cases "fmlookup s u") (auto simp: set_get_messages cleanup_expired_messages_def Let_def fm_get_or_def
          filter_empty_conv)
qed

section \<open>Properties\<close>



text \<open>
  A limited read returns the wrong end of the list. The messages are sorted ascending in an
  order whose greatest element is the most urgent one, and then truncated: no message that is left
  out is less urgent than one that is returned.
\<close>

theorem limited_read_returns_least_urgent:
  assumes "x \<in> set (get_messages_limit u limit s)" and "y \<in># mset (get_messages u s) - mset (get_messages_limit u limit s)"
  shows "om_priority x \<le> om_priority y \<and>
         (om_priority x = om_priority y \<longrightarrow> om_created_at y \<le> om_created_at x)"
proof -
  let ?s = "get_messages u s"
  have "mset ?s = mset (take limit ?s) + mset (drop limit ?s)" by (simp flip: mset_append)
  then have "y \<in> set (drop limit ?s)" using assms(2) by (simp add: get_messages_limit_def)
  moreover have "map msg_key ?s = map msg_key (take limit ?s) @ map msg_key (drop limit ?s)"
    by (simp flip: map_append)
  then have "\<forall>a\<in>set (map msg_key (take limit ?s)). \<forall>b\<in>set (map msg_key (drop limit ?s)). a \<le> b"
    using sorted_sort_key [of msg_key "fm_get_or [] u s"] unfolding get_messages_def by (metis sorted_append)
  ultimately have "msg_key x \<le> msg_key y" using assms(1) by (simp add: get_messages_limit_def)
  then show ?thesis by (auto simp: msg_key_less_eq)
qed

theorem limited_read_returns_least_urgent_witness:
  "om_priority (with_priority Low (new_offline_message 0 1 (to_string_u64 42) ''8'' ''c'' [] ''t'')) \<le>
   om_priority (with_priority Urgent (new_offline_message 0 2 (to_string_u64 42) ''8'' ''c'' [] ''t'')) \<and>
   get_messages_limit 42 1 (store_messages
     [with_priority Urgent (new_offline_message 0 2 (to_string_u64 42) ''8'' ''c'' [] ''t''),
      with_priority Low (new_offline_message 0 1 (to_string_u64 42) ''8'' ''c'' [] ''t'')] new_memory_storage) =
   [with_priority Low (new_offline_message 0 1 (to_string_u64 42) ''8'' ''c'' [] ''t'')]"
proof -
  let ?u = "with_priority Urgent (new_offline_message 0 2 (to_string_u64 42) ''8'' ''c'' [] ''t'')"
  let ?l = "with_priority Low (new_offline_message 0 1 (to_string_u64 42) ''8'' ''c'' [] ''t'')"
  let ?s = "store_messages [?u, ?l] new_memory_storage"
  have own: "owner_of ?u = 42" "owner_of ?l = 42"
    by (simp_all add: owner_of_def parse_to_string with_priority_def new_offline_message_def)
  have "fm_get_or [] 42 ?s = [?u, ?l]"
    by (simp add: store_messages_def store_message_def Let_def own new_memory_storage_def)
  then have g: "get_messages 42 ?s = [?l, ?u]"
    by (simp add: get_messages_def msg_key_def with_priority_def new_offline_message_def less_eq_prod_def
          less_eq_message_priority_def less_message_priority_def)
  have ne: "?u \<noteq> ?l" by (simp add: with_priority_def new_offline_message_def)
  have lim: "get_messages_limit 42 1 ?s = [?l]" by (simp add: get_messages_limit_def g)
  show ?thesis
    using limited_read_returns_least_urgent [of ?l 42 1 ?s ?u] lim g ne by simp
qed

text \<open>
  Storing is not idempotent in memory: the periodic persistence pass appends every queued message
  again.
\<close>

lemma persisting_twice_duplicates:
  "length (get_messages (owner_of m) (store_message m (store_message m s))) =
   length (get_messages (owner_of m) s) + 2"
  by (simp add: get_messages_def store_message_def Let_def)

end
