(* ===== verification/IntentState.thy ===== *)
theory IntentState
  imports Prelude
begin

text \<open>
  Push intents, \<open>push/intent_state.rs\<close>: which push is still to be sent. The manager keeps three
  indexes (by message, user and device) and a status table; the planner registers intents, delivery
  cancels them and a recall revokes them. The specification is one table of intents, and the
  indexed manager is shown to implement it.
\<close>

section \<open>The manager\<close>

datatype intent_status = Pending | Processing | Sent | Cancelled | Revoked

record intent_state_manager =
  intent_by_message :: "(message_id, string list) fmap"
  intents_by_user :: "(user_id, string list) fmap"
  intents_by_device :: "(device_id, string list) fmap"
  intent_status_map :: "(string, intent_status) fmap"

definition new_intent_state :: intent_state_manager where
  "new_intent_state =
     \<lparr>intent_by_message = fmempty, intents_by_user = fmempty, intents_by_device = fmempty,
      intent_status_map = fmempty\<rparr>"

definition push_entry :: "'k \<Rightarrow> string \<Rightarrow> ('k, string list) fmap \<Rightarrow> ('k, string list) fmap" where
  "push_entry k x m = fmupd k (fm_get_or [] k m @ [x]) m"

definition register_device_intent ::
  "string \<Rightarrow> message_id \<Rightarrow> user_id \<Rightarrow> device_id \<Rightarrow> intent_state_manager \<Rightarrow> intent_state_manager" where
  "register_device_intent iid mid u d s =
     s\<lparr>intent_by_message := push_entry mid iid (intent_by_message s),
       intents_by_user := push_entry u iid (intents_by_user s),
       intents_by_device := (if d \<noteq> [] then push_entry d iid (intents_by_device s) else intents_by_device s),
       intent_status_map := fmupd iid Pending (intent_status_map s)\<rparr>"

definition register_intent :: "string \<Rightarrow> message_id \<Rightarrow> user_id \<Rightarrow> intent_state_manager \<Rightarrow> intent_state_manager" where
  "register_intent iid mid u s = register_device_intent iid mid u [] s"

definition get_status :: "string \<Rightarrow> intent_state_manager \<Rightarrow> intent_status option" where
  "get_status iid s = fmlookup (intent_status_map s) iid"

fun mark_pending ::
  "intent_status \<Rightarrow> string list \<Rightarrow> (string, intent_status) fmap \<Rightarrow> (string, intent_status) fmap \<times> nat" where
  "mark_pending new [] m = (m, 0)"
| "mark_pending new (iid # iids) m =
     (if fmlookup m iid = Some Pending
      then (let (m', n) = mark_pending new iids (fmupd iid new m) in (m', n + 1))
      else mark_pending new iids m)"

definition mark_ids :: "intent_status \<Rightarrow> string list \<Rightarrow> intent_state_manager \<Rightarrow> intent_state_manager \<times> nat" where
  "mark_ids new iids s =
     (if iids = [] then (s, 0)
      else let (m, n) = mark_pending new iids (intent_status_map s)
           in (s\<lparr>intent_status_map := m\<rparr>, n))"

definition mark_revoked :: "message_id \<Rightarrow> intent_state_manager \<Rightarrow> intent_state_manager \<times> nat" where
  "mark_revoked mid s = mark_ids Revoked (fm_get_or [] mid (intent_by_message s)) s"

definition mark_cancelled :: "user_id \<Rightarrow> intent_state_manager \<Rightarrow> intent_state_manager \<times> nat" where
  "mark_cancelled u s = mark_ids Cancelled (fm_get_or [] u (intents_by_user s)) s"

definition mark_cancelled_by_device :: "device_id \<Rightarrow> message_id option \<Rightarrow> intent_state_manager \<Rightarrow> intent_state_manager \<times> nat" where
  "mark_cancelled_by_device d mid s = mark_ids Cancelled (fm_get_or [] d (intents_by_device s)) s"

definition mark_cancelled_by_message_user ::
  "message_id \<Rightarrow> user_id \<Rightarrow> intent_state_manager \<Rightarrow> intent_state_manager \<times> nat" where
  "mark_cancelled_by_message_user mid u s =
     (let user_intents = fm_get_or [] u (intents_by_user s)
      in mark_ids Cancelled
           (filter (\<lambda>iid. iid \<in> set user_intents) (fm_get_or [] mid (intent_by_message s))) s)"

definition users_with_intents_for_message :: "message_id \<Rightarrow> intent_state_manager \<Rightarrow> user_id list" where
  "users_with_intents_for_message mid s =
     (let ids = fm_get_or [] mid (intent_by_message s)
      in if ids = [] then []
         else remdups_adj (sort (map fst (filter (\<lambda>(_, iids). list_ex (\<lambda>i. i \<in> set ids) iids)
                (fm_entries (intents_by_user s))))))"

definition cleanup_completed :: "string \<Rightarrow> intent_state_manager \<Rightarrow> intent_state_manager" where
  "cleanup_completed iid s = s"

section \<open>Specification\<close>

text \<open>One table of intents; an operation changes the pending ones that satisfy its condition.\<close>

record intent =
  in_message :: message_id
  in_user :: user_id
  in_device :: device_id
  in_status :: intent_status

type_synonym intent_table = "(string, intent) fmap"

definition spec_register :: "string \<Rightarrow> message_id \<Rightarrow> user_id \<Rightarrow> device_id \<Rightarrow> intent_table \<Rightarrow> intent_table" where
  "spec_register iid mid u d t = fmupd iid \<lparr>in_message = mid, in_user = u, in_device = d, in_status = Pending\<rparr> t"

definition spec_mark :: "intent_status \<Rightarrow> (intent \<Rightarrow> bool) \<Rightarrow> intent_table \<Rightarrow> intent_table" where
  "spec_mark new P t = fmmap (\<lambda>i. if P i \<and> in_status i = Pending then i\<lparr>in_status := new\<rparr> else i) t"

definition spec_count :: "(intent \<Rightarrow> bool) \<Rightarrow> intent_table \<Rightarrow> nat" where
  "spec_count P t = card {iid. \<exists>i. fmlookup t iid = Some i \<and> P i \<and> in_status i = Pending}"

datatype intent_event =
    IRegister string message_id user_id device_id
  | IRevoke message_id
  | ICancelUser user_id
  | ICancelDevice device_id
  | ICancelMessageUser message_id user_id

fun intent_step :: "intent_state_manager \<Rightarrow> intent_event \<Rightarrow> intent_state_manager" where
  "intent_step s (IRegister iid mid u d) = register_device_intent iid mid u d s"
| "intent_step s (IRevoke mid) = fst (mark_revoked mid s)"
| "intent_step s (ICancelUser u) = fst (mark_cancelled u s)"
| "intent_step s (ICancelDevice d) = fst (mark_cancelled_by_device d None s)"
| "intent_step s (ICancelMessageUser mid u) = fst (mark_cancelled_by_message_user mid u s)"

fun intent_answer :: "intent_state_manager \<Rightarrow> intent_event \<Rightarrow> nat" where
  "intent_answer s (IRegister iid mid u d) = 0"
| "intent_answer s (IRevoke mid) = snd (mark_revoked mid s)"
| "intent_answer s (ICancelUser u) = snd (mark_cancelled u s)"
| "intent_answer s (ICancelDevice d) = snd (mark_cancelled_by_device d None s)"
| "intent_answer s (ICancelMessageUser mid u) = snd (mark_cancelled_by_message_user mid u s)"

fun event_target :: "intent_event \<Rightarrow> intent \<Rightarrow> bool" where
  "event_target (IRegister iid mid u d) i = False"
| "event_target (IRevoke mid) i = (in_message i = mid)"
| "event_target (ICancelUser u) i = (in_user i = u)"
| "event_target (ICancelDevice d) i = (d \<noteq> [] \<and> in_device i = d)"
| "event_target (ICancelMessageUser mid u) i = (in_message i = mid \<and> in_user i = u)"

fun spec_step :: "intent_table \<Rightarrow> intent_event \<Rightarrow> intent_table" where
  "spec_step t (IRegister iid mid u d) = spec_register iid mid u d t"
| "spec_step t (IRevoke mid) = spec_mark Revoked (event_target (IRevoke mid)) t"
| "spec_step t e = spec_mark Cancelled (event_target e) t"

text \<open>Intent ids are fresh random UUIDs.\<close>

fun fresh_ok :: "intent_table \<Rightarrow> intent_event \<Rightarrow> bool" where
  "fresh_ok t (IRegister iid mid u d) = (fmlookup t iid = None)"
| "fresh_ok t _ = True"

section \<open>The simulation\<close>

definition indexed_by :: "('k, string list) fmap \<Rightarrow> (intent \<Rightarrow> 'k \<Rightarrow> bool) \<Rightarrow> intent_table \<Rightarrow> bool" where
  "indexed_by ix key t \<longleftrightarrow>
     (\<forall>k iid. iid \<in> set (fm_get_or [] k ix) \<longleftrightarrow> (\<exists>i. fmlookup t iid = Some i \<and> key i k))"

definition represents :: "intent_state_manager \<Rightarrow> intent_table \<Rightarrow> bool" where
  "represents s t \<longleftrightarrow>
     (\<forall>iid. fmlookup (intent_status_map s) iid = map_option in_status (fmlookup t iid)) \<and>
     indexed_by (intent_by_message s) (\<lambda>i k. in_message i = k) t \<and>
     indexed_by (intents_by_user s) (\<lambda>i k. in_user i = k) t \<and>
     indexed_by (intents_by_device s) (\<lambda>i k. k \<noteq> [] \<and> in_device i = k) t"

lemma set_push_entry: "set (fm_get_or [] k (push_entry k' x m)) = (if k = k' then {x} else {}) \<union> set (fm_get_or [] k m)"
  by (auto simp: push_entry_def)

lemma represents_register:
  "represents s t \<Longrightarrow> fmlookup t iid = None \<Longrightarrow>
     represents (register_device_intent iid mid u d s) (spec_register iid mid u d t)"
  by (auto simp: represents_def register_device_intent_def spec_register_def indexed_by_def set_push_entry
        split: if_splits)

lemma lookup_mark_pending:
  "new \<noteq> Pending \<Longrightarrow> fmlookup (fst (mark_pending new iids m)) x =
     (if x \<in> set iids \<and> fmlookup m x = Some Pending then Some new else fmlookup m x)"
  by (induction iids arbitrary: m) (auto simp: Let_def case_prod_beta)

lemma count_mark_pending:
  assumes "new \<noteq> Pending"
  shows "snd (mark_pending new iids m) = card {x \<in> set iids. fmlookup m x = Some Pending}"
proof (induction iids arbitrary: m)
  case (Cons y iids)
  show ?case
  proof (cases "fmlookup m y = Some Pending")
    case True
    let ?A = "{x \<in> set iids. fmlookup (fmupd y new m) x = Some Pending}"
    have "{x \<in> set (y # iids). fmlookup m x = Some Pending} = insert y ?A" "y \<notin> ?A"
      using True assms by auto
    with True Cons.IH [of "fmupd y new m"] show ?thesis by (simp add: Let_def case_prod_beta)
  next
    case False
    then have "{x \<in> set (y # iids). fmlookup m x = Some Pending} = {x \<in> set iids. fmlookup m x = Some Pending}"
      by auto
    with False Cons.IH [of m] show ?thesis by simp
  qed
qed simp

text \<open>Marking a list of ids is marking the intents it lists.\<close>

lemma represents_mark:
  assumes r: "represents s t" and new: "new \<noteq> Pending"
    and ids: "\<And>iid. iid \<in> set iids \<longleftrightarrow> (\<exists>i. fmlookup t iid = Some i \<and> P i)"
    and P: "\<And>i st. P (i\<lparr>in_status := st\<rparr>) = P i"
  shows "represents (fst (mark_ids new iids s)) (spec_mark new P t) \<and> snd (mark_ids new iids s) = spec_count P t"
proof -
  have st: "fmlookup (intent_status_map (fst (mark_ids new iids s))) x =
      map_option in_status (fmlookup (spec_mark new P t) x)" for x
    using r new ids [of x]
    by (cases "fmlookup t x")
       (auto simp: mark_ids_def Let_def case_prod_beta lookup_mark_pending represents_def spec_mark_def)
  have same: "indexed_by ix key (spec_mark new P t) = indexed_by ix key t"
    if "\<And>i k st. key (i\<lparr>in_status := st\<rparr>) k = key i k" for ix :: "('k, string list) fmap" and key
  proof -
    have "(\<exists>i. fmlookup (spec_mark new P t) iid = Some i \<and> key i k) \<longleftrightarrow>
        (\<exists>i. fmlookup t iid = Some i \<and> key i k)" for iid k
      using that by (cases "fmlookup t iid") (simp_all add: spec_mark_def)
    then show ?thesis by (simp add: indexed_by_def)
  qed
  have "{x \<in> set iids. fmlookup (intent_status_map s) x = Some Pending} =
      {iid. \<exists>i. fmlookup t iid = Some i \<and> P i \<and> in_status i = Pending}"
    using r ids by (auto simp: represents_def)
  moreover have "snd (mark_ids new iids s) = card {x \<in> set iids. fmlookup (intent_status_map s) x = Some Pending}"
    using new by (cases "iids = []") (simp_all add: mark_ids_def Let_def case_prod_beta count_mark_pending)
  ultimately have "snd (mark_ids new iids s) = spec_count P t" by (simp add: spec_count_def)
  moreover have "represents (fst (mark_ids new iids s)) (spec_mark new P t)"
    using r st by (simp add: represents_def same) (auto simp: mark_ids_def Let_def case_prod_beta)
  ultimately show ?thesis by blast
qed

lemma represents_new: "represents new_intent_state fmempty"
  by (simp add: represents_def new_intent_state_def indexed_by_def)

lemma represents_step:
  assumes r: "represents s t" and ok: "fresh_ok t e"
  shows "represents (intent_step s e) (spec_step t e) \<and>
         intent_answer s e = (case e of IRegister _ _ _ _ \<Rightarrow> 0 | _ \<Rightarrow> spec_count (event_target e) t)"
proof (cases e)
  case (IRegister iid mid u d)
  with r ok show ?thesis by (simp add: represents_register)
next
  case (IRevoke mid)
  have "iid \<in> set (fm_get_or [] mid (intent_by_message s)) \<longleftrightarrow>
      (\<exists>i. fmlookup t iid = Some i \<and> event_target e i)" for iid
    using r IRevoke by (simp add: represents_def indexed_by_def)
  then have "represents (fst (mark_ids Revoked (fm_get_or [] mid (intent_by_message s)) s)) (spec_mark Revoked (event_target e) t) \<and>
      snd (mark_ids Revoked (fm_get_or [] mid (intent_by_message s)) s) = spec_count (event_target e) t"
    by (intro represents_mark [OF r]) (simp_all add: IRevoke)
  then show ?thesis using IRevoke by (simp add: mark_revoked_def)
next
  case (ICancelUser u)
  have "iid \<in> set (fm_get_or [] u (intents_by_user s)) \<longleftrightarrow>
      (\<exists>i. fmlookup t iid = Some i \<and> event_target e i)" for iid
    using r ICancelUser by (simp add: represents_def indexed_by_def)
  then have "represents (fst (mark_ids Cancelled (fm_get_or [] u (intents_by_user s)) s)) (spec_mark Cancelled (event_target e) t) \<and>
      snd (mark_ids Cancelled (fm_get_or [] u (intents_by_user s)) s) = spec_count (event_target e) t"
    by (intro represents_mark [OF r]) (simp_all add: ICancelUser)
  then show ?thesis using ICancelUser by (simp add: mark_cancelled_def)
next
  case (ICancelDevice d)
  have "iid \<in> set (fm_get_or [] d (intents_by_device s)) \<longleftrightarrow>
      (\<exists>i. fmlookup t iid = Some i \<and> event_target e i)" for iid
    using r ICancelDevice by (simp add: represents_def indexed_by_def)
  then have "represents (fst (mark_ids Cancelled (fm_get_or [] d (intents_by_device s)) s)) (spec_mark Cancelled (event_target e) t) \<and>
      snd (mark_ids Cancelled (fm_get_or [] d (intents_by_device s)) s) = spec_count (event_target e) t"
    by (intro represents_mark [OF r]) (simp_all add: ICancelDevice)
  then show ?thesis using ICancelDevice by (simp add: mark_cancelled_by_device_def)
next
  case (ICancelMessageUser mid u)
  have "iid \<in> set (filter (\<lambda>iid. iid \<in> set (fm_get_or [] u (intents_by_user s))) (fm_get_or [] mid (intent_by_message s))) \<longleftrightarrow>
      (\<exists>i. fmlookup t iid = Some i \<and> event_target e i)" for iid
    using r ICancelMessageUser by (auto simp: represents_def indexed_by_def)
  then have "represents (fst (mark_cancelled_by_message_user mid u s)) (spec_mark Cancelled (event_target e) t) \<and>
      snd (mark_cancelled_by_message_user mid u s) = spec_count (event_target e) t"
    unfolding mark_cancelled_by_message_user_def Let_def
    by (intro represents_mark [OF r]) (simp_all add: ICancelMessageUser)
  then show ?thesis using ICancelMessageUser by simp
qed

lemma represents_run:
  "represents s t \<Longrightarrow> admissible fresh_ok spec_step t es \<Longrightarrow>
     represents (run intent_step s es) (run spec_step t es)"
  by (induction es arbitrary: s t) (auto simp: represents_step)

lemma admissible_prefix_step:
  "admissible fresh_ok spec_step t (es @ [e]) \<Longrightarrow> fresh_ok (run spec_step t es) e"
  by (simp add: admissible_append)

text \<open>
  C16. The indexed intent manager implements the table of intents. For every sequence of calls in
  which registered ids are fresh, the status of every intent is the one in the table, and a recall
  or cancellation affects and counts exactly the pending intents it names: those of the message, of
  the user, of the device, or, when a message reached a user over the long connection, those of that
  message for that user only.
\<close>

theorem intent_manager_refines_table:
  assumes adm: "admissible fresh_ok spec_step fmempty (es @ [e])"
  shows "get_status iid (run intent_step new_intent_state (es @ [e])) =
           map_option in_status (fmlookup (run spec_step fmempty (es @ [e])) iid) \<and>
         intent_answer (run intent_step new_intent_state es) e =
           (case e of IRegister _ _ _ _ \<Rightarrow> 0
            | _ \<Rightarrow> spec_count (event_target e) (run spec_step fmempty es))"
proof -
  have r: "represents (run intent_step new_intent_state es) (run spec_step fmempty es)"
    using adm by (intro represents_run represents_new) (simp add: admissible_append)
  from represents_step [OF r admissible_prefix_step [OF adm]]
  show ?thesis by (simp add: run_append get_status_def represents_def)
qed

theorem intent_manager_refines_table_witness:
  "get_status ''a'' (run intent_step new_intent_state
     [IRegister ''a'' 100 52 [], IRegister ''b'' 200 52 [], IRegister ''c'' 100 99 [], ICancelMessageUser 100 52]) = Some Cancelled \<and>
   get_status ''b'' (run intent_step new_intent_state
     [IRegister ''a'' 100 52 [], IRegister ''b'' 200 52 [], IRegister ''c'' 100 99 [], ICancelMessageUser 100 52]) = Some Pending"
proof -
  let ?es = "[IRegister ''a'' 100 52 [], IRegister ''b'' 200 52 [], IRegister ''c'' 100 99 []]"
  have adm: "admissible fresh_ok spec_step fmempty (?es @ [ICancelMessageUser 100 52])"
    by (simp add: spec_register_def)
  show ?thesis
    using intent_manager_refines_table [OF adm, of "''a''"] intent_manager_refines_table [OF adm, of "''b''"]
    by (simp add: spec_register_def spec_mark_def)
qed

text \<open>An intent that is no longer pending keeps its status, and the table never forgets one.\<close>

lemma spec_final:
  assumes "fmlookup t iid = Some i" "in_status i \<noteq> Pending" "fresh_ok t e"
  shows "fmlookup (spec_step t e) iid = Some i"
  using assms by (cases e) (auto simp: spec_register_def spec_mark_def)

lemma spec_final_run:
  "fmlookup t iid = Some i \<Longrightarrow> in_status i \<noteq> Pending \<Longrightarrow> admissible fresh_ok spec_step t es \<Longrightarrow>
     fmlookup (run spec_step t es) iid = Some i"
  by (induction es arbitrary: t) (auto simp: spec_final)

text \<open>
  C17. A recalled or cancelled push is never sent later: once the status of an intent has left
  \<open>Pending\<close>, no sequence of further calls with fresh ids changes it.
\<close>

theorem intent_decision_is_final:
  assumes adm: "admissible fresh_ok spec_step fmempty (es @ es')"
    and st: "get_status iid (run intent_step new_intent_state es) = Some st" "st \<noteq> Pending"
  shows "get_status iid (run intent_step new_intent_state (es @ es')) = Some st"
proof -
  let ?t = "run spec_step fmempty es"
  have r: "represents (run intent_step new_intent_state es) ?t"
    using adm by (intro represents_run represents_new) (simp add: admissible_append)
  then obtain i where i: "fmlookup ?t iid = Some i" "in_status i = st"
    using st by (auto simp: represents_def get_status_def)
  have adm': "admissible fresh_ok spec_step ?t es'" using adm by (simp add: admissible_append)
  with i st(2) have "fmlookup (run spec_step ?t es') iid = Some i" by (auto intro: spec_final_run)
  with represents_run [OF r adm'] i show ?thesis by (simp add: run_append represents_def get_status_def)
qed

theorem intent_decision_is_final_witness:
  "get_status ''a'' (run intent_step new_intent_state
     ([IRegister ''a'' 100 52 [], IRevoke 100] @ [ICancelUser 52, IRegister ''b'' 100 52 []])) = Some Revoked"
proof (rule intent_decision_is_final)
  show "admissible fresh_ok spec_step fmempty
      ([IRegister ''a'' 100 52 [], IRevoke 100] @ [ICancelUser 52, IRegister ''b'' 100 52 []])"
    by (simp add: spec_register_def spec_mark_def)
  show "get_status ''a'' (run intent_step new_intent_state [IRegister ''a'' 100 52 [], IRevoke 100]) = Some Revoked"
    by (simp add: get_status_def register_device_intent_def mark_revoked_def mark_ids_def push_entry_def new_intent_state_def)
qed simp

text \<open>No call ever records that a push was sent or is being processed.\<close>

lemma never_marked_sent:
  "admissible fresh_ok spec_step fmempty es \<Longrightarrow>
     get_status iid (run intent_step new_intent_state es) \<notin> {Some Sent, Some Processing}"
proof -
  assume adm: "admissible fresh_ok spec_step fmempty es"
  have "\<forall>i. fmlookup (run spec_step fmempty es) iid = Some i \<longrightarrow> in_status i \<in> {Pending, Cancelled, Revoked}"
  proof (induction es rule: rev_induct)
    case (snoc e es)
    then show ?case by (cases e) (auto simp: run_append spec_register_def spec_mark_def split: if_splits)
  qed simp
  with represents_run [OF represents_new adm] show ?thesis
    by (auto simp: represents_def get_status_def)
qed

lemma users_with_intents:
  assumes "represents s t"
  shows "set (users_with_intents_for_message mid s) = {u. \<exists>iid i. fmlookup t iid = Some i \<and> in_message i = mid \<and> in_user i = u}"
    and "distinct (users_with_intents_for_message mid s)"
proof -
  let ?ids = "fm_get_or [] mid (intent_by_message s)"
  have ids: "iid \<in> set ?ids \<longleftrightarrow> (\<exists>i. fmlookup t iid = Some i \<and> in_message i = mid)" for iid
    using assms by (simp add: represents_def indexed_by_def)
  have user: "iid \<in> set (fm_get_or [] u (intents_by_user s)) \<longleftrightarrow> (\<exists>i. fmlookup t iid = Some i \<and> in_user i = u)" for iid u
    using assms by (simp add: represents_def indexed_by_def)
  have "set (users_with_intents_for_message mid s) = {u. \<exists>iid. iid \<in> set ?ids \<and> iid \<in> set (fm_get_or [] u (intents_by_user s))}"
    by (force simp: users_with_intents_for_message_def Let_def set_fm_entries list_ex_iff fm_get_or_def
          split: option.splits)
  then show "set (users_with_intents_for_message mid s) = {u. \<exists>iid i. fmlookup t iid = Some i \<and> in_message i = mid \<and> in_user i = u}"
    unfolding ids user by fastforce
  show "distinct (users_with_intents_for_message mid s)"
    by (simp add: users_with_intents_for_message_def Let_def distinct_fm_entries distinct_map_filter
          remdups_adj_distinct)
qed

end
