(* ===== verification/ClientState.thy ===== *)
theory ClientState
  imports Prelude
begin

text \<open>
  The penalty state machine for misbehaving clients, \<open>security/client_state.rs\<close>: client states and
  what they permit, the trust score of a device, and the manager that escalates on violations. Times
  are milliseconds. The rate multiplier is an \<open>f64\<close> constant; the model has its exact value (0.8
  is the nearest double).
\<close>

section \<open>States\<close>

datatype client_state = Normal | Throttled | WriteDisabled | ShadowBanned | Disconnected

definition can_send_message :: "client_state \<Rightarrow> bool" where
  "can_send_message st \<longleftrightarrow> st = Normal \<or> st = Throttled \<or> st = ShadowBanned"

definition can_write_rpc :: "client_state \<Rightarrow> bool" where
  "can_write_rpc st \<longleftrightarrow> st = Normal \<or> st = Throttled \<or> st = ShadowBanned"

definition can_read_rpc :: "client_state \<Rightarrow> bool" where
  "can_read_rpc st \<longleftrightarrow> st \<noteq> Disconnected"

definition should_silent_drop :: "client_state \<Rightarrow> bool" where
  "should_silent_drop st \<longleftrightarrow> st = ShadowBanned"

definition get_throttle_delay :: "client_state \<Rightarrow> time option" where
  "get_throttle_delay st = (if st = Throttled then Some 500 else None)"

datatype violation_type =
    RateLimit | AuthFailed | MalformedRequest | SuspiciousActivity | ProtocolAttack | Spam | FanoutAbuse

record state_transition =
  st_from :: client_state
  st_to :: client_state
  st_reason :: violation_type
  st_duration :: "time option"

section \<open>Trust\<close>

record violation_record =
  vr_violation_type :: violation_type
  vr_timestamp :: time
  vr_penalty :: u32

record trust_score =
  ts_user_id :: user_id
  ts_device_id :: device_id
  ts_score :: u32
  ts_account_age_days :: u32
  ts_violations :: "violation_record list"
  ts_last_updated :: time

definition new_trust_score :: "time \<Rightarrow> user_id \<Rightarrow> device_id \<Rightarrow> trust_score" where
  "new_trust_score now u d =
     \<lparr>ts_user_id = u, ts_device_id = d, ts_score = 100, ts_account_age_days = 0, ts_violations = [],
      ts_last_updated = now\<rparr>"

definition get_rate_multiplier :: "trust_score \<Rightarrow> rat" where
  "get_rate_multiplier t =
     (let score = ts_score t
      in if score \<le> 100 then 1 / 2
         else if score \<le> 300 then 3602879701896397 / 4503599627370496
         else if score \<le> 600 then 1
         else if score \<le> 800 then 3 / 2
         else if score \<le> 1000 then 2
         else 1)"

fun penalty_of :: "violation_type \<Rightarrow> u32" where
  "penalty_of RateLimit = 5"
| "penalty_of AuthFailed = 10"
| "penalty_of MalformedRequest = 20"
| "penalty_of SuspiciousActivity = 30"
| "penalty_of ProtocolAttack = 100"
| "penalty_of Spam = 50"
| "penalty_of FanoutAbuse = 40"

definition record_violation :: "time \<Rightarrow> violation_type \<Rightarrow> trust_score \<Rightarrow> trust_score" where
  "record_violation now v t =
     (let vs = ts_violations t @ [\<lparr>vr_violation_type = v, vr_timestamp = now, vr_penalty = penalty_of v\<rparr>]
      in t\<lparr>ts_score := saturating_sub (ts_score t) (penalty_of v),
           ts_violations := (if 100 < length vs then drop (length vs - 100) vs else vs),
           ts_last_updated := now\<rparr>)"

definition reward_good_behavior :: "time \<Rightarrow> u32 \<Rightarrow> trust_score \<Rightarrow> trust_score" where
  "reward_good_behavior now points t =
     t\<lparr>ts_score := min (ts_score t + points) 1000, ts_last_updated := now\<rparr>"

definition daily_recovery :: "trust_score \<Rightarrow> trust_score" where
  "daily_recovery t = (if ts_score t < 500 then t\<lparr>ts_score := min (ts_score t + 10) 500\<rparr> else t)"

section \<open>The manager\<close>

record client_state_manager =
  cs_state :: client_state
  cs_trust_score :: trust_score
  cs_state_history :: "state_transition list"
  cs_state_expiry :: "time option"

definition new_client_state_manager :: "time \<Rightarrow> user_id \<Rightarrow> device_id \<Rightarrow> client_state_manager" where
  "new_client_state_manager now u d =
     \<lparr>cs_state = Normal, cs_trust_score = new_trust_score now u d, cs_state_history = [], cs_state_expiry = None\<rparr>"

definition current_state :: "time \<Rightarrow> client_state_manager \<Rightarrow> client_state" where
  "current_state now m =
     (case cs_state_expiry m of
        Some expiry \<Rightarrow> if expiry \<le> now then Normal else cs_state m
      | None \<Rightarrow> cs_state m)"

definition transition_to ::
  "time \<Rightarrow> client_state \<Rightarrow> violation_type \<Rightarrow> time option \<Rightarrow> client_state_manager \<Rightarrow> client_state_manager" where
  "transition_to now st reason duration m =
     m\<lparr>cs_state := st,
       cs_state_history := cs_state_history m @
         [\<lparr>st_from = cs_state m, st_to = st, st_reason = reason, st_duration = duration\<rparr>],
       cs_state_expiry := map_option (\<lambda>d. now + d) duration,
       cs_trust_score := record_violation now reason (cs_trust_score m)\<rparr>"

definition escalation :: "client_state \<Rightarrow> violation_type \<Rightarrow> client_state \<times> time" where
  "escalation current v =
     (if current = Normal \<and> v = RateLimit then (Throttled, 60000)
      else if current = Throttled \<and> v = RateLimit then (WriteDisabled, 300000)
      else if current = WriteDisabled then (ShadowBanned, 3600000)
      else if v = ProtocolAttack then (Disconnected, 1800000)
      else if v = Spam then (ShadowBanned, 7200000)
      else (Throttled, 30000))"

definition auto_escalate :: "time \<Rightarrow> violation_type \<Rightarrow> client_state_manager \<Rightarrow> client_state_manager" where
  "auto_escalate now v m =
     (let (st, duration) = escalation (current_state now m) v in transition_to now st v (Some duration) m)"

section \<open>Trust stays in range\<close>

datatype trust_event = TViolation time violation_type | TReward time u32 | TDaily

fun trust_step :: "trust_score \<Rightarrow> trust_event \<Rightarrow> trust_score" where
  "trust_step t (TViolation now v) = record_violation now v t"
| "trust_step t (TReward now points) = reward_good_behavior now points t"
| "trust_step t TDaily = daily_recovery t"

definition trust_inv :: "trust_score \<Rightarrow> bool" where
  "trust_inv t \<longleftrightarrow> ts_score t \<le> 1000 \<and> length (ts_violations t) \<le> 100"

lemma saturating_sub_le: "saturating_sub a b \<le> (a :: 'a::len word)"
  by (simp add: word_le_nat_alt unat_saturating_sub)

lemma trust_inv_step: "trust_inv t \<Longrightarrow> trust_inv (trust_step t e)"
  by (cases e)
     (auto simp: trust_inv_def record_violation_def reward_good_behavior_def daily_recovery_def Let_def
        intro: order_trans [OF saturating_sub_le] order_trans [of _ 500])

interpretation trust_system: invariant_system "new_trust_score now u d" trust_step "\<lambda>_ _. True" trust_inv
proof
  show "trust_inv (new_trust_score now u d)" by (simp add: trust_inv_def new_trust_score_def)
qed (rule trust_inv_step)

text \<open>A penalty is never a gain, a daily recovery never a loss and never beyond 500.\<close>

lemma violation_score: "unat (ts_score (record_violation now v t)) = unat (ts_score t) - unat (penalty_of v)"
  by (simp add: record_violation_def Let_def unat_saturating_sub)

lemma daily_recovery_score:
  "trust_inv t \<Longrightarrow> ts_score t \<le> ts_score (daily_recovery t) \<and> (500 \<le> ts_score t \<or> ts_score (daily_recovery t) \<le> 500)"
  by (auto simp: daily_recovery_def trust_inv_def min_def word_le_nat_alt word_less_nat_alt unat_word_ariths)


section \<open>Escalation\<close>

fun severity :: "client_state \<Rightarrow> nat" where
  "severity Normal = 0"
| "severity Throttled = 1"
| "severity WriteDisabled = 2"
| "severity ShadowBanned = 3"
| "severity Disconnected = 4"

lemma current_after_transition:
  "0 < d \<Longrightarrow> current_state now (transition_to now st v (Some d) m) = st"
  by (simp add: current_state_def transition_to_def)

lemma escalation_positive: "0 < snd (escalation st v)"
  by (simp add: escalation_def)

lemma current_after_escalate:
  "current_state now (auto_escalate now v m) = fst (escalation (current_state now m) v)"
  using escalation_positive [of "current_state now m" v]
  by (simp add: auto_escalate_def case_prod_beta current_after_transition)

text \<open>
  A violation lowers the penalty of exactly those who are punished hardest: for a client that
  is normal, throttled or write-disabled no violation ever lowers the severity of its state, but a
  shadow-banned client commits any violation other than a protocol attack or spam, and a
  disconnected one any other than a protocol attack, and is put back to a milder state.
\<close>

theorem violation_lowers_penalty_iff:
  "severity (current_state now (auto_escalate now v m)) < severity (current_state now m) \<longleftrightarrow>
     current_state now m = ShadowBanned \<and> v \<noteq> ProtocolAttack \<and> v \<noteq> Spam \<or>
     current_state now m = Disconnected \<and> v \<noteq> ProtocolAttack"
  by (cases "current_state now m"; cases v) (simp_all add: current_after_escalate escalation_def)

text \<open>
  In particular a rate-limit violation of a shadow-banned or disconnected client makes it a
  throttled one, which recovers fully after 30 seconds.
\<close>

lemma ban_lifted_by_violation:
  "current_state now m \<in> {ShadowBanned, Disconnected} \<Longrightarrow>
     current_state now (auto_escalate now RateLimit m) = Throttled \<and>
     current_state (now + 30000) (auto_escalate now RateLimit m) = Normal"
  by (auto simp: auto_escalate_def escalation_def transition_to_def) (auto simp: current_state_def)

text \<open>A protocol attack of a write-disabled client does not disconnect it.\<close>

lemma attack_while_write_disabled:
  "current_state now m = WriteDisabled \<Longrightarrow> current_state now (auto_escalate now ProtocolAttack m) = ShadowBanned"
  by (simp add: current_after_escalate escalation_def)

end
