(* ===== verification/ServerErrors.thy ===== *)
theory ServerErrors
  imports Prelude "HOL-Library.Sublist"
begin

text \<open>
  \<open>error.rs\<close>: the server's error type, its protocol code and HTTP status, and the
  tags in a message text that refine the protocol code; \<open>rpc/error.rs\<close>: the error of a remote
  call and the conversion of a server error into one. Message texts that are not ASCII or only
  repeat a lower-level error are empty where the components of this development raise them; nothing
  inspects them except \<open>subcode_from_message\<close>, whose tags are ASCII.
\<close>

section \<open>Errors and codes\<close>

text \<open>The protocol crate's error codes the source names.\<close>

datatype protocol_code =
    InternalError | AuthRequired | PPermissionDenied | InvalidParams | PUserNotFound | PChannelNotFound
  | PMessageNotFound | OperationNotAllowed | DatabaseError | NetworkError | EncodingError | CacheError
  | RateLimitExceeded | ConcurrentLimitExceeded | PTimeout | OperationConflict | PServiceUnavailable
  | VersionError | SystemError | PInvalidToken | PTokenExpired | PTokenRevoked | ProtocolError
  | ResourceNotFound | RefreshTokenExpired | MissingRequiredParam | InvalidFormat
  | SyncChannelResyncRequired | SyncEntityResyncRequired | SyncFullRebuildRequired
  | MemberMutedCode | GroupMutedCode | BlockedByUser | UserInBlacklist | FriendNotFound
  | ProfileViewGrantExpired | GroupAddFriendDisabled | GroupAddFriendPersonalDisabled | PAlreadyFriends
  | UploadSessionGone | UploadSessionBusy | UploadSessionCompleted | UploadChunkNotAligned
  | UploadChunkChecksumMismatch | UploadRangeOverlap | UploadMissingRanges | UploadModeConflict
  | UploadRestartRequired

datatype server_error =
    Coded protocol_code nat string
  | Internal string
  | Authentication string
  | Authorization string
  | Validation string
  | UserNotFound string
  | ChannelNotFound string
  | MessageNotFound string
  | NotInChannel string
  | Database string
  | Network string
  | Serialization string
  | Configuration string
  | Cache string
  | RateLimit string
  | ResourceExhausted string
  | Timeout string
  | Unsupported string
  | InvalidRequest string
  | Duplicate string
  | PermissionDenied string
  | ServiceUnavailable string
  | VersionMismatch string
  | Unknown string
  | InvalidToken
  | TokenExpired
  | TokenRevoked
  | Unauthorized string
  | Protocol string
  | BadRequest string
  | NotFound string
  | Forbidden string
  | InvalidDeviceId
  | InvalidDeviceType
  | DuplicateEntry string
  | PushTokenInvalid string
  | ChannelResyncRequired string
  | EntityResyncRequired string
  | FullRebuildRequired string

definition strip_prefix :: "string \<Rightarrow> string \<Rightarrow> string option" where
  "strip_prefix p s = (if prefix p s then Some (drop (length p) s) else None)"

definition subcode_from_message :: "string \<Rightarrow> protocol_code option" where
  "subcode_from_message msg =
     (let trimmed = (case strip_prefix ''Validation error: '' msg of
                       Some t \<Rightarrow> t
                     | None \<Rightarrow> (case strip_prefix ''Not found: '' msg of
                                  Some t \<Rightarrow> t
                                | None \<Rightarrow> (case strip_prefix ''Duplicate entry: '' msg of
                                             Some t \<Rightarrow> t
                                           | None \<Rightarrow> msg)))
      in if prefix ''REFRESH_SESSION_INVALID'' trimmed then Some RefreshTokenExpired
         else if prefix ''INVALID_USER_IDENTITY'' trimmed then Some MissingRequiredParam
         else if prefix ''INVALID_PHONE_FORMAT'' trimmed then Some InvalidFormat
         else if prefix ''USER_NOT_FOUND'' trimmed then Some PUserNotFound
         else if prefix ''IDENTITY_CONFLICT'' trimmed then Some OperationConflict
         else if prefix ''ATTACHMENT_BINDING_REJECTED'' trimmed then Some OperationConflict
         else None)"

definition subcode_or :: "protocol_code \<Rightarrow> string \<Rightarrow> protocol_code" where
  "subcode_or d msg = (case subcode_from_message msg of Some c \<Rightarrow> c | None \<Rightarrow> d)"

fun protocol_code_of :: "server_error \<Rightarrow> protocol_code" where
  "protocol_code_of (Coded code _ _) = code"
| "protocol_code_of (Internal _) = InternalError"
| "protocol_code_of (Authentication _) = AuthRequired"
| "protocol_code_of (Authorization _) = PPermissionDenied"
| "protocol_code_of (Validation msg) = subcode_or InvalidParams msg"
| "protocol_code_of (UserNotFound _) = PUserNotFound"
| "protocol_code_of (ChannelNotFound _) = PChannelNotFound"
| "protocol_code_of (MessageNotFound _) = PMessageNotFound"
| "protocol_code_of (NotInChannel _) = OperationNotAllowed"
| "protocol_code_of (Database _) = DatabaseError"
| "protocol_code_of (Network _) = NetworkError"
| "protocol_code_of (Serialization _) = EncodingError"
| "protocol_code_of (Configuration _) = InternalError"
| "protocol_code_of (Cache _) = CacheError"
| "protocol_code_of (RateLimit _) = RateLimitExceeded"
| "protocol_code_of (ResourceExhausted _) = ConcurrentLimitExceeded"
| "protocol_code_of (Timeout _) = PTimeout"
| "protocol_code_of (Unsupported _) = OperationNotAllowed"
| "protocol_code_of (InvalidRequest _) = InvalidParams"
| "protocol_code_of (Duplicate _) = OperationConflict"
| "protocol_code_of (PermissionDenied _) = PPermissionDenied"
| "protocol_code_of (ServiceUnavailable _) = PServiceUnavailable"
| "protocol_code_of (VersionMismatch _) = VersionError"
| "protocol_code_of (Unknown _) = SystemError"
| "protocol_code_of InvalidToken = PInvalidToken"
| "protocol_code_of TokenExpired = PTokenExpired"
| "protocol_code_of TokenRevoked = PTokenRevoked"
| "protocol_code_of (Unauthorized msg) = subcode_or AuthRequired msg"
| "protocol_code_of (Protocol _) = ProtocolError"
| "protocol_code_of (BadRequest _) = InvalidParams"
| "protocol_code_of (NotFound msg) = subcode_or ResourceNotFound msg"
| "protocol_code_of (Forbidden _) = PPermissionDenied"
| "protocol_code_of InvalidDeviceId = InvalidParams"
| "protocol_code_of InvalidDeviceType = InvalidParams"
| "protocol_code_of (DuplicateEntry msg) = subcode_or OperationConflict msg"
| "protocol_code_of (PushTokenInvalid _) = InternalError"
| "protocol_code_of (ChannelResyncRequired _) = SyncChannelResyncRequired"
| "protocol_code_of (EntityResyncRequired _) = SyncEntityResyncRequired"
| "protocol_code_of (FullRebuildRequired _) = SyncFullRebuildRequired"

text \<open>\<open>StatusCode::from_u16\<close> accepts 100 to 999.\<close>

fun http_status :: "server_error \<Rightarrow> nat" where
  "http_status (Coded _ status _) = (if 100 \<le> status \<and> status \<le> 999 then status else 400)"
| "http_status (Authentication _) = 401"
| "http_status InvalidToken = 401"
| "http_status TokenExpired = 401"
| "http_status TokenRevoked = 401"
| "http_status (Unauthorized _) = 401"
| "http_status (Authorization _) = 403"
| "http_status (PermissionDenied _) = 403"
| "http_status (Forbidden _) = 403"
| "http_status (NotInChannel _) = 403"
| "http_status (Unsupported _) = 403"
| "http_status (Validation _) = 400"
| "http_status (InvalidRequest _) = 400"
| "http_status (BadRequest _) = 400"
| "http_status InvalidDeviceId = 400"
| "http_status InvalidDeviceType = 400"
| "http_status (VersionMismatch _) = 400"
| "http_status (UserNotFound _) = 404"
| "http_status (ChannelNotFound _) = 404"
| "http_status (MessageNotFound _) = 404"
| "http_status (NotFound _) = 404"
| "http_status (Duplicate _) = 409"
| "http_status (DuplicateEntry _) = 409"
| "http_status (ChannelResyncRequired _) = 409"
| "http_status (EntityResyncRequired _) = 409"
| "http_status (FullRebuildRequired _) = 409"
| "http_status (RateLimit _) = 429"
| "http_status (ResourceExhausted _) = 429"
| "http_status (ServiceUnavailable _) = 503"
| "http_status (Timeout _) = 504"
| "http_status _ = 500"

section \<open>Errors of remote calls\<close>

record rpc_error =
  re_code :: protocol_code
  re_message :: string

definition rpc_from_code :: "protocol_code \<Rightarrow> string \<Rightarrow> rpc_error" where
  "rpc_from_code c msg = \<lparr>re_code = c, re_message = msg\<rparr>"

definition rpc_validation :: "string \<Rightarrow> rpc_error" where
  "rpc_validation msg = \<lparr>re_code = InvalidParams, re_message = msg\<rparr>"

definition rpc_unauthorized :: "string \<Rightarrow> rpc_error" where
  "rpc_unauthorized msg = \<lparr>re_code = AuthRequired, re_message = msg\<rparr>"

definition rpc_forbidden :: "string \<Rightarrow> rpc_error" where
  "rpc_forbidden msg = \<lparr>re_code = PPermissionDenied, re_message = msg\<rparr>"

definition rpc_not_found :: "string \<Rightarrow> rpc_error" where
  "rpc_not_found msg = \<lparr>re_code = ResourceNotFound, re_message = msg\<rparr>"

definition rpc_internal :: "string \<Rightarrow> rpc_error" where
  "rpc_internal msg = \<lparr>re_code = InternalError, re_message = msg\<rparr>"

fun rpc_of_server_error :: "server_error \<Rightarrow> rpc_error" where
  "rpc_of_server_error (Validation msg) = rpc_validation msg"
| "rpc_of_server_error (Authentication msg) = rpc_unauthorized msg"
| "rpc_of_server_error (Unauthorized msg) = rpc_unauthorized msg"
| "rpc_of_server_error (Authorization msg) = rpc_forbidden msg"
| "rpc_of_server_error (PermissionDenied msg) = rpc_forbidden msg"
| "rpc_of_server_error (UserNotFound msg) = rpc_from_code PUserNotFound msg"
| "rpc_of_server_error (NotFound msg) = rpc_not_found msg"
| "rpc_of_server_error (MessageNotFound msg) = rpc_from_code PMessageNotFound msg"
| "rpc_of_server_error (ChannelNotFound msg) = rpc_from_code PChannelNotFound msg"
| "rpc_of_server_error (ChannelResyncRequired msg) = rpc_from_code SyncChannelResyncRequired msg"
| "rpc_of_server_error (EntityResyncRequired msg) = rpc_from_code SyncEntityResyncRequired msg"
| "rpc_of_server_error (FullRebuildRequired msg) = rpc_from_code SyncFullRebuildRequired msg"
| "rpc_of_server_error (ServiceUnavailable msg) = rpc_from_code PServiceUnavailable msg"
| "rpc_of_server_error _ = rpc_internal []"

section \<open>Separation of codes\<close>

text \<open>
  A remote call reports the code of the error itself or, for the errors the conversion does not name,
  \<open>InternalError\<close>; it also drops the refinement that a tag in the text would give.
\<close>

lemma rpc_code_cases:
  "re_code (rpc_of_server_error e) = InternalError \<or>
   re_code (rpc_of_server_error e) = protocol_code_of e \<or>
   (\<exists>msg c. e \<in> {Validation msg, Unauthorized msg, NotFound msg} \<and> subcode_from_message msg = Some c)"
  by (cases e)
     (auto simp: rpc_validation_def rpc_unauthorized_def rpc_forbidden_def rpc_not_found_def
        rpc_internal_def rpc_from_code_def subcode_or_def split: option.splits)

lemma rpc_loses_forbidden:
  "protocol_code_of (Forbidden msg) = PPermissionDenied"
  "re_code (rpc_of_server_error (Forbidden msg)) = InternalError"
  by (simp_all add: rpc_internal_def)

text \<open>
  A user is logged out (\<open>RefreshTokenExpired\<close>) by an error that does not carry that code itself
  only if its message has the tag for it; in particular a plain 401 stays \<open>AuthRequired\<close>.
\<close>

lemma subcode_refresh:
  "subcode_from_message msg = Some RefreshTokenExpired \<Longrightarrow>
   \<exists>p. prefix (p @ ''REFRESH_SESSION_INVALID'') msg"
proof -
  assume a: "subcode_from_message msg = Some RefreshTokenExpired"
  have "prefix ''REFRESH_SESSION_INVALID'' msg \<or>
        (\<exists>p t. strip_prefix p msg = Some t \<and> prefix ''REFRESH_SESSION_INVALID'' t)"
    using a unfolding subcode_from_message_def Let_def
    by (auto split: option.splits if_splits)
  then show ?thesis
  proof
    assume "prefix ''REFRESH_SESSION_INVALID'' msg"
    then show ?thesis by (intro exI [of _ "[]"]) simp
  next
    assume "\<exists>p t. strip_prefix p msg = Some t \<and> prefix ''REFRESH_SESSION_INVALID'' t"
    then obtain p t where "prefix p msg" "t = drop (length p) msg" "prefix ''REFRESH_SESSION_INVALID'' t"
      by (auto simp: strip_prefix_def split: if_splits)
    then show ?thesis by (intro exI [of _ p]) (auto simp: prefix_def)
  qed
qed

lemma logout_needs_tag:
  assumes "protocol_code_of e = RefreshTokenExpired" "\<And>c n s. e \<noteq> Coded c n s"
  shows "\<exists>msg p. e \<in> {Validation msg, Unauthorized msg, NotFound msg, DuplicateEntry msg} \<and>
                 prefix (p @ ''REFRESH_SESSION_INVALID'') msg"
  using assms
  by (cases e) (auto simp: subcode_or_def split: option.splits dest: subcode_refresh)

end
