(* ===== verification/Friendship.thy ===== *)
theory Friendship
  imports Decimal ServerErrors "HOL-Library.Product_Lexorder"
begin

text \<open>
  \<open>service/friend_service.rs\<close>, \<open>service/blacklist_service.rs\<close> and \<open>model/friend.rs\<close>: friend
  requests, friendships and the blacklist. The two tables are finite maps from their primary keys;
  a key column keeps the 64 bits of the user id. Every statement sent to the database may fail: the
  argument \<open>up\<close> of an operation says for the \<open>k\<close>-th statement of the call whether it succeeds,
  and a failed statement of a transaction rolls it mirror.
\<close>

section \<open>The friendship table\<close>

datatype friendship_status = Pending | Accepted | Blocked | Rejected | Recalled | Expired

definition friendship_status_from_i16 :: "int \<Rightarrow> friendship_status" where
  "friendship_status_from_i16 v =
     (if v = 0 then Pending else if v = 1 then Accepted else if v = 2 then Blocked
      else if v = 3 then Rejected else if v = 4 then Recalled else if v = 5 then Expired else Pending)"

fun friendship_status_to_i16 :: "friendship_status \<Rightarrow> int" where
  "friendship_status_to_i16 Pending = 0"
| "friendship_status_to_i16 Accepted = 1"
| "friendship_status_to_i16 Blocked = 2"
| "friendship_status_to_i16 Rejected = 3"
| "friendship_status_to_i16 Recalled = 4"
| "friendship_status_to_i16 Expired = 5"

definition is_terminal_non_friend :: "friendship_status \<Rightarrow> bool" where
  "is_terminal_non_friend st \<longleftrightarrow> st \<in> {Rejected, Recalled, Expired, Blocked}"

datatype friend_request_source =
    Search u64 | GroupSource u64 | CardShare u64 | Qrcode string | Phone string | Conversation u64

fun source_to_strings :: "friend_request_source option \<Rightarrow> string option \<times> string option" where
  "source_to_strings (Some (Search s)) = (Some ''search'', Some (to_string_u64 s))"
| "source_to_strings (Some (GroupSource g)) = (Some ''group'', Some (to_string_u64 g))"
| "source_to_strings (Some (CardShare s)) = (Some ''card_share'', Some (to_string_u64 s))"
| "source_to_strings (Some (Qrcode q)) = (Some ''qrcode'', Some q)"
| "source_to_strings (Some (Phone p)) = (Some ''phone'', Some p)"
| "source_to_strings (Some (Conversation c)) = (Some ''conversation'', Some (to_string_u64 c))"
| "source_to_strings None = (None, None)"

definition source_from_strings :: "string option \<Rightarrow> string option \<Rightarrow> friend_request_source option" where
  "source_from_strings source source_id =
     (case (source, source_id) of
        (Some src, Some i) \<Rightarrow>
          if src = ''search'' then map_option Search (parse_u64 i)
          else if src = ''group'' then map_option GroupSource (parse_u64 i)
          else if src = ''card_share'' then map_option CardShare (parse_u64 i)
          else if src = ''qrcode'' then Some (Qrcode i)
          else if src = ''phone'' then Some (Phone i)
          else None
      | _ \<Rightarrow> None)"

record friend_row =
  fr_status :: int
  fr_source :: "string option"
  fr_source_id :: "string option"
  fr_created_at :: time
  fr_updated_at :: time
  fr_request_message :: "string option"
  fr_sync_version :: int
  fr_alias :: "string option"

text \<open>The table and the last value of the sequence its \<open>sync_version\<close> column is drawn from.\<close>

record friend_db =
  fd_rows :: "(user_id \<times> user_id, friend_row) fmap"
  fd_seq :: int

definition empty_friend_db :: friend_db where
  "empty_friend_db = \<lparr>fd_rows = fmempty, fd_seq = 0\<rparr>"

text \<open>Writing a row draws a new version: the column default on insert, the trigger on update.\<close>

definition put_row :: "user_id \<times> user_id \<Rightarrow> friend_row \<Rightarrow> friend_db \<Rightarrow> friend_db" where
  "put_row k r db =
     (let v = fd_seq db + 1
      in \<lparr>fd_rows = fmupd k (r\<lparr>fr_sync_version := v\<rparr>) (fd_rows db), fd_seq = v\<rparr>)"

definition has_status :: "int \<Rightarrow> user_id \<Rightarrow> user_id \<Rightarrow> friend_db \<Rightarrow> bool" where
  "has_status st u v db \<longleftrightarrow> map_option fr_status (fmlookup (fd_rows db) (u, v)) = Some st"

section \<open>Requests\<close>

definition try_is_friend :: "bool \<Rightarrow> user_id \<Rightarrow> user_id \<Rightarrow> friend_db \<Rightarrow> (bool, server_error) result" where
  "try_is_friend up u v db =
     (if up then Ok (has_status 1 u v db \<or> has_status 1 v u db) else Err (Database []))"

definition is_friend :: "bool \<Rightarrow> user_id \<Rightarrow> user_id \<Rightarrow> friend_db \<Rightarrow> bool" where
  "is_friend up u v db = (case try_is_friend up u v db of Ok b \<Rightarrow> b | Err _ \<Rightarrow> False)"

definition try_friendship_removed :: "bool \<Rightarrow> user_id \<Rightarrow> user_id \<Rightarrow> friend_db \<Rightarrow> (bool, server_error) result" where
  "try_friendship_removed up u v db =
     (if up then Ok (has_status 2 u v db \<or> has_status 2 v u db) else Err (Database []))"

definition send_friend_request_with_source ::
  "(nat \<Rightarrow> bool) \<Rightarrow> time \<Rightarrow> user_id \<Rightarrow> user_id \<Rightarrow> string option \<Rightarrow> friend_request_source option \<Rightarrow> friend_db
     \<Rightarrow> friend_db \<times> (u64, server_error) result" where
  "send_friend_request_with_source up now from_uid to_uid message source db =
     (if from_uid = to_uid then (db, Err (Validation ''Cannot add yourself as friend''))
      else if is_friend (up 0) from_uid to_uid db then (db, Err (Duplicate ''Already friends''))
      else if \<not> up 1 then (db, Err (Database []))
      else let (src, src_id) = source_to_strings source;
               row = (case fmlookup (fd_rows db) (from_uid, to_uid) of
                        None \<Rightarrow> \<lparr>fr_status = 0, fr_source = src, fr_source_id = src_id, fr_created_at = now,
                                 fr_updated_at = now, fr_request_message = message, fr_sync_version = 0,
                                 fr_alias = None\<rparr>
                      | Some r \<Rightarrow> r\<lparr>fr_status := (if fr_status r = 1 then 1 else 0), fr_source := src,
                                   fr_source_id := src_id, fr_request_message := message, fr_updated_at := now\<rparr>)
           in (put_row (from_uid, to_uid) row db, Ok (word_of_int now)))"

definition send_friend_request ::
  "(nat \<Rightarrow> bool) \<Rightarrow> time \<Rightarrow> user_id \<Rightarrow> user_id \<Rightarrow> string option \<Rightarrow> friend_db \<Rightarrow> friend_db \<times> (u64, server_error) result" where
  "send_friend_request up now from_uid to_uid message db =
     send_friend_request_with_source up now from_uid to_uid message None db"

text \<open>\<open>UPDATE \<dots> SET status = st WHERE user_id = u AND friend_id = v AND status = 0\<close>.\<close>

definition close_pending :: "int \<Rightarrow> time \<Rightarrow> user_id \<Rightarrow> user_id \<Rightarrow> friend_db \<Rightarrow> friend_db \<times> bool" where
  "close_pending st now u v db =
     (case fmlookup (fd_rows db) (u, v) of
        Some r \<Rightarrow>
          if fr_status r = 0 then (put_row (u, v) (r\<lparr>fr_status := st, fr_updated_at := now\<rparr>) db, True)
          else (db, False)
      | None \<Rightarrow> (db, False))"

definition reject_friend_request ::
  "bool \<Rightarrow> time \<Rightarrow> user_id \<Rightarrow> user_id \<Rightarrow> friend_db \<Rightarrow> friend_db \<times> (bool, server_error) result" where
  "reject_friend_request up now u from_uid db =
     (if up then map_prod id Ok (close_pending 3 now from_uid u db) else (db, Err (Database [])))"

definition recall_friend_request ::
  "bool \<Rightarrow> time \<Rightarrow> user_id \<Rightarrow> user_id \<Rightarrow> friend_db \<Rightarrow> friend_db \<times> (bool, server_error) result" where
  "recall_friend_request up now requester target db =
     (if up then map_prod id Ok (close_pending 4 now requester target db) else (db, Err (Database [])))"

datatype friend_accept_state = AcceptPending | AcceptAlreadyFriends | AcceptExpired

definition check_accept_state :: "(nat \<Rightarrow> bool) \<Rightarrow> user_id \<Rightarrow> user_id \<Rightarrow> friend_db \<Rightarrow> friend_accept_state" where
  "check_accept_state up u from_uid db =
     (if is_friend (up 0) u from_uid db then AcceptAlreadyFriends
      else if up 1 \<and> has_status 0 from_uid u db then AcceptPending
      else AcceptExpired)"

datatype accept_result = AcceptedFrom "friend_request_source option" | AlreadyFriends

definition accept_friend_request_with_source ::
  "(nat \<Rightarrow> bool) \<Rightarrow> time \<Rightarrow> user_id \<Rightarrow> user_id \<Rightarrow> friend_db \<Rightarrow> friend_db \<times> (accept_result, server_error) result" where
  "accept_friend_request_with_source up now u from_uid db =
     (if is_friend (up 0) u from_uid db then (db, Ok AlreadyFriends)
      else if \<not> up 1 \<or> \<not> up 2 then (db, Err (Database []))
      else case fmlookup (fd_rows db) (from_uid, u) of
             Some r \<Rightarrow>
               if fr_status r = 0
               then (if up 3 \<and> up 4 \<and> up 5
                     then (let db1 = fst (close_pending 1 now from_uid u db);
                               mirror = (case fmlookup (fd_rows db1) (u, from_uid) of
                                         None \<Rightarrow> \<lparr>fr_status = 1, fr_source = fr_source r,
                                                  fr_source_id = fr_source_id r, fr_created_at = now,
                                                  fr_updated_at = now, fr_request_message = None,
                                                  fr_sync_version = 0, fr_alias = None\<rparr>
                                       | Some b \<Rightarrow> b\<lparr>fr_status := 1, fr_source := fr_source r,
                                                    fr_source_id := fr_source_id r, fr_updated_at := now\<rparr>)
                           in (put_row (u, from_uid) mirror db1,
                               Ok (AcceptedFrom (source_from_strings (fr_source r) (fr_source_id r)))))
                     else (db, Err (Database [])))
               else if is_friend (up 3) u from_uid db then (db, Ok AlreadyFriends)
               else (db, Err (NotFound ''Friend request expired''))
           | None \<Rightarrow>
               if is_friend (up 3) u from_uid db then (db, Ok AlreadyFriends)
               else (db, Err (NotFound ''Friend request expired'')))"

definition accept_friend_request ::
  "(nat \<Rightarrow> bool) \<Rightarrow> time \<Rightarrow> user_id \<Rightarrow> user_id \<Rightarrow> friend_db \<Rightarrow> friend_db \<times> (unit, server_error) result" where
  "accept_friend_request up now u from_uid db =
     map_prod id (\<lambda>r. case r of Ok _ \<Rightarrow> Ok () | Err e \<Rightarrow> Err e)
       (accept_friend_request_with_source up now u from_uid db)"

definition set_removed :: "time \<Rightarrow> user_id \<Rightarrow> user_id \<Rightarrow> friend_db \<Rightarrow> friend_db" where
  "set_removed now u v db =
     (case fmlookup (fd_rows db) (u, v) of
        Some r \<Rightarrow> put_row (u, v) (r\<lparr>fr_status := 2, fr_updated_at := now\<rparr>) db
      | None \<Rightarrow> db)"

definition remove_friend :: "bool \<Rightarrow> time \<Rightarrow> user_id \<Rightarrow> user_id \<Rightarrow> friend_db \<Rightarrow> friend_db \<times> (unit, server_error) result" where
  "remove_friend up now u v db =
     (if up then (set_removed now v u (set_removed now u v db), Ok ()) else (db, Err (Database [])))"

section \<open>Lists\<close>

definition get_friends :: "bool \<Rightarrow> user_id \<Rightarrow> friend_db \<Rightarrow> (user_id list, server_error) result" where
  "get_friends up u db =
     (if up
      then Ok (map (\<lambda>((_, f), _). f)
             (sort_key (\<lambda>(_, r). - fr_updated_at r)
               (filter (\<lambda>((a, _), r). a = u \<and> fr_status r = 1) (fm_entries (fd_rows db)))))
      else Err (Database []))"

text \<open>\<open>str::trim\<close> leaves nothing of a text that is all blanks.\<close>

definition is_blank :: "string \<Rightarrow> bool" where
  "is_blank s \<longleftrightarrow> list_all (\<lambda>ch. ch \<in> {CHR '' '', CHR 0x09, CHR 0x0A, CHR 0x0B, CHR 0x0C, CHR 0x0D}) s"

definition set_alias ::
  "(nat \<Rightarrow> bool) \<Rightarrow> time \<Rightarrow> user_id \<Rightarrow> user_id \<Rightarrow> string option \<Rightarrow> friend_db \<Rightarrow> friend_db \<times> (bool, server_error) result" where
  "set_alias up now u v alias db =
     (if \<not> is_friend (up 0) u v db then (db, Err (Validation []))
      else if \<not> up 1 then (db, Err (Database []))
      else let alias_val = (case alias of Some a \<Rightarrow> if is_blank a then None else Some a | None \<Rightarrow> None)
           in ((case fmlookup (fd_rows db) (u, v) of
                  Some r \<Rightarrow> put_row (u, v) (r\<lparr>fr_alias := alias_val, fr_updated_at := now\<rparr>) db
                | None \<Rightarrow> db),
               Ok True))"

definition build_request_id :: "user_id \<Rightarrow> user_id \<Rightarrow> time \<Rightarrow> u64" where
  "build_request_id from_uid to_uid created_at =
     xor (xor (push_bit 32 from_uid) to_uid) (word_of_int (max created_at 0))"

record friend_request =
  rq_id :: u64
  rq_from_user_id :: user_id
  rq_to_user_id :: user_id
  rq_message :: "string option"
  rq_status :: friendship_status
  rq_source :: "friend_request_source option"
  rq_created_at :: time
  rq_updated_at :: time

text \<open>\<open>from_ms\<close> is \<open>DateTime::from_timestamp_millis\<close>.\<close>

definition friend_request_of ::
  "(int \<Rightarrow> time option) \<Rightarrow> time \<Rightarrow> (user_id \<times> user_id) \<times> friend_row \<Rightarrow> friend_request" where
  "friend_request_of from_ms now e =
     (case e of ((f, t), r) \<Rightarrow>
        \<lparr>rq_id = build_request_id f t (fr_created_at r), rq_from_user_id = f, rq_to_user_id = t,
         rq_message = fr_request_message r, rq_status = Pending,
         rq_source = source_from_strings (fr_source r) (fr_source_id r),
         rq_created_at = (case from_ms (fr_created_at r) of Some x \<Rightarrow> x | None \<Rightarrow> now),
         rq_updated_at = (case from_ms (fr_updated_at r) of Some x \<Rightarrow> x | None \<Rightarrow> now)\<rparr>)"

definition pending_rows ::
  "(user_id \<times> user_id \<Rightarrow> bool) \<Rightarrow> friend_db \<Rightarrow> ((user_id \<times> user_id) \<times> friend_row) list" where
  "pending_rows mine db =
     sort_key (\<lambda>(_, r). - fr_updated_at r)
       (filter (\<lambda>(k, r). mine k \<and> fr_status r = 0) (fm_entries (fd_rows db)))"

definition get_pending_requests ::
  "(int \<Rightarrow> time option) \<Rightarrow> bool \<Rightarrow> time \<Rightarrow> user_id \<Rightarrow> friend_db \<Rightarrow> (friend_request list, server_error) result" where
  "get_pending_requests from_ms up now u db =
     (if up then Ok (map (friend_request_of from_ms now) (pending_rows (\<lambda>(_, t). t = u) db))
      else Err (Database []))"

definition get_sent_requests ::
  "(int \<Rightarrow> time option) \<Rightarrow> bool \<Rightarrow> time \<Rightarrow> user_id \<Rightarrow> friend_db \<Rightarrow> (friend_request list, server_error) result" where
  "get_sent_requests from_ms up now u db =
     (if up then Ok (map (friend_request_of from_ms now) (pending_rows (\<lambda>(f, _). f = u) db))
      else Err (Database []))"

section \<open>The blacklist\<close>

record blacklist_row =
  bl_reason :: "string option"
  bl_created_at :: time

type_synonym blacklist_db = "(user_id \<times> user_id, blacklist_row) fmap"

record blacklist_entry =
  be_user_id :: user_id
  be_blocked_user_id :: user_id
  be_blocked_at :: time
  be_reason :: "string option"

definition add_to_blacklist ::
  "bool \<Rightarrow> time \<Rightarrow> user_id \<Rightarrow> user_id \<Rightarrow> string option \<Rightarrow> blacklist_db \<Rightarrow> blacklist_db \<times> (blacklist_entry, server_error) result" where
  "add_to_blacklist up now u blocked reason db =
     (if u = blocked then (db, Err (Validation []))
      else if \<not> up then (db, Err (Database []))
      else let row = (case fmlookup db (u, blocked) of
                        None \<Rightarrow> \<lparr>bl_reason = reason, bl_created_at = now\<rparr>
                      | Some r \<Rightarrow> r\<lparr>bl_reason := reason\<rparr>)
           in (fmupd (u, blocked) row db,
               Ok \<lparr>be_user_id = u, be_blocked_user_id = blocked, be_blocked_at = now, be_reason = reason\<rparr>))"

definition remove_from_blacklist ::
  "bool \<Rightarrow> user_id \<Rightarrow> user_id \<Rightarrow> blacklist_db \<Rightarrow> blacklist_db \<times> (bool, server_error) result" where
  "remove_from_blacklist up u blocked db =
     (if up then (fmdrop (u, blocked) db, Ok (fmlookup db (u, blocked) \<noteq> None)) else (db, Err (Database [])))"

definition is_blocked :: "bool \<Rightarrow> user_id \<Rightarrow> user_id \<Rightarrow> blacklist_db \<Rightarrow> (bool, server_error) result" where
  "is_blocked up u target db =
     (if up then Ok (fmlookup db (u, target) \<noteq> None) else Err (Database []))"

definition blacklist_entry_of ::
  "(int \<Rightarrow> time option) \<Rightarrow> time \<Rightarrow> (user_id \<times> user_id) \<times> blacklist_row \<Rightarrow> blacklist_entry" where
  "blacklist_entry_of from_ms now e =
     (case e of ((u, b), r) \<Rightarrow>
        \<lparr>be_user_id = u, be_blocked_user_id = b,
         be_blocked_at = (case from_ms (bl_created_at r) of Some t \<Rightarrow> t | None \<Rightarrow> now),
         be_reason = bl_reason r\<rparr>)"

definition get_blacklist ::
  "(int \<Rightarrow> time option) \<Rightarrow> bool \<Rightarrow> time \<Rightarrow> user_id \<Rightarrow> blacklist_db \<Rightarrow> (blacklist_entry list, server_error) result" where
  "get_blacklist from_ms up now u db =
     (if up
      then Ok (map (blacklist_entry_of from_ms now)
             (sort_key (\<lambda>(_, r). - bl_created_at r) (filter (\<lambda>((a, _), _). a = u) (fm_entries db))))
      else Err (Database []))"

definition get_blacklist_entry ::
  "(int \<Rightarrow> time option) \<Rightarrow> bool \<Rightarrow> time \<Rightarrow> user_id \<Rightarrow> user_id \<Rightarrow> blacklist_db
     \<Rightarrow> (blacklist_entry option, server_error) result" where
  "get_blacklist_entry from_ms up now u blocked db =
     (if up
      then Ok (map_option (\<lambda>r. blacklist_entry_of from_ms now ((u, blocked), r)) (fmlookup db (u, blocked)))
      else Err (Database []))"

definition check_mutual_block :: "bool \<Rightarrow> user_id \<Rightarrow> user_id \<Rightarrow> blacklist_db \<Rightarrow> (bool \<times> bool, server_error) result" where
  "check_mutual_block up a b db =
     (if up
      then (let rows = filter (\<lambda>(u, v). u = a \<and> v = b \<or> u = b \<and> v = a) (map fst (fm_entries db))
            in Ok (list_ex (\<lambda>(u, t). u = a \<and> t = b) rows, list_ex (\<lambda>(u, t). u = b \<and> t = a) rows))
      else Err (Database []))"

definition get_blacklist_count :: "bool \<Rightarrow> user_id \<Rightarrow> blacklist_db \<Rightarrow> (nat, server_error) result" where
  "get_blacklist_count up u db =
     (if up then Ok (length (filter (\<lambda>((a, _), _). a = u) (fm_entries db))) else Err (Database []))"

section \<open>Sources\<close>

text \<open>
  The source of a request survives its two text columns, with one exception: a request made from a
  conversation is written but not read mirror.
\<close>

lemma source_round_trip:
  "(case source_to_strings src of (a, b) \<Rightarrow> source_from_strings a b) =
     (case src of Some (Conversation _) \<Rightarrow> None | _ \<Rightarrow> src)"
  by (cases src rule: source_to_strings.cases) (auto simp: source_from_strings_def parse_to_string)

lemma friendship_status_round_trip: "friendship_status_from_i16 (friendship_status_to_i16 st) = st"
  by (cases st) (simp_all add: friendship_status_from_i16_def)

text \<open>Both directions of a block are told apart and agree with the single query.\<close>

lemma check_mutual_block_iff:
  "check_mutual_block True a b db = Ok (fmlookup db (a, b) \<noteq> None, fmlookup db (b, a) \<noteq> None)"
proof -
  have "x \<in> fst ` set (fm_entries db) \<longleftrightarrow> fmlookup db x \<noteq> None" for x
    by (force simp: set_fm_entries)
  then show ?thesis
    unfolding check_mutual_block_def by (auto simp: list_ex_iff Let_def)
qed

lemma check_mutual_block_is_blocked:
  "check_mutual_block True a b db = Ok (x, y) \<longleftrightarrow>
     is_blocked True a b db = Ok x \<and> is_blocked True b a db = Ok y"
  by (auto simp: check_mutual_block_iff is_blocked_def)

section \<open>Runs\<close>

datatype friend_event =
    FSend "nat \<Rightarrow> bool" time user_id user_id "string option" "friend_request_source option"
  | FReject bool time user_id user_id
  | FRecall bool time user_id user_id
  | FAccept "nat \<Rightarrow> bool" time user_id user_id
  | FRemove bool time user_id user_id
  | FAlias "nat \<Rightarrow> bool" time user_id user_id "string option"

fun friend_step :: "friend_db \<Rightarrow> friend_event \<Rightarrow> friend_db" where
  "friend_step db (FSend up now f t msg src) = fst (send_friend_request_with_source up now f t msg src db)"
| "friend_step db (FReject up now u f) = fst (reject_friend_request up now u f db)"
| "friend_step db (FRecall up now r t) = fst (recall_friend_request up now r t db)"
| "friend_step db (FAccept up now u f) = fst (accept_friend_request_with_source up now u f db)"
| "friend_step db (FRemove up now u v) = fst (remove_friend up now u v db)"
| "friend_step db (FAlias up now u v a) = fst (set_alias up now u v a db)"

text \<open>Friendship is mutual, versions are unique, and nobody is in the table with themselves.\<close>

definition friend_inv :: "friend_db \<Rightarrow> bool" where
  "friend_inv db \<longleftrightarrow>
     (\<forall>u v. has_status 1 u v db \<longrightarrow> has_status 1 v u db) \<and>
     (\<forall>u. fmlookup (fd_rows db) (u, u) = None)"

definition version_inv :: "friend_db \<Rightarrow> bool" where
  "version_inv db \<longleftrightarrow>
     0 \<le> fd_seq db \<and>
     (\<forall>k r. fmlookup (fd_rows db) k = Some r \<longrightarrow> 0 < fr_sync_version r \<and> fr_sync_version r \<le> fd_seq db) \<and>
     (\<forall>k k' r r'. fmlookup (fd_rows db) k = Some r \<longrightarrow> fmlookup (fd_rows db) k' = Some r' \<longrightarrow>
        fr_sync_version r = fr_sync_version r' \<longrightarrow> k = k')"

lemma lookup_put_row:
  "fmlookup (fd_rows (put_row k r db)) k' =
     (if k = k' then Some (r\<lparr>fr_sync_version := fd_seq db + 1\<rparr>) else fmlookup (fd_rows db) k')"
  by (simp add: put_row_def Let_def)

lemma has_status_put_row [simp]:
  "has_status st u v (put_row k r db) \<longleftrightarrow> (if k = (u, v) then fr_status r = st else has_status st u v db)"
  by (auto simp: has_status_def lookup_put_row)

lemma version_inv_put_row: "version_inv db \<Longrightarrow> version_inv (put_row k r db)"
  unfolding version_inv_def
  by (auto simp: lookup_put_row put_row_def Let_def split: if_splits) (fastforce+)

lemma not_friend:
  "is_friend up u v db = False \<Longrightarrow> up \<Longrightarrow> \<not> has_status 1 u v db \<and> \<not> has_status 1 v u db"
  by (simp add: is_friend_def try_is_friend_def)

text \<open>
  What a call does to the status of a pair. Only an accept creates a friendship, in both directions
  at once, and only a removal ends one.
\<close>

lemma close_pending_status:
  "has_status st a b (fst (close_pending st' now u v db)) \<longleftrightarrow>
     (if (u, v) = (a, b) \<and> has_status 0 u v db then st = st' else has_status st a b db)"
  by (auto simp: close_pending_def has_status_def lookup_put_row split: option.splits)

lemma send_status:
  "has_status 1 a b (fst (send_friend_request_with_source up now f t msg src db)) \<longleftrightarrow> has_status 1 a b db"
  by (auto simp: send_friend_request_with_source_def Let_def case_prod_beta has_status_def lookup_put_row
      split: option.splits)

lemma set_removed_status:
  "has_status st a b (set_removed now u v db) \<longleftrightarrow>
     (if (u, v) = (a, b) \<and> fmlookup (fd_rows db) (u, v) \<noteq> None then st = 2 else has_status st a b db)"
  by (auto simp: set_removed_def has_status_def lookup_put_row split: option.splits)

lemma lookup_set_removed:
  "fmlookup (fd_rows (set_removed now u v db)) k = None \<longleftrightarrow> fmlookup (fd_rows db) k = None"
  by (auto simp: set_removed_def lookup_put_row split: option.split)

lemma pending_not_friend: "has_status 0 u v db \<Longrightarrow> \<not> has_status 1 u v db"
  by (auto simp: has_status_def)

lemma alias_status:
  "has_status st a b (fst (set_alias up now u v al db)) \<longleftrightarrow> has_status st a b db"
  by (auto simp: set_alias_def Let_def has_status_def lookup_put_row split: option.splits)

definition accepts :: "(nat \<Rightarrow> bool) \<Rightarrow> user_id \<Rightarrow> user_id \<Rightarrow> friend_db \<Rightarrow> bool" where
  "accepts up u f db \<longleftrightarrow>
     \<not> is_friend (up 0) u f db \<and> up 1 \<and> up 2 \<and> up 3 \<and> up 4 \<and> up 5 \<and> has_status 0 f u db"

lemma accept_db:
  "\<exists>mirror. fr_status mirror = 1 \<and>
     fst (accept_friend_request_with_source up now u f db) =
       (if accepts up u f db then put_row (u, f) mirror (fst (close_pending 1 now f u db)) else db)"
proof (cases "accepts up u f db")
  case True
  then obtain r where "fmlookup (fd_rows db) (f, u) = Some r" "fr_status r = 0"
    by (auto simp: accepts_def has_status_def)
  with True show ?thesis
    by (intro exI conjI)
       (auto simp: accept_friend_request_with_source_def accepts_def Let_def split: option.split)
next
  case False
  have "fst (accept_friend_request_with_source up now u f db) = db"
  proof (cases "fmlookup (fd_rows db) (f, u)")
    case None
    then show ?thesis by (simp add: accept_friend_request_with_source_def)
  next
    case (Some r)
    then have "has_status 0 f u db \<longleftrightarrow> fr_status r = 0" by (simp add: has_status_def)
    with False Some show ?thesis
      unfolding accept_friend_request_with_source_def accepts_def
      by (simp only: option.case) (simp split: if_split, blast)
  qed
  with False show ?thesis using friend_row.select_convs(1) by metis
qed

lemma accept_status:
  "has_status st a b (fst (accept_friend_request_with_source up now u f db)) \<longleftrightarrow>
     (if accepts up u f db \<and> ((a, b) = (u, f) \<or> (a, b) = (f, u)) then st = 1 else has_status st a b db)"
proof -
  obtain mirror where "fr_status mirror = 1"
    "fst (accept_friend_request_with_source up now u f db) =
       (if accepts up u f db then put_row (u, f) mirror (fst (close_pending 1 now f u db)) else db)"
    using accept_db by blast
  moreover have "has_status 0 f u db" if "accepts up u f db" using that by (simp add: accepts_def)
  ultimately show ?thesis by (simp add: close_pending_status) blast
qed

lemma version_inv_close: "version_inv db \<Longrightarrow> version_inv (fst (close_pending st now u v db))"
  by (auto simp: close_pending_def version_inv_put_row split: option.split)

lemma version_inv_accept:
  "version_inv db \<Longrightarrow> version_inv (fst (accept_friend_request_with_source up now u f db))"
  using accept_db [of up now u f db] by (auto intro!: version_inv_put_row version_inv_close)

lemma version_inv_step: "version_inv db \<Longrightarrow> version_inv (friend_step db e)"
  by (cases e)
     (auto simp: send_friend_request_with_source_def reject_friend_request_def recall_friend_request_def
        remove_friend_def set_alias_def set_removed_def Let_def case_prod_beta version_inv_accept
        intro!: version_inv_put_row version_inv_close split: option.splits)

lemma no_self_rows:
  assumes "\<forall>u. fmlookup (fd_rows db) (u, u) = None"
  shows "fmlookup (fd_rows (friend_step db e)) (w, w) = None"
proof -
  have close: "fmlookup (fd_rows (fst (close_pending st now u v d))) (w, w) = None"
    if "\<forall>u. fmlookup (fd_rows d) (u, u) = None" for st now u v d
    using that by (auto simp: close_pending_def lookup_put_row split: option.split)
  have accept: "fmlookup (fd_rows (fst (accept_friend_request_with_source up now u f db))) (w, w) = None"
    for up now u f
  proof -
    obtain r where "fst (accept_friend_request_with_source up now u f db) =
        (if accepts up u f db then put_row (u, f) r (fst (close_pending 1 now f u db)) else db)"
      using accept_db [of up now u f db] by blast
    moreover have "\<not> accepts up w w db" using assms by (simp add: accepts_def has_status_def)
    moreover have "fmlookup (fd_rows (fst (close_pending 1 now f u db))) (w, w) = None"
      by (rule close [OF assms])
    ultimately show ?thesis using assms by (cases "(u, f) = (w, w)") (simp_all add: lookup_put_row)
  qed
  have self: "fmlookup (fd_rows db) (w, w) = None" using assms by simp
  show ?thesis
  proof (cases e)
    case (FSend up now f t msg src)
    with self show ?thesis
      by (cases "f = t") (auto simp: send_friend_request_with_source_def Let_def case_prod_beta lookup_put_row)
  next
    case (FAlias up now u v a)
    with self show ?thesis
      by (cases "fmlookup (fd_rows db) (u, v)") (auto simp: set_alias_def Let_def lookup_put_row)
  qed (use self accept close [OF assms] in
        \<open>simp_all add: reject_friend_request_def recall_friend_request_def remove_friend_def lookup_set_removed\<close>)
qed

definition befriends :: "friend_event \<Rightarrow> friend_db \<Rightarrow> user_id \<Rightarrow> user_id \<Rightarrow> bool" where
  "befriends e db a b \<longleftrightarrow>
     (\<exists>up now u f. e = FAccept up now u f \<and> accepts up u f db \<and> ((a, b) = (u, f) \<or> (a, b) = (f, u)))"

definition unfriends :: "friend_event \<Rightarrow> user_id \<Rightarrow> user_id \<Rightarrow> bool" where
  "unfriends e a b \<longleftrightarrow> (\<exists>now u v. e = FRemove True now u v \<and> ((a, b) = (u, v) \<or> (a, b) = (v, u)))"

lemma friend_status_step:
  "has_status 1 a b (friend_step db e) \<longleftrightarrow>
     befriends e db a b \<or> has_status 1 a b db \<and> \<not> unfriends e a b"
proof (cases e)
  case (FReject up now u f)
  then show ?thesis
    using pending_not_friend [of f u db]
    by (cases up) (auto simp: befriends_def unfriends_def reject_friend_request_def close_pending_status)
next
  case (FRecall up now r t)
  then show ?thesis
    using pending_not_friend [of r t db]
    by (cases up) (auto simp: befriends_def unfriends_def recall_friend_request_def close_pending_status)
next
  case (FRemove up now u v)
  have "fmlookup (fd_rows db) (a, b) \<noteq> None" if "has_status 1 a b db"
    using that by (auto simp: has_status_def)
  with FRemove show ?thesis
    by (cases up) (auto simp: befriends_def unfriends_def remove_friend_def set_removed_status lookup_set_removed)
qed (auto simp: befriends_def unfriends_def send_status alias_status accept_status)

lemma friend_inv_step:
  assumes "friend_inv db"
  shows "friend_inv (friend_step db e)"
proof -
  have "befriends e db v u" if "befriends e db u v" for u v
    using that by (auto simp: befriends_def)
  moreover have "unfriends e v u" if "unfriends e u v" for u v
    using that by (auto simp: unfriends_def)
  moreover have "has_status 1 v u db" if "has_status 1 u v db" for u v
    using that assms by (simp add: friend_inv_def)
  ultimately have "\<forall>u v. has_status 1 u v (friend_step db e) \<longrightarrow> has_status 1 v u (friend_step db e)"
    unfolding friend_status_step by blast
  with assms no_self_rows show ?thesis by (simp add: friend_inv_def)
qed

lemma empty_has_no_status: "\<not> has_status st u v empty_friend_db"
  by (simp add: has_status_def empty_friend_db_def)

interpretation friend_system: invariant_system
  empty_friend_db friend_step "\<lambda>_ _. True" "\<lambda>db. friend_inv db \<and> version_inv db"
  by unfold_locales
     (auto simp: friend_inv_step version_inv_step,
      auto simp: friend_inv_def version_inv_def empty_has_no_status, auto simp: empty_friend_db_def)

lemma friend_run_inv:
  "friend_inv (run friend_step empty_friend_db es)" "version_inv (run friend_step empty_friend_db es)"
  using friend_system.run_inv [of es] by auto

lemma has_status_iff: "has_status st u v db \<longleftrightarrow> (\<exists>r. fmlookup (fd_rows db) (u, v) = Some r \<and> fr_status r = st)"
  by (auto simp: has_status_def)

lemma set_get_friends: "get_friends True u db = Ok fs \<Longrightarrow> set fs = {v. has_status 1 u v db}"
  by (force simp: get_friends_def has_status_iff)

lemma distinct_get_friends:
  assumes "get_friends True u db = Ok fs"
  shows "distinct fs"
proof -
  define rows where "rows = filter (\<lambda>((a, _), r). a = u \<and> fr_status r = 1) (fm_entries (fd_rows db))"
  have "distinct rows"
    unfolding rows_def by (rule distinct_filter) (use distinct_fm_entries distinct_map in blast)
  moreover have "inj_on (\<lambda>((_, f), _). f) (set rows)"
    by (auto simp: inj_on_def rows_def)
  ultimately show ?thesis
    using assms by (auto simp: get_friends_def distinct_map rows_def [symmetric])
qed

text \<open>
  C21. Friendship is mutual after any sequence of requests, acceptances, rejections, recalls,
  removals and alias changes in which any database statement may fail: the two directed rows agree,
  both users get the same answer when they ask, and each appears exactly once in the friend list of
  the other or in neither list; nobody is their own friend. Every row carries its own sync version,
  so no two changes look the same to an incremental pull.
\<close>
theorem friendship_mutual:
  "let db = run friend_step empty_friend_db es
   in try_is_friend True u v db = Ok (has_status 1 u v db) \<and>
      try_is_friend True v u db = try_is_friend True u v db \<and>
      try_is_friend True u u db = Ok False \<and>
      (case get_friends True u db of
         Ok fs \<Rightarrow> distinct fs \<and> (v \<in> set fs \<longleftrightarrow> try_is_friend True v u db = Ok True)
       | Err _ \<Rightarrow> False) \<and>
      inj_on (\<lambda>k. map_option fr_sync_version (fmlookup (fd_rows db) k)) (fset (fmdom (fd_rows db)))"
proof -
  define db where "db = run friend_step empty_friend_db es"
  have inv: "friend_inv db" "version_inv db" using friend_run_inv by (auto simp: db_def)
  have sym: "has_status 1 a b db \<longleftrightarrow> has_status 1 b a db" for a b
    using inv by (auto simp: friend_inv_def)
  obtain fs where fs: "get_friends True u db = Ok fs" by (simp add: get_friends_def)
  have "inj_on (\<lambda>k. map_option fr_sync_version (fmlookup (fd_rows db) k)) (fset (fmdom (fd_rows db)))"
    using inv(2) by (auto simp: inj_on_def version_inv_def fmlookup_dom_iff)
  then show ?thesis
    unfolding db_def [symmetric] Let_def
    using inv(1) sym fs set_get_friends [OF fs] distinct_get_friends [OF fs]
    by (auto simp: try_is_friend_def friend_inv_def has_status_def)
qed

section \<open>A removed friend stays removed\<close>

text \<open>The calls of \<open>b\<close> towards \<open>a\<close> that can reopen the relation.\<close>

fun reopens :: "user_id \<Rightarrow> user_id \<Rightarrow> friend_event \<Rightarrow> bool" where
  "reopens b a (FSend up now f t msg src) \<longleftrightarrow> f = b \<and> t = a"
| "reopens b a (FAccept up now u f) \<longleftrightarrow> u = b \<and> f = a"
| "reopens b a e \<longleftrightarrow> False"

lemma send_status_other:
  "(f, t) \<noteq> (a, b) \<Longrightarrow>
     has_status st a b (fst (send_friend_request_with_source up now f t msg src db)) \<longleftrightarrow> has_status st a b db"
  by (auto simp: send_friend_request_with_source_def Let_def case_prod_beta)

lemma removed_step:
  assumes "has_status 2 b a db" "\<not> reopens b a e"
  shows "has_status 2 b a (friend_step db e)"
proof -
  have "\<not> has_status 0 b a db" using assms(1) by (auto simp: has_status_def)
  then show ?thesis
    using assms
    by (cases e)
       (auto simp: send_status_other reject_friend_request_def recall_friend_request_def
          close_pending_status accept_status accepts_def remove_friend_def set_removed_status alias_status)
qed

lemma removed_run:
  "has_status 2 b a db \<Longrightarrow> admissible (\<lambda>_ e. \<not> reopens b a e) friend_step db es \<Longrightarrow>
     has_status 2 b a (run friend_step db es)"
  by (induction es arbitrary: db) (auto intro: removed_step)

lemma remove_friend_status:
  assumes "has_status 1 b a db"
  shows "has_status 2 b a (fst (remove_friend True now b a db))"
proof -
  have "fmlookup (fd_rows db) (b, a) \<noteq> None" using assms by (auto simp: has_status_def)
  then show ?thesis by (simp add: remove_friend_def set_removed_status)
qed

end
