(* ===== verification/FriendSync.thy ===== *)
theory FriendSync
  imports Friendship
begin

text \<open>
  Friend records and the paged entity sync of \<open>FriendService::sync_entities_page\<close>, with the loop of a
  client that pulls pages until none is left. A profile of the user repository is a value of type
  \<open>'p\<close>; \<open>profiles\<close> stands for the batch query.
\<close>

section \<open>Friendship records\<close>

record friendship =
  fs_id :: string
  fs_user1_id :: user_id
  fs_user2_id :: user_id
  fs_status :: friendship_status
  fs_source :: "string option"
  fs_source_id :: "string option"
  fs_alias :: "string option"
  fs_created_at :: time
  fs_updated_at :: time

definition new_friendship :: "time \<Rightarrow> user_id \<Rightarrow> user_id \<Rightarrow> friendship" where
  "new_friendship now u v =
     \<lparr>fs_id = to_string_u64 u @ '':'' @ to_string_u64 v, fs_user1_id = u, fs_user2_id = v,
      fs_status = Pending, fs_source = None, fs_source_id = None, fs_alias = None,
      fs_created_at = now, fs_updated_at = now\<rparr>"

text \<open>The id text prints the signed column values.\<close>

definition show_i64 :: "u64 \<Rightarrow> string" where
  "show_i64 n = (if sint n < 0 then CHR ''-'' # show_nat (nat (- sint n)) else show_nat (nat (sint n)))"

definition friendship_from_db_row ::
  "(int \<Rightarrow> time option) \<Rightarrow> time \<Rightarrow> user_id \<times> user_id \<Rightarrow> friend_row \<Rightarrow> friendship" where
  "friendship_from_db_row from_ms now k r =
     (case k of (u, v) \<Rightarrow>
        \<lparr>fs_id = show_i64 u @ '':'' @ show_i64 v, fs_user1_id = u, fs_user2_id = v,
         fs_status = friendship_status_from_i16 (fr_status r), fs_source = fr_source r,
         fs_source_id = fr_source_id r, fs_alias = fr_alias r,
         fs_created_at = (case from_ms (fr_created_at r) of Some t \<Rightarrow> t | None \<Rightarrow> now),
         fs_updated_at = (case from_ms (fr_updated_at r) of Some t \<Rightarrow> t | None \<Rightarrow> now)\<rparr>)"

definition friendship_to_db_values ::
  "friendship \<Rightarrow> int \<times> int \<times> int \<times> string option \<times> string option \<times> time \<times> time" where
  "friendship_to_db_values f =
     (sint (fs_user1_id f), sint (fs_user2_id f), friendship_status_to_i16 (fs_status f), fs_source f,
      fs_source_id f, fs_created_at f, fs_updated_at f)"

definition update_status :: "time \<Rightarrow> friendship_status \<Rightarrow> friendship \<Rightarrow> friendship" where
  "update_status now st f = f\<lparr>fs_status := st, fs_updated_at := now\<rparr>"

definition get_friendship ::
  "(int \<Rightarrow> time option) \<Rightarrow> bool \<Rightarrow> time \<Rightarrow> user_id \<Rightarrow> user_id \<Rightarrow> friend_db \<Rightarrow> friendship option" where
  "get_friendship from_ms up now u v db =
     (if up then map_option (friendship_from_db_row from_ms now (u, v)) (fmlookup (fd_rows db) (u, v)) else None)"

definition new_friend_request ::
  "time \<Rightarrow> user_id \<Rightarrow> user_id \<Rightarrow> string option \<Rightarrow> friend_request_source option \<Rightarrow> friend_request" where
  "new_friend_request now u v message src =
     \<lparr>rq_id = 0, rq_from_user_id = u, rq_to_user_id = v, rq_message = message, rq_status = Pending,
      rq_source = src, rq_created_at = now, rq_updated_at = now\<rparr>"

definition friend_request_accept :: "time \<Rightarrow> friend_request \<Rightarrow> friend_request" where
  "friend_request_accept now q = q\<lparr>rq_status := Accepted, rq_updated_at := now\<rparr>"

definition friend_request_reject :: "time \<Rightarrow> friend_request \<Rightarrow> friend_request" where
  "friend_request_reject now q = q\<lparr>rq_status := Rejected, rq_updated_at := now\<rparr>"

section \<open>A page\<close>

type_synonym sync_row = "(user_id \<times> user_id) \<times> friend_row"

record 'p friend_payload =
  fp_user_id :: user_id
  fp_created_at :: time
  fp_updated_at :: time
  fp_version :: int
  fp_is_friend :: bool
  fp_profile :: 'p
  fp_profile_version :: u64
  fp_alias :: "string option"
  fp_status :: int
  fp_is_outgoing :: "bool option"
  fp_request_message :: "string option"
  fp_request_source :: "string option"
  fp_request_source_id :: "string option"

record 'p sync_item =
  si_entity_id :: string
  si_version :: u64
  si_deleted :: bool
  si_payload :: "'p friend_payload option"

record 'p sync_response =
  sy_items :: "'p sync_item list"
  sy_next_version :: u64
  sy_has_more :: bool

fun row_version :: "sync_row \<Rightarrow> int" where
  "row_version (_, r) = fr_sync_version r"

fun row_of :: "user_id \<Rightarrow> sync_row \<Rightarrow> bool" where
  "row_of me ((a, b), _) \<longleftrightarrow> a = me \<or> b = me"

text \<open>The query without its limit: ascending in version, then in the key.\<close>

definition sync_rows :: "user_id \<Rightarrow> int \<Rightarrow> friend_db \<Rightarrow> sync_row list" where
  "sync_rows me since db =
     sort_key row_version (filter (\<lambda>x. row_of me x \<and> row_version x > since) (fm_entries (fd_rows db)))"

fun peer_of :: "user_id \<Rightarrow> sync_row \<Rightarrow> user_id" where
  "peer_of me ((a, b), _) = (if a = me then b else a)"

fun is_outgoing :: "user_id \<Rightarrow> sync_row \<Rightarrow> bool" where
  "is_outgoing me ((a, _), _) \<longleftrightarrow> a = me"

fun payload_of :: "user_id \<Rightarrow> 'p \<times> u64 \<Rightarrow> sync_row \<Rightarrow> 'p friend_payload" where
  "payload_of me (profile, version) (k, r) =
     (let accepted = (fr_status r = 1); out = is_outgoing me (k, r)
      in \<lparr>fp_user_id = peer_of me (k, r), fp_created_at = fr_created_at r, fp_updated_at = fr_updated_at r,
          fp_version = fr_sync_version r, fp_is_friend = accepted, fp_profile = profile,
          fp_profile_version = version, fp_alias = (if out then fr_alias r else None), fp_status = fr_status r,
          fp_is_outgoing = (if accepted then None else Some out),
          fp_request_message = (if accepted then None else fr_request_message r),
          fp_request_source = (if accepted then None else fr_source r),
          fp_request_source_id = (if accepted then None else fr_source_id r)\<rparr>)"

definition tombstone :: "user_id \<Rightarrow> sync_row \<Rightarrow> 'p sync_item" where
  "tombstone me x =
     \<lparr>si_entity_id = to_string_u64 (peer_of me x), si_version = word_of_int (row_version x), si_deleted = True,
      si_payload = None\<rparr>"

definition live_item :: "user_id \<Rightarrow> 'p \<times> u64 \<Rightarrow> sync_row \<Rightarrow> 'p sync_item" where
  "live_item me p x =
     \<lparr>si_entity_id = to_string_u64 (peer_of me x), si_version = word_of_int (row_version x), si_deleted = False,
      si_payload = Some (payload_of me p x)\<rparr>"

text \<open>
  The loop over the rows of the page: items sent so far, the version of the last one, and whether a row
  without a profile stopped it. A missing profile on the first row is an error (\<open>None\<close>).
\<close>

fun sync_loop ::
  "(user_id \<Rightarrow> ('p \<times> u64) option) \<Rightarrow> user_id \<Rightarrow> sync_row list \<Rightarrow> 'p sync_item list \<Rightarrow> u64
     \<Rightarrow> ('p sync_item list \<times> u64 \<times> bool) option" where
  "sync_loop profiles me [] items next = Some (items, next, False)"
| "sync_loop profiles me (x # xs) items next =
     (if fr_status (snd x) = 2
      then sync_loop profiles me xs (items @ [tombstone me x]) (word_of_int (row_version x))
      else (case profiles (peer_of me x) of
              None \<Rightarrow> if items = [] then None else Some (items, next, True)
            | Some p \<Rightarrow> sync_loop profiles me xs (items @ [live_item me p x]) (word_of_int (row_version x))))"

definition page_limit :: "u32 \<Rightarrow> nat" where
  "page_limit limit = unat (max (min limit 200) 1)"

text \<open>The two statements are the row query and the profile query.\<close>

definition sync_entities_page ::
  "(nat \<Rightarrow> bool) \<Rightarrow> (user_id \<Rightarrow> ('p \<times> u64) option) \<Rightarrow> user_id \<Rightarrow> u64 option \<Rightarrow> u32 \<Rightarrow> friend_db
     \<Rightarrow> ('p sync_response, server_error) result" where
  "sync_entities_page up profiles me since_version limit db =
     (let lim = page_limit limit;
          since = (case since_version of Some v \<Rightarrow> v | None \<Rightarrow> 0);
          rows = take (lim + 1) (sync_rows me (sint since) db)
      in if \<not> up 0 \<or> \<not> up 1 then Err (Database [])
         else (case sync_loop profiles me (take lim rows) [] since of
                 None \<Rightarrow> Err (Database ''friend sync cannot progress'')
               | Some (items, next, stopped) \<Rightarrow>
                   Ok \<lparr>sy_items = items, sy_next_version = next, sy_has_more = (length rows > lim \<or> stopped)\<rparr>))"

text \<open>A client pulls pages from its cursor while there are more; \<open>None\<close> when the bound on pages is used up.\<close>

fun pull_all ::
  "nat \<Rightarrow> (user_id \<Rightarrow> ('p \<times> u64) option) \<Rightarrow> user_id \<Rightarrow> u64 \<Rightarrow> u32 \<Rightarrow> friend_db
     \<Rightarrow> ('p sync_item list \<times> u64, server_error) result option" where
  "pull_all 0 profiles me since limit db = None"
| "pull_all (Suc n) profiles me since limit db =
     (case sync_entities_page (\<lambda>_. True) profiles me (Some since) limit db of
        Err e \<Rightarrow> Some (Err e)
      | Ok resp \<Rightarrow>
          if sy_has_more resp
          then map_option (\<lambda>r. case r of Ok (items, v) \<Rightarrow> Ok (sy_items resp @ items, v) | Err e \<Rightarrow> Err e)
                 (pull_all n profiles me (sy_next_version resp) limit db)
          else Some (Ok (sy_items resp, sy_next_version resp)))"

section \<open>What a page delivers\<close>

definition item_of :: "(user_id \<Rightarrow> ('p \<times> u64) option) \<Rightarrow> user_id \<Rightarrow> sync_row \<Rightarrow> 'p sync_item" where
  "item_of profiles me x =
     (if fr_status (snd x) = 2 then tombstone me x else live_item me (the (profiles (peer_of me x))) x)"

definition profile_missing :: "(user_id \<Rightarrow> ('p \<times> u64) option) \<Rightarrow> user_id \<Rightarrow> sync_row \<Rightarrow> bool" where
  "profile_missing profiles me x \<longleftrightarrow> fr_status (snd x) \<noteq> 2 \<and> profiles (peer_of me x) = None"

lemma sync_loop_spec:
  "case sync_loop profiles me xs items cur of
     None \<Rightarrow> items = [] \<and> (\<exists>x\<in>set xs. profile_missing profiles me x)
   | Some (items', next', stopped) \<Rightarrow>
       \<exists>k\<le>length xs. items' = items @ map (item_of profiles me) (take k xs) \<and>
         next' = (if k = 0 then cur else word_of_int (row_version (xs ! (k - 1)))) \<and>
         (stopped \<longleftrightarrow> k < length xs) \<and> (items = [] \<longrightarrow> xs \<noteq> [] \<longrightarrow> 0 < k)"
proof (induction xs arbitrary: items cur)
  case (Cons x xs)
  let ?items = "items @ [item_of profiles me x]" and ?cur = "word_of_int (row_version x) :: u64"
  have go: "case sync_loop profiles me xs ?items ?cur of
      None \<Rightarrow> items = [] \<and> (\<exists>y\<in>set (x # xs). profile_missing profiles me y)
    | Some (items', next', stopped) \<Rightarrow>
        \<exists>k\<le>length (x # xs). items' = items @ map (item_of profiles me) (take k (x # xs)) \<and>
          next' = (if k = 0 then cur else word_of_int (row_version ((x # xs) ! (k - 1)))) \<and>
          (stopped \<longleftrightarrow> k < length (x # xs)) \<and> (items = [] \<longrightarrow> x # xs \<noteq> [] \<longrightarrow> 0 < k)"
  proof (cases "sync_loop profiles me xs ?items ?cur")
    case None
    with Cons.IH [where items = ?items and cur = ?cur] show ?thesis by simp
  next
    case (Some t)
    obtain items' next' stopped where t: "t = (items', next', stopped)" by (cases t)
    from Some t Cons.IH [where items = ?items and cur = ?cur]
    obtain k where k: "k \<le> length xs" "items' = ?items @ map (item_of profiles me) (take k xs)"
        "next' = (if k = 0 then ?cur else word_of_int (row_version (xs ! (k - 1))))" "stopped \<longleftrightarrow> k < length xs"
      by auto
    then show ?thesis
      using Some t by (auto intro!: exI [of _ "Suc k"] simp: nth_Cons')
  qed
  show ?case
  proof (cases "profile_missing profiles me x")
    case True
    then have "sync_loop profiles me (x # xs) items cur = (if items = [] then None else Some (items, cur, True))"
      by (simp add: profile_missing_def)
    with True show ?thesis by (auto intro: exI [of _ 0])
  next
    case False
    then have "sync_loop profiles me (x # xs) items cur = sync_loop profiles me xs ?items ?cur"
      by (auto simp: profile_missing_def item_of_def)
    with go show ?thesis by simp
  qed
qed simp

lemma page_spec:
  assumes R_def: "R = sync_rows me (sint since) db"
  shows "(\<exists>e. sync_entities_page (\<lambda>_. True) profiles me (Some since) limit db = Err e \<and>
              (\<exists>x\<in>set R. profile_missing profiles me x)) \<or>
         (\<exists>k\<le>length R. (R = [] \<or> 0 < k) \<and>
            sync_entities_page (\<lambda>_. True) profiles me (Some since) limit db =
              Ok \<lparr>sy_items = map (item_of profiles me) (take k R),
                  sy_next_version = (if R = [] then since else word_of_int (row_version (R ! (k - 1)))),
                  sy_has_more = (k < length R)\<rparr>)"
proof -
  define lim where "lim = page_limit limit"
  have lim: "0 < lim" unfolding lim_def page_limit_def by (auto simp: unat_gt_0 max_def)
  have page: "sync_entities_page (\<lambda>_. True) profiles me (Some since) limit db =
      (case sync_loop profiles me (take lim R) [] since of
         None \<Rightarrow> Err (Database ''friend sync cannot progress'')
       | Some (items, next, stopped) \<Rightarrow>
           Ok \<lparr>sy_items = items, sy_next_version = next, sy_has_more = (length (take (lim + 1) R) > lim \<or> stopped)\<rparr>)"
    unfolding sync_entities_page_def Let_def lim_def R_def by (simp add: min_def split: option.split)
  show ?thesis
  proof (cases "sync_loop profiles me (take lim R) [] since")
    case None
    with sync_loop_spec [where profiles = profiles and me = me and xs = "take lim R" and items = "[]" and cur = since] page show ?thesis
      by (auto dest: in_set_takeD)
  next
    case (Some t)
    obtain items' next' stopped where t: "t = (items', next', stopped)" by (cases t)
    have "\<exists>k\<le>length (take lim R). items' = [] @ map (item_of profiles me) (take k (take lim R)) \<and>
        next' = (if k = 0 then since else word_of_int (row_version (take lim R ! (k - 1)))) \<and>
        (stopped \<longleftrightarrow> k < length (take lim R)) \<and> ([] = ([] :: 'a sync_item list) \<longrightarrow> take lim R \<noteq> [] \<longrightarrow> 0 < k)"
      using sync_loop_spec [where profiles = profiles and me = me and xs = "take lim R" and items = "[]" and cur = since]
      unfolding Some t by (simp only: option.case prod.case)
    then obtain k where k: "k \<le> length (take lim R)" "items' = map (item_of profiles me) (take k (take lim R))"
        "next' = (if k = 0 then since else word_of_int (row_version (take lim R ! (k - 1))))"
        "stopped \<longleftrightarrow> k < length (take lim R)" "take lim R \<noteq> [] \<longrightarrow> 0 < k"
      by (elim exE conjE) (simp only: append_Nil simp_thms)
    have "k \<le> length R" "R = [] \<or> 0 < k" using k(1,5) lim by auto
    moreover have "(length (take (lim + 1) R) > lim \<or> stopped) \<longleftrightarrow> k < length R" using k(1,4) by auto
    moreover have "k \<le> lim" using k(1) by simp
    then have "items' = map (item_of profiles me) (take k R)"
        "next' = (if k = 0 then since else word_of_int (row_version (R ! (k - 1))))"
      using k(2,3) by (auto simp: min_absorb1)
    moreover have "R = [] \<longleftrightarrow> k = 0" using calculation(1,2) by auto
    ultimately show ?thesis using page Some t by auto
  qed
qed

lemma sorted_filter_drop:
  assumes "sorted_wrt (\<lambda>x y. f x < f y) xs" "0 < k" "k \<le> length xs"
  shows "filter (\<lambda>x. f x > (f (xs ! (k - 1)) :: 'k::linorder)) xs = drop k xs"
proof -
  have "\<not> f x > f (xs ! (k - 1))" if x: "x \<in> set (take k xs)" for x
  proof -
    obtain i where i: "i < k" "x = xs ! i" using x assms(3) by (auto simp: in_set_conv_nth)
    show ?thesis
    proof (cases "i = k - 1")
      case False
      with i have "i < k - 1" by simp
      with assms have "f (xs ! i) < f (xs ! (k - 1))" by (simp add: sorted_wrt_iff_nth_less)
      with i show ?thesis by simp
    qed (simp add: i)
  qed
  moreover have "f x > f (xs ! (k - 1))" if x: "x \<in> set (drop k xs)" for x
  proof -
    obtain i where i: "i < length (drop k xs)" "x = drop k xs ! i" using x by (metis in_set_conv_nth)
    then have "k - 1 < k + i" "k + i < length xs" "x = xs ! (k + i)" using assms(2) by auto
    with assms(1) show ?thesis by (simp add: sorted_wrt_iff_nth_less)
  qed
  ultimately have "filter (\<lambda>x. f x > f (xs ! (k - 1))) (take k xs) = []"
      "filter (\<lambda>x. f x > f (xs ! (k - 1))) (drop k xs) = drop k xs" by auto
  then show ?thesis by (metis append_Nil append_take_drop_id filter_append)
qed

lemma strict_sorted_sync_rows:
  assumes "version_inv db"
  shows "sorted_wrt (\<lambda>x y. row_version x < row_version y) (sync_rows me s db)"
proof -
  define rows where "rows = sync_rows me s db"
  have set: "set rows \<subseteq> set (fm_entries (fd_rows db))" by (auto simp: rows_def sync_rows_def)
  have "distinct rows"
    using distinct_fm_entries [of "fd_rows db"] by (simp add: rows_def sync_rows_def distinct_map)
  moreover have "inj_on row_version (set rows)"
  proof (rule inj_onI)
    fix x y assume "x \<in> set rows" "y \<in> set rows" and v: "row_version x = row_version y"
    with set have "x \<in> set (fm_entries (fd_rows db))" "y \<in> set (fm_entries (fd_rows db))" by auto
    then have l: "fmlookup (fd_rows db) (fst x) = Some (snd x)" "fmlookup (fd_rows db) (fst y) = Some (snd y)"
      by (metis in_fm_entries prod.collapse)+
    moreover have "fr_sync_version (snd x) = fr_sync_version (snd y)" using v by (cases x; cases y) simp
    ultimately have "fst x = fst y" using assms unfolding version_inv_def by blast
    with l show "x = y" by (simp add: prod_eq_iff)
  qed
  ultimately have "distinct (map row_version rows)" by (simp add: distinct_map)
  moreover have "sorted (map row_version rows)" by (simp add: rows_def sync_rows_def)
  ultimately show ?thesis
    using strict_sorted_iff [of "map row_version rows"] by (simp add: sorted_wrt_map rows_def)
qed

lemma sync_rows_next:
  assumes "version_inv db" "R = sync_rows me s db" "0 < k" "k \<le> length R"
  shows "sync_rows me (row_version (R ! (k - 1))) db = drop k R"
proof -
  let ?v = "row_version (R ! (k - 1))"
  have "R ! (k - 1) \<in> set R" using assms(3,4) by simp
  then have "s < ?v" by (simp add: assms(2) sync_rows_def)
  then have "sync_rows me ?v db = filter (\<lambda>x. row_version x > ?v) R"
    unfolding assms(2) sync_rows_def filter_sort
    by (auto intro!: arg_cong [of _ _ "sort_key row_version"] filter_cong)
  also have "\<dots> = drop k R"
    using sorted_filter_drop [of row_version R k] strict_sorted_sync_rows [OF assms(1)] assms(2-4) by simp
  finally show ?thesis .
qed

section \<open>Pulling everything\<close>

lemma sint_version: "0 < v \<Longrightarrow> v < 2 ^ 63 \<Longrightarrow> sint (word_of_int v :: u64) = v"
  by (simp add: signed_of_int signed_take_bit_int_eq_self)

lemma in_sync_rows:
  "((a, b), r) \<in> set (sync_rows me s db) \<longleftrightarrow>
     fmlookup (fd_rows db) (a, b) = Some r \<and> (a = me \<or> b = me) \<and> s < fr_sync_version r"
  by (simp add: sync_rows_def conj_ac)

lemma sync_row_version:
  assumes "version_inv db" "fd_seq db < 2 ^ 63" "x \<in> set (sync_rows me s db)"
  shows "0 < row_version x" "row_version x < 2 ^ 63"
proof -
  obtain k r where x: "x = (k, r)" "fmlookup (fd_rows db) k = Some r"
    using assms(3) by (auto simp: sync_rows_def set_fm_entries)
  with assms(1) have "0 < fr_sync_version r \<and> fr_sync_version r \<le> fd_seq db"
    unfolding version_inv_def by blast
  with x assms(2) show "0 < row_version x" "row_version x < 2 ^ 63" by auto
qed

lemma pull_all_spec:
  assumes "version_inv db" "fd_seq db < 2 ^ 63" "R = sync_rows me (sint since) db" "length R < n"
  shows "\<exists>r. pull_all n profiles me since limit db = Some r \<and>
           (case r of
              Ok (items, v) \<Rightarrow> items = map (item_of profiles me) R \<and> sync_rows me (sint v) db = []
            | Err _ \<Rightarrow> \<exists>x\<in>set R. profile_missing profiles me x)"
  using assms(3,4)
proof (induction n arbitrary: since R)
  case (Suc n)
  consider e where "sync_entities_page (\<lambda>_. True) profiles me (Some since) limit db = Err e"
        "\<exists>x\<in>set R. profile_missing profiles me x"
    | k where "k \<le> length R" "R = [] \<or> 0 < k"
        "sync_entities_page (\<lambda>_. True) profiles me (Some since) limit db =
           Ok \<lparr>sy_items = map (item_of profiles me) (take k R),
               sy_next_version = (if R = [] then since else word_of_int (row_version (R ! (k - 1)))),
               sy_has_more = (k < length R)\<rparr>"
    using page_spec [OF Suc.prems(1), of profiles limit] by blast
  then show ?case
  proof cases
    case 1
    then show ?thesis by simp
  next
    case k: 2
    define v :: u64 where "v = (if R = [] then since else word_of_int (row_version (R ! (k - 1))))"
    have rest: "sync_rows me (sint v) db = drop k R"
    proof (cases "R = []")
      case False
      with k have "0 < k" "R ! (k - 1) \<in> set R" by auto
      moreover have "sint v = row_version (R ! (k - 1))"
        using sync_row_version [OF assms(1,2)] calculation(2) False Suc.prems(1) by (simp add: v_def sint_version)
      ultimately show ?thesis using sync_rows_next [OF assms(1) Suc.prems(1)] k(1) by simp
    qed (use Suc.prems in \<open>simp add: v_def\<close>)
    show ?thesis
    proof (cases "k < length R")
      case True
      with k(2) have "length (drop k R) < n" using Suc.prems(2) by auto
      from Suc.IH [OF rest [symmetric] this] obtain r where r: "pull_all n profiles me v limit db = Some r"
          "case r of Ok (items, w) \<Rightarrow> items = map (item_of profiles me) (drop k R) \<and> sync_rows me (sint w) db = []
           | Err _ \<Rightarrow> \<exists>x\<in>set (drop k R). profile_missing profiles me x" by blast
      with True k(3) show ?thesis
        by (cases r) (auto simp: v_def [symmetric] map_append [symmetric] simp del: map_append dest: in_set_dropD)
    next
      case False
      with k(1,3) rest show ?thesis by (simp add: v_def [symmetric])
    qed
  qed
qed simp

text \<open>
  C22. Incremental sync of the friend list loses nothing and ends. From any cursor, pulling pages of
  any size until none is announced ends within one page per changed row, and if it succeeds it has
  delivered exactly one item, in ascending version order, for every row of the user that changed after
  the cursor, after which nothing is left to pull. It fails only when a profile that an item needs is
  missing, and never by passing over the row. The sequence of versions stays below two to the 63.
\<close>
theorem friend_sync_delivers_all:
  assumes "fd_seq (run friend_step empty_friend_db es) < 2 ^ 63"
    and "length (sync_rows me (sint since) (run friend_step empty_friend_db es)) < n"
  shows "let db = run friend_step empty_friend_db es
         in case pull_all n profiles me since limit db of
              None \<Rightarrow> False
            | Some (Err e) \<Rightarrow>
                (\<exists>k r. fmlookup (fd_rows db) k = Some r \<and> profile_missing profiles me (k, r) \<and> sint since < fr_sync_version r)
            | Some (Ok (items, v)) \<Rightarrow>
                set items = {item_of profiles me (k, r) | k r.
                    fmlookup (fd_rows db) k = Some r \<and> (fst k = me \<or> snd k = me) \<and> sint since < fr_sync_version r} \<and>
                sorted_wrt (\<lambda>a b. sint (si_version a) < sint (si_version b)) items \<and>
                pull_all 1 profiles me v limit db = Some (Ok ([], v))"
proof -
  define db where "db = run friend_step empty_friend_db es"
  define R where "R = sync_rows me (sint since) db"
  have inv: "version_inv db" by (simp add: db_def friend_run_inv)
  have seq: "fd_seq db < 2 ^ 63" using assms(1) by (simp add: db_def)
  have setR: "(k, r) \<in> set R \<longleftrightarrow> fmlookup (fd_rows db) k = Some r \<and> (fst k = me \<or> snd k = me) \<and>
      sint since < fr_sync_version r" for k r
    by (cases k) (simp add: R_def in_sync_rows)
  have ver: "sint (si_version (item_of profiles me x)) = row_version x" if "x \<in> set R" for x
    using sync_row_version [OF inv seq that [unfolded R_def]]
    by (simp add: item_of_def tombstone_def live_item_def sint_version)
  have sorted: "sorted_wrt (\<lambda>a b. sint (si_version a) < sint (si_version b)) (map (item_of profiles me) R)"
    unfolding sorted_wrt_map
    by (rule sorted_wrt_mono_rel [OF _ strict_sorted_sync_rows [OF inv, of me "sint since", folded R_def]])
       (simp add: ver)
  have stop: "pull_all 1 profiles me v limit db = Some (Ok ([], v))" if "sync_rows me (sint v) db = []" for v
    using that page_spec [OF refl, where me = me and since = v and db = db and profiles = profiles and limit = limit] by auto
  have "length R < n" using assms(2) by (simp add: db_def R_def)
  then obtain r where r: "pull_all n profiles me since limit db = Some r"
      "case r of Ok (items, v) \<Rightarrow> items = map (item_of profiles me) R \<and> sync_rows me (sint v) db = []
       | Err _ \<Rightarrow> \<exists>x\<in>set R. profile_missing profiles me x"
    using pull_all_spec [OF inv seq R_def, of n profiles limit] by blast
  show ?thesis
  proof (cases r)
    case (Ok t)
    then obtain items v where t: "r = Ok (items, v)" by (cases t) simp
    with r(2) have "items = map (item_of profiles me) R" "sync_rows me (sint v) db = []" by auto
    moreover have "set (map (item_of profiles me) R) = {item_of profiles me (k, r) | k r.
        fmlookup (fd_rows db) k = Some r \<and> (fst k = me \<or> snd k = me) \<and> sint since < fr_sync_version r}"
      unfolding setR [symmetric] by auto
    ultimately show ?thesis
      unfolding db_def [symmetric] Let_def using r(1) t sorted stop by simp
  next
    case (Err e)
    with r(2) obtain k q where "(k, q) \<in> set R" "profile_missing profiles me (k, q)" by auto
    then have "\<exists>k r. fmlookup (fd_rows db) k = Some r \<and> profile_missing profiles me (k, r) \<and> sint since < fr_sync_version r"
      using setR by blast
    with r(1) Err show ?thesis unfolding db_def [symmetric] Let_def by simp
  qed
qed

definition two_requests :: "friend_event list" where
  "two_requests = [FSend (\<lambda>_. True) 0 1 2 None None, FSend (\<lambda>_. True) 0 3 1 None None]"

theorem friend_sync_delivers_all_witness:
  "let db = run friend_step empty_friend_db two_requests
   in fd_seq db < 2 ^ 63 \<and> length (sync_rows 1 0 db) < 3 \<and>
      (case pull_all 3 (\<lambda>u. Some (u, 0)) 1 0 1 db of
         Some (Ok (items, v)) \<Rightarrow> pull_all 1 (\<lambda>u. Some (u, 0)) 1 v 1 db = Some (Ok ([], v))
       | _ \<Rightarrow> False)"
proof -
  let ?db = "run friend_step empty_friend_db two_requests"
  have rows: "fd_rows ?db = fmupd (3, 1)
        \<lparr>fr_status = 0, fr_source = None, fr_source_id = None, fr_created_at = 0, fr_updated_at = 0,
         fr_request_message = None, fr_sync_version = 2, fr_alias = None\<rparr>
      (fmupd (1, 2)
        \<lparr>fr_status = 0, fr_source = None, fr_source_id = None, fr_created_at = 0, fr_updated_at = 0,
         fr_request_message = None, fr_sync_version = 1, fr_alias = None\<rparr> fmempty)"
    and seq: "fd_seq ?db = 2"
    by (simp_all add: two_requests_def send_friend_request_with_source_def is_friend_def try_is_friend_def
        has_status_def empty_friend_db_def put_row_def Let_def)
  have "length (sync_rows 1 0 ?db) \<le> length (fm_entries (fd_rows ?db))"
    by (simp add: sync_rows_def)
  also have "\<dots> \<le> 2" unfolding length_fm_entries fm_len_def rows by (simp add: fcard_finsert_if)
  finally have len: "length (sync_rows 1 (sint (0 :: u64)) ?db) < 3" by simp
  have small: "fd_seq ?db < 2 ^ 63" by (simp add: seq)
  show ?thesis
    using friend_sync_delivers_all [OF small len, of "\<lambda>u. Some (u, 0)" 1] small len
    by (simp add: Let_def profile_missing_def del: pull_all.simps split: option.splits result.splits prod.splits)
qed

end
