(* ===== verification/ChannelModel.thy ===== *)
theory ChannelModel
  imports Prelude
begin

text \<open>
  \<open>model/channel.rs\<close>: the channel with its members, roles and permissions, the numeric codes of
  its enumerations, the moderation rules, the database rows of channels and participants, and a
  user's view of a channel. The protocol crate's wire enumeration, the JSON codec of the permission
  column and the range check of \<open>DateTime::from_timestamp_millis\<close> are parameters.
\<close>

section \<open>Enumerations and their codes\<close>

datatype channel_type = Direct | Group | Room

definition channel_type_from_i16 :: "int \<Rightarrow> channel_type" where
  "channel_type_from_i16 v =
     (if v = 0 then Direct else if v = 1 then Group else if v = 2 then Room else Direct)"

fun channel_type_to_i16 :: "channel_type \<Rightarrow> int" where
  "channel_type_to_i16 Direct = 0"
| "channel_type_to_i16 Group = 1"
| "channel_type_to_i16 Room = 2"

text \<open>
  The constructors of the protocol crate's \<open>ChannelType\<close>, as the source matches on them; their
  numbers (\<open>as_wire\<close>, \<open>from_wire\<close>) are arguments of what uses them.
\<close>

datatype wire_channel_type = WireDirect | WireGroup | WireRoom

fun to_wire :: "channel_type \<Rightarrow> wire_channel_type" where
  "to_wire Direct = WireDirect"
| "to_wire Group = WireGroup"
| "to_wire Room = WireRoom"

fun from_wire :: "wire_channel_type \<Rightarrow> channel_type" where
  "from_wire WireDirect = Direct"
| "from_wire WireGroup = Group"
| "from_wire WireRoom = Room"

definition to_wire_u8 :: "(wire_channel_type \<Rightarrow> u8) \<Rightarrow> channel_type \<Rightarrow> u8" where
  "to_wire_u8 as_wire t = as_wire (to_wire t)"

definition from_wire_u8 :: "(u8 \<Rightarrow> wire_channel_type option) \<Rightarrow> u8 \<Rightarrow> channel_type option" where
  "from_wire_u8 of_wire v = map_option from_wire (of_wire v)"

datatype channel_kind = PrivateChat | GroupChat | Broadcast

fun kind_of_type :: "channel_type \<Rightarrow> channel_kind" where
  "kind_of_type Direct = PrivateChat"
| "kind_of_type Group = GroupChat"
| "kind_of_type Room = Broadcast"

fun type_of_kind :: "channel_kind \<Rightarrow> channel_type" where
  "type_of_kind PrivateChat = Direct"
| "type_of_kind GroupChat = Group"
| "type_of_kind Broadcast = Room"

datatype channel_status = Active | Archived | Deleted | Banned

definition channel_status_from_i16 :: "int \<Rightarrow> channel_status" where
  "channel_status_from_i16 v =
     (if v = 0 then Active else if v = 1 then Archived else if v = 2 then Deleted
      else if v = 3 then Banned else Active)"

fun channel_status_to_i16 :: "channel_status \<Rightarrow> int" where
  "channel_status_to_i16 Active = 0"
| "channel_status_to_i16 Archived = 1"
| "channel_status_to_i16 Deleted = 2"
| "channel_status_to_i16 Banned = 3"

definition channel_status_to_wire_u8 :: "channel_status \<Rightarrow> u8" where
  "channel_status_to_wire_u8 s = word_of_int (channel_status_to_i16 s) + 1"

datatype member_role = Owner | Admin | Member

definition member_role_from_i16 :: "int \<Rightarrow> member_role" where
  "member_role_from_i16 v =
     (if v = 0 then Owner else if v = 1 then Admin else if v = 2 then Member else Member)"

fun member_role_to_i16 :: "member_role \<Rightarrow> int" where
  "member_role_to_i16 Owner = 0"
| "member_role_to_i16 Admin = 1"
| "member_role_to_i16 Member = 2"

definition member_role_to_wire_u8 :: "member_role \<Rightarrow> u8" where
  "member_role_to_wire_u8 r = word_of_int (member_role_to_i16 r) + 1"

section \<open>Permissions\<close>

record member_permissions =
  mp_can_send_message :: bool
  mp_can_invite :: bool
  mp_can_remove_member :: bool
  mp_can_edit_info :: bool
  mp_can_manage_permissions :: bool
  mp_can_revoke_any_message :: bool
  mp_can_pin_message :: bool
  mp_can_at_all :: bool
  mp_can_edit_settings :: bool

definition default_permissions :: member_permissions where
  "default_permissions =
     \<lparr>mp_can_send_message = True, mp_can_invite = False, mp_can_remove_member = False,
      mp_can_edit_info = False, mp_can_manage_permissions = False, mp_can_revoke_any_message = False,
      mp_can_pin_message = False, mp_can_at_all = False, mp_can_edit_settings = False\<rparr>"

definition owner_permissions :: member_permissions where
  "owner_permissions =
     \<lparr>mp_can_send_message = True, mp_can_invite = True, mp_can_remove_member = True,
      mp_can_edit_info = True, mp_can_manage_permissions = True, mp_can_revoke_any_message = True,
      mp_can_pin_message = True, mp_can_at_all = True, mp_can_edit_settings = True\<rparr>"

definition admin_permissions :: member_permissions where
  "admin_permissions =
     \<lparr>mp_can_send_message = True, mp_can_invite = True, mp_can_remove_member = True,
      mp_can_edit_info = True, mp_can_manage_permissions = False, mp_can_revoke_any_message = True,
      mp_can_pin_message = True, mp_can_at_all = True, mp_can_edit_settings = False\<rparr>"

definition plain_member_permissions :: member_permissions where
  "plain_member_permissions =
     \<lparr>mp_can_send_message = True, mp_can_invite = False, mp_can_remove_member = False,
      mp_can_edit_info = False, mp_can_manage_permissions = False, mp_can_revoke_any_message = False,
      mp_can_pin_message = False, mp_can_at_all = False, mp_can_edit_settings = False\<rparr>"

fun permissions_from_role :: "member_role \<Rightarrow> member_permissions" where
  "permissions_from_role Owner = owner_permissions"
| "permissions_from_role Admin = admin_permissions"
| "permissions_from_role Member = plain_member_permissions"

section \<open>Members\<close>

record channel_member =
  cm_user_id :: user_id
  cm_display_name :: "string option"
  cm_role :: member_role
  cm_permissions :: member_permissions
  cm_joined_at :: time
  cm_last_active_at :: time
  cm_is_muted :: bool
  cm_mute_until :: "time option"
  cm_last_read_message_id :: "message_id option"
  cm_last_read_pts :: u64

definition new_member :: "time \<Rightarrow> user_id \<Rightarrow> member_role \<Rightarrow> channel_member" where
  "new_member now u r =
     \<lparr>cm_user_id = u, cm_display_name = None, cm_role = r, cm_permissions = permissions_from_role r,
      cm_joined_at = now, cm_last_active_at = now, cm_is_muted = False, cm_mute_until = None,
      cm_last_read_message_id = None, cm_last_read_pts = 0\<rparr>"

definition update_last_active :: "time \<Rightarrow> channel_member \<Rightarrow> channel_member" where
  "update_last_active now m = m\<lparr>cm_last_active_at := now\<rparr>"

definition mark_read :: "time \<Rightarrow> message_id \<Rightarrow> channel_member \<Rightarrow> channel_member" where
  "mark_read now mid m = update_last_active now (m\<lparr>cm_last_read_message_id := Some mid\<rparr>)"

definition mark_read_pts :: "time \<Rightarrow> u64 \<Rightarrow> channel_member \<Rightarrow> channel_member" where
  "mark_read_pts now pts m = update_last_active now (m\<lparr>cm_last_read_pts := max (cm_last_read_pts m) pts\<rparr>)"

datatype moderation_error = MuteSelf | MuteOwner | AdminMutesAdmin | NotModerator

definition can_moderate_mute ::
  "user_id \<Rightarrow> user_id \<Rightarrow> member_role \<Rightarrow> member_role \<Rightarrow> (unit, moderation_error) result" where
  "can_moderate_mute operator target operator_role target_role =
     (if operator = target then Err MuteSelf
      else if target_role = Owner then Err MuteOwner
      else case operator_role of
             Owner \<Rightarrow> Ok ()
           | Admin \<Rightarrow> if target_role = Admin then Err AdminMutesAdmin else Ok ()
           | Member \<Rightarrow> Err NotModerator)"

definition mute_is_active :: "bool \<Rightarrow> time option \<Rightarrow> time \<Rightarrow> bool" where
  "mute_is_active muted mute_until now \<longleftrightarrow>
     muted \<and> (case mute_until of None \<Rightarrow> True | Some u \<Rightarrow> now < u)"

text \<open>\<open>TimeDelta::num_seconds\<close> rounds towards zero.\<close>

definition num_seconds :: "time \<Rightarrow> int" where
  "num_seconds d = (if d < 0 then - ((- d) div 1000) else d div 1000)"

datatype mute_notice = MutedForever | MutedDays int | MutedHours int | MutedMinutes int

definition mute_reject_message :: "time option \<Rightarrow> time \<Rightarrow> mute_notice" where
  "mute_reject_message mute_until now =
     (case mute_until of
        None \<Rightarrow> MutedForever
      | Some u \<Rightarrow>
          (let secs = max (num_seconds (u - now)) 0
           in if 50 * 365 * 86400 \<le> secs then MutedForever
              else if 86400 \<le> secs then MutedDays ((secs + 86399) div 86400)
              else if 3600 \<le> secs then MutedHours ((secs + 3599) div 3600)
              else MutedMinutes (max ((secs + 59) div 60) 1)))"

fun apply_group_role_truth ::
  "(user_id \<times> member_role) list \<Rightarrow> (user_id, channel_member) fmap \<Rightarrow> (user_id, channel_member) fmap \<times> nat" where
  "apply_group_role_truth [] ms = (ms, 0)"
| "apply_group_role_truth ((u, r) # truth) ms =
     (case fmlookup ms u of
        Some m \<Rightarrow>
          if cm_role m \<noteq> r
          then (let (ms', n) = apply_group_role_truth truth (fmupd u (m\<lparr>cm_role := r\<rparr>) ms) in (ms', n + 1))
          else apply_group_role_truth truth ms
      | None \<Rightarrow> apply_group_role_truth truth ms)"

section \<open>Participants\<close>

text \<open>
  The participant table. An \<open>i64\<close> column is an integer; the casts \<open>as u64\<close> and \<open>as i64\<close>
  keep the 64 bits. \<open>from_ms\<close> is \<open>DateTime::from_timestamp_millis\<close>, and the permission column
  goes through the JSON codec.
\<close>

record channel_participant =
  pa_channel_id :: channel_id
  pa_user_id :: user_id
  pa_role :: member_role
  pa_nickname :: "string option"
  pa_permissions :: member_permissions
  pa_mute_until :: "time option"
  pa_joined_at :: time
  pa_left_at :: "time option"

type_synonym 'j participant_row =
  "int \<times> int \<times> int \<times> string option \<times> 'j \<times> int option \<times> int \<times> int option"

definition participant_from_db_row ::
  "(int \<Rightarrow> time option) \<Rightarrow> ('j \<Rightarrow> member_permissions option) \<Rightarrow> time \<Rightarrow> 'j participant_row \<Rightarrow> channel_participant" where
  "participant_from_db_row from_ms from_value now row =
     (case row of (channel_id, uid, role, nickname, permissions, mute_until, joined_at, left_at) \<Rightarrow>
        \<lparr>pa_channel_id = word_of_int channel_id, pa_user_id = word_of_int uid,
         pa_role = member_role_from_i16 role, pa_nickname = nickname,
         pa_permissions = (case from_value permissions of Some p \<Rightarrow> p | None \<Rightarrow> default_permissions),
         pa_mute_until = Option.bind mute_until from_ms,
         pa_joined_at = (case from_ms joined_at of Some t \<Rightarrow> t | None \<Rightarrow> now),
         pa_left_at = Option.bind left_at from_ms\<rparr>)"

definition participant_to_db_values ::
  "(member_permissions \<Rightarrow> 'j option) \<Rightarrow> 'j \<Rightarrow> channel_participant \<Rightarrow> 'j participant_row" where
  "participant_to_db_values to_value empty_object p =
     (sint (pa_channel_id p), sint (pa_user_id p), member_role_to_i16 (pa_role p), pa_nickname p,
      (case to_value (pa_permissions p) of Some v \<Rightarrow> v | None \<Rightarrow> empty_object),
      pa_mute_until p, pa_joined_at p, pa_left_at p)"

definition to_channel_member :: "time \<Rightarrow> channel_participant \<Rightarrow> channel_member" where
  "to_channel_member now p =
     \<lparr>cm_user_id = pa_user_id p, cm_display_name = pa_nickname p, cm_role = pa_role p,
      cm_permissions = pa_permissions p, cm_joined_at = pa_joined_at p, cm_last_active_at = pa_joined_at p,
      cm_is_muted = (case pa_mute_until p of None \<Rightarrow> False | Some u \<Rightarrow> now < u),
      cm_mute_until = pa_mute_until p, cm_last_read_message_id = None, cm_last_read_pts = 0\<rparr>"

section \<open>The channel\<close>

record channel_metadata =
  md_name :: "string option"
  md_description :: "string option"
  md_avatar_url :: "string option"
  md_custom_properties :: "(string, string) fmap"
  md_allow_invite :: bool
  md_max_members :: "nat option"
  md_is_public :: bool
  md_announcement :: "string option"
  md_tags :: "string list"

definition default_metadata :: channel_metadata where
  "default_metadata =
     \<lparr>md_name = None, md_description = None, md_avatar_url = None, md_custom_properties = fmempty,
      md_allow_invite = True, md_max_members = None, md_is_public = False, md_announcement = None,
      md_tags = []\<rparr>"

record channel_settings =
  cs_allow_member_post :: bool
  cs_is_muted :: bool
  cs_is_public :: bool
  cs_allow_member_invite :: bool
  cs_require_approval :: bool
  cs_allow_member_add_friend :: bool
  cs_allow_search :: bool
  cs_join_policy :: u8
  cs_max_members :: "u32 option"
  cs_history_visible :: bool
  cs_allow_anonymous :: bool

definition default_settings :: channel_settings where
  "default_settings =
     \<lparr>cs_allow_member_post = True, cs_is_muted = False, cs_is_public = False,
      cs_allow_member_invite = True, cs_require_approval = False, cs_allow_member_add_friend = True,
      cs_allow_search = True, cs_join_policy = 1, cs_max_members = None, cs_history_visible = True,
      cs_allow_anonymous = False\<rparr>"

record group_policy =
  gp_allow_search :: bool
  gp_join_policy :: int
  gp_allow_member_invite :: bool
  gp_allow_member_add_friend :: bool
  gp_all_muted :: bool
  gp_allow_member_post :: bool
  gp_forbid_forward :: bool

definition default_group_policy :: group_policy where
  "default_group_policy =
     \<lparr>gp_allow_search = True, gp_join_policy = 1, gp_allow_member_invite = True,
      gp_allow_member_add_friend = True, gp_all_muted = False, gp_allow_member_post = True,
      gp_forbid_forward = False\<rparr>"

record channel =
  ch_id :: channel_id
  ch_channel_type :: channel_type
  ch_status :: channel_status
  ch_members :: "(user_id, channel_member) fmap"
  ch_metadata :: channel_metadata
  ch_creator_id :: user_id
  ch_direct_user1_id :: "user_id option"
  ch_direct_user2_id :: "user_id option"
  ch_group_id :: "u64 option"
  ch_last_message_id :: "message_id option"
  ch_last_message_at :: "time option"
  ch_message_count :: int
  ch_created_at :: time
  ch_updated_at :: time
  ch_sync_version :: int
  ch_settings :: "channel_settings option"

definition new_direct :: "time \<Rightarrow> channel_id \<Rightarrow> user_id \<Rightarrow> user_id \<Rightarrow> channel" where
  "new_direct now cid u1 u2 =
     \<lparr>ch_id = cid, ch_channel_type = Direct, ch_status = Active,
      ch_members = fmupd u2 (new_member now u2 Member) (fmupd u1 (new_member now u1 Member) fmempty),
      ch_metadata = default_metadata, ch_creator_id = u1, ch_direct_user1_id = Some u1,
      ch_direct_user2_id = Some u2, ch_group_id = None, ch_last_message_id = None,
      ch_last_message_at = None, ch_message_count = 0, ch_created_at = now, ch_updated_at = now,
      ch_sync_version = now, ch_settings = None\<rparr>"

definition new_group :: "time \<Rightarrow> channel_id \<Rightarrow> user_id \<Rightarrow> string option \<Rightarrow> channel" where
  "new_group now cid creator name =
     \<lparr>ch_id = cid, ch_channel_type = Group, ch_status = Active,
      ch_members = fmupd creator (new_member now creator Owner) fmempty,
      ch_metadata = default_metadata\<lparr>md_name := name\<rparr>, ch_creator_id = creator,
      ch_direct_user1_id = None, ch_direct_user2_id = None, ch_group_id = Some cid,
      ch_last_message_id = None, ch_last_message_at = None, ch_message_count = 0,
      ch_created_at = now, ch_updated_at = now, ch_sync_version = now, ch_settings = None\<rparr>"

record channel_row =
  cr_channel_id :: int
  cr_channel_type :: int
  cr_direct_user1_id :: "int option"
  cr_direct_user2_id :: "int option"
  cr_group_id :: "int option"
  cr_last_message_id :: "int option"
  cr_last_message_at :: "int option"
  cr_message_count :: int
  cr_created_at :: int
  cr_updated_at :: int

definition channel_from_db_row :: "(int \<Rightarrow> time option) \<Rightarrow> time \<Rightarrow> channel_row \<Rightarrow> int \<Rightarrow> channel" where
  "channel_from_db_row from_ms now row sync_version =
     (let conv_type = channel_type_from_i16 (cr_channel_type row);
          creator = (case conv_type of
                       Direct \<Rightarrow> (case cr_direct_user1_id row of Some i \<Rightarrow> word_of_int i | None \<Rightarrow> 0)
                     | Group \<Rightarrow> 0
                     | Room \<Rightarrow> 0)
      in \<lparr>ch_id = word_of_int (cr_channel_id row), ch_channel_type = conv_type, ch_status = Active,
          ch_members = fmempty, ch_metadata = default_metadata, ch_creator_id = creator,
          ch_direct_user1_id = map_option word_of_int (cr_direct_user1_id row),
          ch_direct_user2_id = map_option word_of_int (cr_direct_user2_id row),
          ch_group_id = map_option word_of_int (cr_group_id row),
          ch_last_message_id = map_option word_of_int (cr_last_message_id row),
          ch_last_message_at = Option.bind (cr_last_message_at row) from_ms,
          ch_message_count = cr_message_count row,
          ch_created_at = (case from_ms (cr_created_at row) of Some t \<Rightarrow> t | None \<Rightarrow> now),
          ch_updated_at = (case from_ms (cr_updated_at row) of Some t \<Rightarrow> t | None \<Rightarrow> now),
          ch_sync_version = sync_version, ch_settings = None\<rparr>)"

definition channel_to_db_values :: "channel \<Rightarrow> channel_row" where
  "channel_to_db_values c =
     \<lparr>cr_channel_id = sint (ch_id c), cr_channel_type = channel_type_to_i16 (ch_channel_type c),
      cr_direct_user1_id = map_option sint (ch_direct_user1_id c),
      cr_direct_user2_id = map_option sint (ch_direct_user2_id c),
      cr_group_id = map_option sint (ch_group_id c),
      cr_last_message_id = map_option sint (ch_last_message_id c),
      cr_last_message_at = ch_last_message_at c, cr_message_count = ch_message_count c,
      cr_created_at = ch_created_at c, cr_updated_at = ch_updated_at c\<rparr>"

section \<open>Operations\<close>

datatype channel_error =
    MemberAlreadyExists
  | MaximumMembersReached
  | DirectOnlyMemberRole
  | CannotRemoveOwner
  | CannotRemoveFromDirect
  | MemberNotFound
  | CannotChangeRolesInDirect
  | CannotChangeOwnerRole

definition add_member ::
  "time \<Rightarrow> user_id \<Rightarrow> member_role option \<Rightarrow> channel \<Rightarrow> channel \<times> (unit, channel_error) result" where
  "add_member now u role c =
     (if fmlookup (ch_members c) u \<noteq> None then (c, Err MemberAlreadyExists)
      else if (case md_max_members (ch_metadata c) of None \<Rightarrow> False | Some n \<Rightarrow> n \<le> fm_len (ch_members c))
      then (c, Err MaximumMembersReached)
      else let r = (case role of None \<Rightarrow> Member | Some r \<Rightarrow> r)
           in if ch_channel_type c = Direct \<and> r \<noteq> Member then (c, Err DirectOnlyMemberRole)
              else (c\<lparr>ch_members := fmupd u (new_member now u r) (ch_members c), ch_updated_at := now\<rparr>, Ok ()))"

definition remove_member ::
  "time \<Rightarrow> user_id \<Rightarrow> channel \<Rightarrow> channel \<times> (channel_member, channel_error) result" where
  "remove_member now u c =
     (if map_option cm_role (fmlookup (ch_members c) u) = Some Owner then (c, Err CannotRemoveOwner)
      else if ch_channel_type c = Direct then (c, Err CannotRemoveFromDirect)
      else case fmlookup (ch_members c) u of
             None \<Rightarrow> (c, Err MemberNotFound)
           | Some m \<Rightarrow> (c\<lparr>ch_members := fmdrop u (ch_members c), ch_updated_at := now\<rparr>, Ok m))"

definition update_member_role ::
  "time \<Rightarrow> user_id \<Rightarrow> member_role \<Rightarrow> channel \<Rightarrow> channel \<times> (unit, channel_error) result" where
  "update_member_role now u new_role c =
     (case fmlookup (ch_members c) u of
        None \<Rightarrow> (c, Err MemberNotFound)
      | Some m \<Rightarrow>
          if ch_channel_type c = Direct then (c, Err CannotChangeRolesInDirect)
          else if cm_role m = Owner then (c, Err CannotChangeOwnerRole)
          else (c\<lparr>ch_members := fmupd u (m\<lparr>cm_role := new_role, cm_permissions := permissions_from_role new_role\<rparr>)
                                  (ch_members c),
                  ch_updated_at := now\<rparr>, Ok ()))"

definition check_permission :: "user_id \<Rightarrow> (member_permissions \<Rightarrow> bool) \<Rightarrow> channel \<Rightarrow> bool" where
  "check_permission u permission c =
     (case fmlookup (ch_members c) u of Some m \<Rightarrow> permission (cm_permissions m) | None \<Rightarrow> False)"

fun push_missing :: "user_id option list \<Rightarrow> user_id list \<Rightarrow> user_id list" where
  "push_missing [] ids = ids"
| "push_missing (None # xs) ids = push_missing xs ids"
| "push_missing (Some i # xs) ids = push_missing xs (if i \<in> set ids then ids else ids @ [i])"

definition get_member_ids :: "channel \<Rightarrow> user_id list" where
  "get_member_ids c =
     (if ch_channel_type c = Direct then push_missing [ch_direct_user1_id c, ch_direct_user2_id c] []
      else map fst (fm_entries (ch_members c)))"

definition is_member :: "user_id \<Rightarrow> channel \<Rightarrow> bool" where
  "is_member u c =
     (if ch_channel_type c = Direct then ch_direct_user1_id c = Some u \<or> ch_direct_user2_id c = Some u
      else fmlookup (ch_members c) u \<noteq> None)"

definition direct_peer :: "user_id \<Rightarrow> channel \<Rightarrow> user_id option" where
  "direct_peer u c =
     (if ch_channel_type c \<noteq> Direct then None
      else case (ch_direct_user1_id c, ch_direct_user2_id c) of
             (Some a, Some b) \<Rightarrow> if a = u then Some b else if b = u then Some a else None
           | _ \<Rightarrow> None)"

definition update_last_message :: "time \<Rightarrow> message_id \<Rightarrow> channel \<Rightarrow> channel" where
  "update_last_message now mid c =
     c\<lparr>ch_last_message_id := Some mid, ch_last_message_at := Some now,
       ch_message_count := wrap_i64 (ch_message_count c + 1), ch_updated_at := now\<rparr>"

definition mark_member_read ::
  "time \<Rightarrow> user_id \<Rightarrow> message_id \<Rightarrow> channel \<Rightarrow> channel \<times> (unit, channel_error) result" where
  "mark_member_read now u mid c =
     (case fmlookup (ch_members c) u of
        None \<Rightarrow> (c, Err MemberNotFound)
      | Some m \<Rightarrow> (c\<lparr>ch_members := fmupd u (mark_read now mid m) (ch_members c)\<rparr>, Ok ()))"

definition get_unread_count :: "channel \<Rightarrow> nat" where
  "get_unread_count c =
     (case ch_last_message_id c of
        Some _ \<Rightarrow> length (filter (\<lambda>(_, m). cm_last_read_message_id m = None) (fm_entries (ch_members c)))
      | None \<Rightarrow> 0)"

definition is_active :: "channel \<Rightarrow> bool" where
  "is_active c \<longleftrightarrow> ch_status c = Active"

definition archive :: "time \<Rightarrow> channel \<Rightarrow> channel" where
  "archive now c = c\<lparr>ch_status := Archived, ch_updated_at := now\<rparr>"

definition unarchive :: "time \<Rightarrow> channel \<Rightarrow> channel" where
  "unarchive now c = c\<lparr>ch_status := Active, ch_updated_at := now\<rparr>"

definition can_user_post :: "user_id \<Rightarrow> channel \<Rightarrow> bool" where
  "can_user_post u c =
     (case fmlookup (ch_members c) u of
        Some m \<Rightarrow>
          if (case ch_settings c of Some st \<Rightarrow> \<not> cs_allow_member_post st \<and> cm_role m \<noteq> Owner | None \<Rightarrow> False)
          then False else mp_can_send_message (cm_permissions m)
      | None \<Rightarrow> False)"

section \<open>A user's view of a channel\<close>

record user_channel_view =
  uv_user_id :: user_id
  uv_channel_id :: channel_id
  uv_last_read_message_id :: "message_id option"
  uv_is_muted :: bool
  uv_is_pinned :: bool
  uv_unread_count :: u32
  uv_remark :: "string option"
  uv_custom_title :: "string option"
  uv_last_viewed_at :: time
  uv_created_at :: time
  uv_updated_at :: time
  uv_is_hidden :: bool
  uv_sort_weight :: int

definition new_user_channel_view :: "time \<Rightarrow> user_id \<Rightarrow> channel_id \<Rightarrow> user_channel_view" where
  "new_user_channel_view now u cid =
     \<lparr>uv_user_id = u, uv_channel_id = cid, uv_last_read_message_id = None, uv_is_muted = False,
      uv_is_pinned = False, uv_unread_count = 0, uv_remark = None, uv_custom_title = None,
      uv_last_viewed_at = now, uv_created_at = now, uv_updated_at = now, uv_is_hidden = False,
      uv_sort_weight = 0\<rparr>"

definition view_mark_as_read :: "time \<Rightarrow> message_id \<Rightarrow> user_channel_view \<Rightarrow> user_channel_view" where
  "view_mark_as_read now mid v =
     v\<lparr>uv_last_read_message_id := Some mid, uv_unread_count := 0, uv_last_viewed_at := now, uv_updated_at := now\<rparr>"

definition view_increment_unread :: "time \<Rightarrow> user_channel_view \<Rightarrow> user_channel_view" where
  "view_increment_unread now v =
     (if uv_is_muted v then v else v\<lparr>uv_unread_count := uv_unread_count v + 1, uv_updated_at := now\<rparr>)"

definition view_set_muted :: "time \<Rightarrow> bool \<Rightarrow> user_channel_view \<Rightarrow> user_channel_view" where
  "view_set_muted now muted v =
     (let v1 = v\<lparr>uv_is_muted := muted\<rparr>;
          v2 = (if muted then v1\<lparr>uv_unread_count := 0\<rparr> else v1)
      in v2\<lparr>uv_updated_at := now\<rparr>)"

definition view_set_pinned :: "time \<Rightarrow> bool \<Rightarrow> user_channel_view \<Rightarrow> user_channel_view" where
  "view_set_pinned now pinned v = v\<lparr>uv_is_pinned := pinned, uv_updated_at := now\<rparr>"

definition view_set_remark :: "time \<Rightarrow> string option \<Rightarrow> user_channel_view \<Rightarrow> user_channel_view" where
  "view_set_remark now remark v = v\<lparr>uv_remark := remark, uv_updated_at := now\<rparr>"

section \<open>Runs of a channel\<close>

datatype channel_event =
    CAdd time user_id "member_role option"
  | CRemove time user_id
  | CRole time user_id member_role
  | CRead time user_id message_id
  | CMessage time message_id
  | CArchive time
  | CUnarchive time

fun chan_step :: "channel \<Rightarrow> channel_event \<Rightarrow> channel" where
  "chan_step c (CAdd now u r) = fst (add_member now u r c)"
| "chan_step c (CRemove now u) = fst (remove_member now u c)"
| "chan_step c (CRole now u r) = fst (update_member_role now u r c)"
| "chan_step c (CRead now u mid) = fst (mark_member_read now u mid c)"
| "chan_step c (CMessage now mid) = update_last_message now mid c"
| "chan_step c (CArchive now) = archive now c"
| "chan_step c (CUnarchive now) = unarchive now c"

definition member_ok :: "user_id \<Rightarrow> channel_member \<Rightarrow> bool" where
  "member_ok u m \<longleftrightarrow> cm_user_id m = u \<and> cm_permissions m = permissions_from_role (cm_role m)"

definition members_ok :: "channel \<Rightarrow> bool" where
  "members_ok c \<longleftrightarrow> (\<forall>u m. fmlookup (ch_members c) u = Some m \<longrightarrow> member_ok u m)"

definition group_inv :: "user_id \<Rightarrow> channel \<Rightarrow> bool" where
  "group_inv owner c \<longleftrightarrow>
     members_ok c \<and> ch_channel_type c = Group \<and>
     map_option cm_role (fmlookup (ch_members c) owner) = Some Owner"

definition direct_inv :: "user_id \<Rightarrow> user_id \<Rightarrow> channel \<Rightarrow> bool" where
  "direct_inv a b c \<longleftrightarrow>
     members_ok c \<and> ch_channel_type c = Direct \<and>
     ch_direct_user1_id c = Some a \<and> ch_direct_user2_id c = Some b \<and>
     a |\<in>| fmdom (ch_members c) \<and> b |\<in>| fmdom (ch_members c) \<and>
     (\<forall>u m. fmlookup (ch_members c) u = Some m \<longrightarrow> cm_role m = Member)"

lemmas channel_op_defs =
  add_member_def remove_member_def update_member_role_def mark_member_read_def
  update_last_message_def archive_def unarchive_def mark_read_def update_last_active_def new_member_def

lemma members_ok_step: "members_ok c \<Longrightarrow> members_ok (chan_step c e)"
  by (cases e) (auto simp: members_ok_def member_ok_def channel_op_defs Let_def split: option.splits)

lemma owner_stays:
  "map_option cm_role (fmlookup (ch_members c) u) = Some Owner \<Longrightarrow>
   map_option cm_role (fmlookup (ch_members (chan_step c e)) u) = Some Owner"
  by (cases e) (auto simp: channel_op_defs Let_def split: option.splits)

lemma chan_step_frame [simp]:
  "ch_channel_type (chan_step c e) = ch_channel_type c"
  "ch_direct_user1_id (chan_step c e) = ch_direct_user1_id c"
  "ch_direct_user2_id (chan_step c e) = ch_direct_user2_id c"
  by (cases e; auto simp: channel_op_defs Let_def split: option.splits)+

lemma direct_members_step:
  assumes "ch_channel_type c = Direct"
    and "\<forall>u m. fmlookup (ch_members c) u = Some m \<longrightarrow> cm_role m = Member"
  shows "fmdom (ch_members c) |\<subseteq>| fmdom (ch_members (chan_step c e))"
    and "\<forall>u m. fmlookup (ch_members (chan_step c e)) u = Some m \<longrightarrow> cm_role m = Member"
  using assms by (cases e; fastforce simp: channel_op_defs Let_def split: option.splits if_splits)+

interpretation group_system: invariant_system
  "new_group now cid owner name" chan_step "\<lambda>_ _. True" "group_inv owner"
  by unfold_locales
     (auto simp: group_inv_def members_ok_step owner_stays,
      auto simp: members_ok_def member_ok_def new_group_def new_member_def split: if_splits)

interpretation direct_system: invariant_system
  "new_direct now cid a b" chan_step "\<lambda>_ _. True" "direct_inv a b"
proof
  show "direct_inv a b (new_direct now cid a b)"
    by (auto simp: direct_inv_def members_ok_def member_ok_def new_direct_def new_member_def split: if_splits)
next
  fix c e assume inv: "direct_inv a b c"
  then have ok: "members_ok (chan_step c e)" by (simp add: direct_inv_def members_ok_step)
  from inv direct_members_step [of c e] ok show "direct_inv a b (chan_step c e)"
    unfolding direct_inv_def by auto
qed


section \<open>Membership\<close>

lemma set_push_missing: "set (push_missing xs ids) = set ids \<union> {i. Some i \<in> set xs}"
  by (induction xs ids rule: push_missing.induct) auto

lemma distinct_push_missing: "distinct ids \<Longrightarrow> distinct (push_missing xs ids)"
  by (induction xs ids rule: push_missing.induct) auto

lemma is_member_iff: "is_member u c \<longleftrightarrow> u \<in> set (get_member_ids c)"
  by (auto simp: is_member_def get_member_ids_def set_push_missing map_fst_fm_entries fmlookup_dom_iff)

lemma distinct_get_member_ids: "distinct (get_member_ids c)"
  by (simp add: get_member_ids_def distinct_push_missing distinct_fm_entries)

text \<open>
  C20. Who belongs to a conversation is answered the same way everywhere: the member list has no
  duplicates and holds exactly the users \<open>is_member\<close> accepts. In a direct conversation these are
  the two founding users and each is the other's peer, whatever is done to the participants; a
  participant added later gains nothing.
\<close>
theorem direct_pair_is_fixed:
  "distinct (get_member_ids ch) \<and> (is_member u ch \<longleftrightarrow> u \<in> set (get_member_ids ch)) \<and>
   (let c = run chan_step (new_direct now cid a b) es
    in get_member_ids c = (if a = b then [a] else [a, b]) \<and>
       (is_member u c \<longleftrightarrow> u \<in> {a, b}) \<and>
       direct_peer a c = Some b \<and> direct_peer b c = Some a \<and>
       (direct_peer u c = None \<longleftrightarrow> u \<notin> {a, b}))"
proof -
  define c where "c = run chan_step (new_direct now cid a b) es"
  have "direct_inv a b c"
    using direct_system.run_inv [where es = es] by (simp add: c_def)
  then show ?thesis
    unfolding c_def [symmetric] Let_def
    by (auto simp: is_member_iff [symmetric] distinct_get_member_ids)
       (auto simp: direct_inv_def get_member_ids_def is_member_def direct_peer_def split: if_splits)
qed

section \<open>Codes and rows\<close>

lemma i16_round_trips [simp]:
  "channel_type_from_i16 (channel_type_to_i16 t) = t"
  "channel_status_from_i16 (channel_status_to_i16 st) = st"
  "member_role_from_i16 (member_role_to_i16 r) = r"
proof -
  show "channel_type_from_i16 (channel_type_to_i16 t) = t"
    by (cases t) (simp_all add: channel_type_from_i16_def)
  show "channel_status_from_i16 (channel_status_to_i16 st) = st"
    by (cases st) (simp_all add: channel_status_from_i16_def)
  show "member_role_from_i16 (member_role_to_i16 r) = r"
    by (cases r) (simp_all add: member_role_from_i16_def)
qed

lemma wire_round_trips [simp]: "from_wire (to_wire t) = t" "to_wire (from_wire w) = w"
  by (cases t; simp) (cases w; simp)

lemma kind_round_trips [simp]: "type_of_kind (kind_of_type t) = t" "kind_of_type (type_of_kind k) = k"
  by (cases t; simp) (cases k; simp)

text \<open>
  The two numberings of channel types. If the protocol crate numbers direct, group and room
  channels 1, 2 and 3 and rejects every other byte, then a type survives the wire in both
  directions, it survives the database column, and mixing the two up never goes unpunished: a
  database number read as a wire byte is rejected or names another type.
\<close>
theorem channel_type_codes:
  assumes "as_wire WireDirect = 1" "as_wire WireGroup = 2" "as_wire WireRoom = 3"
    and of_wire: "\<And>v w. of_wire v = Some w \<longleftrightarrow> as_wire w = v"
  shows "from_wire_u8 of_wire (to_wire_u8 as_wire t) = Some t \<and>
         (from_wire_u8 of_wire v = Some t \<longleftrightarrow> v = to_wire_u8 as_wire t) \<and>
         channel_type_from_i16 (channel_type_to_i16 t) = t \<and>
         from_wire_u8 of_wire (word_of_int (channel_type_to_i16 t)) \<noteq> Some t"
proof -
  have iff: "from_wire_u8 of_wire v = Some t \<longleftrightarrow> v = to_wire_u8 as_wire t" for v
  proof -
    have "from_wire_u8 of_wire v = Some t \<longleftrightarrow> of_wire v = Some (to_wire t)"
      unfolding from_wire_u8_def map_option_eq_Some by (metis wire_round_trips)
    then show ?thesis by (auto simp: of_wire to_wire_u8_def)
  qed
  show ?thesis unfolding iff
    using assms(1-3) by (cases t) (simp_all add: to_wire_u8_def channel_type_from_i16_def)
qed

text \<open>Witness of C29, with the numbering the protocol documents.\<close>
theorem channel_type_codes_witness:
  "let as_wire = (\<lambda>w. case w of WireDirect \<Rightarrow> 1 | WireGroup \<Rightarrow> 2 | WireRoom \<Rightarrow> 3);
       of_wire = (\<lambda>v::u8. if v = 1 then Some WireDirect else if v = 2 then Some WireGroup
                          else if v = 3 then Some WireRoom else None)
   in from_wire_u8 of_wire (to_wire_u8 as_wire Group) = Some Group \<and>
      from_wire_u8 of_wire (word_of_int (channel_type_to_i16 Group)) \<noteq> Some Group"
proof -
  let ?as_wire = "\<lambda>w. case w of WireDirect \<Rightarrow> (1 :: u8) | WireGroup \<Rightarrow> 2 | WireRoom \<Rightarrow> 3"
  let ?of_wire = "\<lambda>v::u8. if v = 1 then Some WireDirect else if v = 2 then Some WireGroup
                          else if v = 3 then Some WireRoom else None"
  have inverse: "?of_wire v = Some w \<longleftrightarrow> ?as_wire w = v" for v w
    by (cases w) auto
  show ?thesis
    using channel_type_codes [of ?as_wire ?of_wire Group 2, OF _ _ _ inverse] by (simp add: Let_def)
qed

text \<open>
  A channel and a participant survive the database: everything that has a column is read back as it
  was, if the timestamps are in the range \<open>from_timestamp_millis\<close> accepts and the JSON codec
  inverts itself.
\<close>

lemma channel_row_round_trip:
  assumes "\<And>t. from_ms t = Some t"
  shows "channel_from_db_row from_ms now (channel_to_db_values c) v =
           c\<lparr>ch_status := Active, ch_members := fmempty, ch_metadata := default_metadata,
             ch_creator_id := (if ch_channel_type c = Direct
                               then case ch_direct_user1_id c of Some u \<Rightarrow> u | None \<Rightarrow> 0 else 0),
             ch_sync_version := v, ch_settings := None\<rparr>"
proof -
  have "from_ms = Some" using assms by (simp add: fun_eq_iff)
  then show ?thesis
    by (cases c)
       (auto simp: channel_from_db_row_def channel_to_db_values_def Let_def option.map_comp comp_def
             option.map_ident split: channel_type.splits option.splits)
qed

lemma participant_row_round_trip:
  assumes "\<And>t. from_ms t = Some t" "\<And>p. Option.bind (to_value p) from_value = Some p"
  shows "participant_from_db_row from_ms from_value now (participant_to_db_values to_value empty_object p) = p"
proof -
  obtain v where "to_value (pa_permissions p) = Some v" "from_value v = Some (pa_permissions p)"
    using assms(2) [of "pa_permissions p"] by (auto simp: bind_eq_Some_conv)
  with assms(1) show ?thesis
    by (cases p) (auto simp: participant_from_db_row_def participant_to_db_values_def split: bind_splits)
qed

text \<open>A stored role that the permission column does not accompany yields plain permissions.\<close>

lemma participant_without_permissions:
  assumes "from_value empty_object = None"
  shows "cm_permissions (to_channel_member now
           (participant_from_db_row from_ms from_value now
             (cid, uid, member_role_to_i16 r, nick, empty_object, mute, joined, left))) = default_permissions"
  using assms by (simp add: participant_from_db_row_def to_channel_member_def)

section \<open>Repairing roles\<close>

lemma apply_group_role_truth_absent:
  "u \<notin> fst ` set truth \<Longrightarrow>
   fmlookup (fst (apply_group_role_truth truth ms)) u = fmlookup ms u"
  by (induction truth ms rule: apply_group_role_truth.induct)
     (auto simp: case_prod_beta Let_def split: option.splits)

definition drifted :: "(user_id \<times> member_role) list \<Rightarrow> (user_id, channel_member) fmap \<Rightarrow> user_id list" where
  "drifted truth ms =
     map fst (filter (\<lambda>(u, r). map_option (\<lambda>m. cm_role m \<noteq> r) (fmlookup ms u) = Some True) truth)"

lemma drifted_Cons:
  "drifted [] ms = []"
  "drifted ((u, r) # truth) ms =
     (if map_option cm_role (fmlookup ms u) \<in> {None, Some r} then drifted truth ms else u # drifted truth ms)"
  by (auto simp: drifted_def)

lemma drifted_upd:
  "u \<notin> fst ` set truth \<Longrightarrow> drifted truth (fmupd u m ms) = drifted truth ms"
  unfolding drifted_def by (rule arg_cong [of _ _ "map fst"], rule filter_cong) (auto simp: image_iff)

lemma apply_group_role_truth_exact:
  "distinct (map fst truth) \<Longrightarrow>
   fmlookup (fst (apply_group_role_truth truth ms)) u =
     map_option (\<lambda>m. case map_of truth u of None \<Rightarrow> m | Some r \<Rightarrow> m\<lparr>cm_role := r\<rparr>) (fmlookup ms u) \<and>
   snd (apply_group_role_truth truth ms) = length (drifted truth ms)"
proof (induction truth ms rule: apply_group_role_truth.induct)
  case (1 ms)
  then show ?case by (cases "fmlookup ms u") (simp_all add: drifted_Cons)
next
  case (2 v r truth ms)
  from "2.prems" have v: "v \<notin> fst ` set truth" "map_of truth v = None" and d: "distinct (map fst truth)"
    by (simp_all add: map_of_eq_None_iff)
  note at_v = apply_group_role_truth_absent [OF v(1)] drifted_upd [OF v(1)]
  show ?case
  proof (cases "fmlookup ms v")
    case None
    with "2.IH"(1) [OF None d] v show ?thesis by (cases "u = v") (simp_all add: drifted_Cons at_v)
  next
    case (Some m)
    show ?thesis
    proof (cases "cm_role m = r")
      case True
      with "2.IH"(3) [OF Some _ d] Some v show ?thesis
        by (cases "u = v") (simp_all add: drifted_Cons at_v)
    next
      case False
      with "2.IH"(2) [OF Some _ d] Some v at_v show ?thesis
        by (cases "u = v") (simp_all add: drifted_Cons case_prod_beta Let_def)
    qed
  qed
qed

text \<open>Overwriting the mirrored roles with the roles of the group table gives every member that is
  known to both sides the role of the table, adds and removes nobody and reports the number of
  members whose role had drifted. It does not repair the permissions: \<open>check_permission\<close> answers
  as before for everybody, so an owner whose role is restored still lacks an owner's permissions.
\<close>
theorem role_repair_exact:
  assumes "distinct (map fst truth)"
  shows "let (ms, repaired) = apply_group_role_truth truth (ch_members c);
             c' = c\<lparr>ch_members := ms\<rparr>
         in fmdom ms = fmdom (ch_members c) \<and>
            map_option cm_role (fmlookup ms u) =
              (case fmlookup (ch_members c) u of
                 None \<Rightarrow> None
               | Some m \<Rightarrow> Some (case map_of truth u of None \<Rightarrow> cm_role m | Some r \<Rightarrow> r)) \<and>
            repaired = length (drifted truth (ch_members c)) \<and>
            check_permission u permission c' = check_permission u permission c"
proof -
  let ?ms = "fst (apply_group_role_truth truth (ch_members c))"
  note exact = apply_group_role_truth_exact [OF assms, of "ch_members c"]
  have "fmlookup ?ms v = None \<longleftrightarrow> fmlookup (ch_members c) v = None" for v
    using exact [of v] by simp
  then have "fmdom ?ms = fmdom (ch_members c)"
    by (auto simp: fset_eq_iff fmlookup_dom_iff) (metis not_Some_eq)+
  then show ?thesis
    using exact [of u]
    by (auto simp: check_permission_def case_prod_beta split: option.splits)
qed

text \<open>Witness of C30: the owner of the group table is a plain member in the mirror.\<close>
theorem role_repair_exact_witness:
  "let c = (new_group 0 9 1 None)\<lparr>ch_members := fmupd 1 (new_member 0 1 Member) fmempty\<rparr>;
       (ms, repaired) = apply_group_role_truth [(1, Owner)] (ch_members c);
       c' = c\<lparr>ch_members := ms\<rparr>
   in repaired = 1 \<and> map_option cm_role (fmlookup ms 1) = Some Owner \<and>
      \<not> check_permission 1 mp_can_edit_info c'"
  using role_repair_exact
    [of "[(1, Owner)]" "(new_group 0 9 1 None)\<lparr>ch_members := fmupd 1 (new_member 0 1 Member) fmempty\<rparr>"
        1 mp_can_edit_info]
  by (simp add: drifted_Cons new_member_def check_permission_def plain_member_permissions_def
      case_prod_beta Let_def)

section \<open>Muting\<close>

text \<open>Who may mute whom: exactly the owner anybody but themselves, and admins plain members.\<close>

lemma can_moderate_mute_iff:
  "can_moderate_mute x y rx ry = Ok () \<longleftrightarrow>
     x \<noteq> y \<and> (rx = Owner \<and> ry \<noteq> Owner \<or> rx = Admin \<and> ry = Member)"
  by (cases rx; cases ry; simp add: can_moderate_mute_def)

fun notice_secs :: "mute_notice \<Rightarrow> int" where
  "notice_secs MutedForever = 50 * 365 * 86400"
| "notice_secs (MutedDays d) = d * 86400"
| "notice_secs (MutedHours h) = h * 3600"
| "notice_secs (MutedMinutes m) = m * 60"

text \<open>
  The announced remaining time never falls short of the remaining full seconds and exceeds them by
  less than one unit.
\<close>

lemma mute_notice_covers:
  assumes "now < u" "num_seconds (u - now) < 50 * 365 * 86400"
  shows "num_seconds (u - now) \<le> notice_secs (mute_reject_message (Some u) now)"
    and "notice_secs (mute_reject_message (Some u) now) < num_seconds (u - now) + 86400"
proof -
  have "0 \<le> num_seconds (u - now)" using assms(1) by (simp add: num_seconds_def)
  then show "num_seconds (u - now) \<le> notice_secs (mute_reject_message (Some u) now)"
    and "notice_secs (mute_reject_message (Some u) now) < num_seconds (u - now) + 86400"
    using assms(2) by (auto simp: mute_reject_message_def Let_def max_def)
qed

section \<open>The view of a user\<close>

datatype view_event = VRead time message_id | VMessage time | VMute time bool | VPin time bool | VRemark time "string option"

fun view_step :: "user_channel_view \<Rightarrow> view_event \<Rightarrow> user_channel_view" where
  "view_step v (VRead now mid) = view_mark_as_read now mid v"
| "view_step v (VMessage now) = view_increment_unread now v"
| "view_step v (VMute now b) = view_set_muted now b v"
| "view_step v (VPin now b) = view_set_pinned now b v"
| "view_step v (VRemark now r) = view_set_remark now r v"

definition view_inv :: "user_channel_view \<Rightarrow> bool" where
  "view_inv v \<longleftrightarrow> (uv_is_muted v \<longrightarrow> uv_unread_count v = 0)"

interpretation view_system: invariant_system "new_user_channel_view now u cid" view_step "\<lambda>_ _. True" view_inv
proof
  show "view_inv (new_user_channel_view now u cid)"
    by (simp add: view_inv_def new_user_channel_view_def)
next
  fix v e assume "view_inv v"
  then show "view_inv (view_step v e)"
    by (cases e) (auto simp: view_inv_def view_mark_as_read_def view_increment_unread_def
        view_set_muted_def view_set_pinned_def view_set_remark_def Let_def)
qed

text \<open>A muted conversation never shows unread messages.\<close>

lemma muted_view_has_no_unread:
  "uv_is_muted (run view_step (new_user_channel_view now u cid) es) \<Longrightarrow>
   uv_unread_count (run view_step (new_user_channel_view now u cid) es) = 0"
  using view_system.run_inv [where es = es] by (simp add: view_inv_def)

end
