(* ===== verification/QrCode.thy ===== *)
theory QrCode
  imports Decimal ServerErrors
begin

text \<open>
  \<open>model/qrcode.rs\<close>, \<open>service/qrcode_service.rs\<close> and the handlers under
  \<open>rpc/qrcode/\<close>: the in-memory registry of QR keys with its reverse index and scan log, and the
  remote calls that create, scan, refresh, revoke and list keys.

  A key's \<open>metadata\<close> is a JSON value of type \<open>'m\<close>; \<open>token_of\<close> stands for
  \<open>metadata.get("token").and_then(as_str)\<close>. \<open>add_secs\<close> stands for adding a number of seconds to a
  time, which panics (\<open>None\<close>) outside the range of the time library. The random key that
  \<open>generate_random_key\<close> draws is an argument.
\<close>

section \<open>Records\<close>

type_synonym i32 = "32 word"

datatype qr_type = QrUser | QrGroup | QrAuth | QrFeature

fun qr_type_as_str :: "qr_type \<Rightarrow> string" where
  "qr_type_as_str QrUser = ''user''"
| "qr_type_as_str QrGroup = ''group''"
| "qr_type_as_str QrAuth = ''auth''"
| "qr_type_as_str QrFeature = ''feature''"

definition qr_type_from_str :: "string \<Rightarrow> qr_type option" where
  "qr_type_from_str s =
     (if s = ''user'' then Some QrUser
      else if s = ''group'' then Some QrGroup
      else if s = ''auth'' then Some QrAuth
      else if s = ''feature'' then Some QrFeature
      else None)"

record 'm qr_record =
  qk_key :: string
  qk_type :: qr_type
  qk_target :: string
  qk_creator :: string
  qk_created_at :: time
  qk_expire_at :: "time option"
  qk_max_usage :: "i32 option"
  qk_used_count :: i32
  qk_revoked :: bool
  qk_metadata :: 'm

record 'm qr_options =
  qo_expire_seconds :: "int option"
  qo_max_usage :: "i32 option"
  qo_revoke_old :: bool
  qo_one_time :: bool
  qo_metadata :: 'm

definition default_qr_options :: "'m \<Rightarrow> 'm qr_options" where
  "default_qr_options null =
     \<lparr>qo_expire_seconds = None, qo_max_usage = None, qo_revoke_old = False, qo_one_time = False,
      qo_metadata = null\<rparr>"

record scan_log =
  sl_key :: string
  sl_scanner :: string
  sl_at :: time
  sl_success :: bool
  sl_error :: "string option"

definition qr_is_expired :: "time \<Rightarrow> 'm qr_record \<Rightarrow> bool" where
  "qr_is_expired now r = (case qk_expire_at r of Some t \<Rightarrow> now > t | None \<Rightarrow> False)"

definition qr_is_usage_exceeded :: "'m qr_record \<Rightarrow> bool" where
  "qr_is_usage_exceeded r = (case qk_max_usage r of Some m \<Rightarrow> sint m \<le> sint (qk_used_count r) | None \<Rightarrow> False)"

definition qr_is_valid :: "time \<Rightarrow> 'm qr_record \<Rightarrow> bool" where
  "qr_is_valid now r \<longleftrightarrow> \<not> qk_revoked r \<and> \<not> qr_is_expired now r \<and> \<not> qr_is_usage_exceeded r"

definition to_qr_code_string :: "('m \<Rightarrow> string option) \<Rightarrow> 'm qr_record \<Rightarrow> string" where
  "to_qr_code_string token_of r =
     (let base = ''privchat://'' @ qr_type_as_str (qk_type r) @ ''/get?qrkey='' @ qk_key r
      in case token_of (qk_metadata r) of Some t \<Rightarrow> base @ ''&token='' @ t | None \<Rightarrow> base)"

section \<open>The service\<close>

record 'm qr_service =
  qr_storage :: "(string, 'm qr_record) fmap"
  qr_target_index :: "(string, string) fmap"
  qr_scan_logs :: "scan_log list"

definition new_qr_service :: "'m qr_service" where
  "new_qr_service = \<lparr>qr_storage = fmempty, qr_target_index = fmempty, qr_scan_logs = []\<rparr>"

definition log_scan_success :: "time \<Rightarrow> string \<Rightarrow> string \<Rightarrow> 'm qr_service \<Rightarrow> 'm qr_service" where
  "log_scan_success now k scanner s =
     s\<lparr>qr_scan_logs := qr_scan_logs s @
        [\<lparr>sl_key = k, sl_scanner = scanner, sl_at = now, sl_success = True, sl_error = None\<rparr>]\<rparr>"

definition log_scan_failure :: "time \<Rightarrow> string \<Rightarrow> string \<Rightarrow> string \<Rightarrow> 'm qr_service \<Rightarrow> 'm qr_service" where
  "log_scan_failure now k scanner err s =
     s\<lparr>qr_scan_logs := qr_scan_logs s @
        [\<lparr>sl_key = k, sl_scanner = scanner, sl_at = now, sl_success = False, sl_error = Some err\<rparr>]\<rparr>"

definition qr_revoke :: "string \<Rightarrow> 'm qr_service \<Rightarrow> 'm qr_service \<times> (unit, server_error) result" where
  "qr_revoke k s =
     (case fmlookup (qr_storage s) k of
        None \<Rightarrow> (s, Err (NotFound []))
      | Some r \<Rightarrow> (s\<lparr>qr_storage := fmupd k (r\<lparr>qk_revoked := True\<rparr>) (qr_storage s)\<rparr>, Ok ()))"

definition revoke_by_target :: "string \<Rightarrow> 'm qr_service \<Rightarrow> 'm qr_service \<times> (string, server_error) result" where
  "revoke_by_target target s =
     (case fmlookup (qr_target_index s) target of
        None \<Rightarrow> (s, Err (NotFound []))
      | Some k \<Rightarrow>
          (case fmlookup (qr_storage s) k of
             None \<Rightarrow> (s, Err (NotFound []))
           | Some r \<Rightarrow>
               (s\<lparr>qr_storage := fmupd k (r\<lparr>qk_revoked := True\<rparr>) (qr_storage s),
                  qr_target_index := fmdrop target (qr_target_index s)\<rparr>, Ok k)))"

text \<open>The result is \<open>None\<close> when the expiry time is out of range and the call panics.\<close>

definition qr_generate ::
  "(time \<Rightarrow> int \<Rightarrow> time option) \<Rightarrow> string \<Rightarrow> time \<Rightarrow> qr_type \<Rightarrow> string \<Rightarrow> string \<Rightarrow> 'm qr_options \<Rightarrow> 'm qr_service
     \<Rightarrow> 'm qr_service \<times> 'm qr_record option" where
  "qr_generate add_secs key now ty target creator opts s =
     (let s1 = (if qo_revoke_old opts then fst (revoke_by_target target s) else s);
          expire = (case qo_expire_seconds opts of
                      None \<Rightarrow> Some None
                    | Some secs \<Rightarrow> map_option Some (add_secs now secs))
      in case expire of
           None \<Rightarrow> (s1, None)
         | Some expire_at \<Rightarrow>
             let r = \<lparr>qk_key = key, qk_type = ty, qk_target = target, qk_creator = creator,
                      qk_created_at = now, qk_expire_at = expire_at,
                      qk_max_usage = (if qo_one_time opts then Some 1 else qo_max_usage opts),
                      qk_used_count = 0, qk_revoked = False, qk_metadata = qo_metadata opts\<rparr>
             in (s1\<lparr>qr_storage := fmupd key r (qr_storage s1),
                    qr_target_index := fmupd target key (qr_target_index s1)\<rparr>, Some r))"

definition qr_resolve ::
  "('m \<Rightarrow> string option) \<Rightarrow> time \<Rightarrow> string \<Rightarrow> user_id \<Rightarrow> string option \<Rightarrow> 'm qr_service
     \<Rightarrow> 'm qr_service \<times> ('m qr_record, server_error) result" where
  "qr_resolve token_of now k scanner token s =
     (let who = to_string_u64 scanner
      in case fmlookup (qr_storage s) k of
           None \<Rightarrow> (s, Err (NotFound []))
         | Some r \<Rightarrow>
             if qk_revoked r then (log_scan_failure now k who [] s, Err (BadRequest []))
             else if qr_is_expired now r then (log_scan_failure now k who [] s, Err (BadRequest []))
             else if qr_is_usage_exceeded r then (log_scan_failure now k who [] s, Err (BadRequest []))
             else if qk_type r = QrGroup \<and> token_of (qk_metadata r) \<noteq> None \<and>
                     token \<noteq> token_of (qk_metadata r)
             then (log_scan_failure now k who [] s, Err (Unauthorized []))
             else let r' = r\<lparr>qk_used_count := qk_used_count r + 1\<rparr>
                  in (log_scan_success now k who (s\<lparr>qr_storage := fmupd k r' (qr_storage s)\<rparr>), Ok r'))"

definition qr_refresh ::
  "(time \<Rightarrow> int \<Rightarrow> time option) \<Rightarrow> 'm \<Rightarrow> string \<Rightarrow> time \<Rightarrow> string \<Rightarrow> qr_type \<Rightarrow> string \<Rightarrow> 'm qr_service
     \<Rightarrow> 'm qr_service \<times> (string \<times> string) option" where
  "qr_refresh add_secs null key now target ty creator s =
     (let (s1, old) = revoke_by_target target s;
          old_key = (case old of Ok k \<Rightarrow> k | Err _ \<Rightarrow> []);
          (s2, made) = qr_generate add_secs key now ty target creator (default_qr_options null) s1
      in (s2, map_option (\<lambda>r. (old_key, qk_key r)) made))"

definition list_by_creator :: "string \<Rightarrow> bool \<Rightarrow> 'm qr_service \<Rightarrow> 'm qr_record list" where
  "list_by_creator creator include_revoked s =
     map snd (filter (\<lambda>(_, r). qk_creator r = creator \<and> (include_revoked \<or> \<not> qk_revoked r))
       (fm_entries (qr_storage s)))"

definition qr_get :: "string \<Rightarrow> 'm qr_service \<Rightarrow> 'm qr_record option" where
  "qr_get k s = fmlookup (qr_storage s) k"

definition get_by_target :: "string \<Rightarrow> 'm qr_service \<Rightarrow> 'm qr_record option" where
  "get_by_target target s =
     (case fmlookup (qr_target_index s) target of Some k \<Rightarrow> fmlookup (qr_storage s) k | None \<Rightarrow> None)"

definition get_scan_logs :: "string \<Rightarrow> 'm qr_service \<Rightarrow> scan_log list" where
  "get_scan_logs k s = filter (\<lambda>l. sl_key l = k) (qr_scan_logs s)"

section \<open>The remote calls\<close>

definition get_current_user_id :: "string option \<Rightarrow> (user_id, rpc_error) result" where
  "get_current_user_id ctx =
     (case ctx of
        None \<Rightarrow> Err (rpc_unauthorized ''User not authenticated'')
      | Some text \<Rightarrow>
          (case parse_u64 text of
             None \<Rightarrow> Err (rpc_validation ''Invalid user_id format'')
           | Some u \<Rightarrow> Ok u))"

text \<open>
  The fields of the request body that the handlers read, each absent when it is missing or has
  another JSON type.
\<close>

record 'm qr_body =
  qb_qr_type :: "string option"
  qb_target_id :: "string option"
  qb_qr_key :: "string option"
  qb_token :: "string option"
  qb_expire_seconds :: "int option"
  qb_max_usage :: "int option"
  qb_one_time :: "bool option"
  qb_revoke_old :: "bool option"
  qb_include_revoked :: "bool option"
  qb_metadata :: "'m option"

text \<open>\<open>member_of_any\<close> stands for \<open>ChannelService::is_member_of_any\<close>, \<open>empty_obj\<close> for the empty JSON object.\<close>

definition may_generate ::
  "(u64 \<Rightarrow> user_id \<Rightarrow> (bool, server_error) result) \<Rightarrow> user_id \<Rightarrow> qr_type \<Rightarrow> string \<Rightarrow> (unit, rpc_error) result" where
  "may_generate member_of_any uid ty target =
     (case ty of
        QrUser \<Rightarrow>
          if target \<noteq> to_string_u64 uid
          then Err (rpc_forbidden ''cannot create a user QR code for another user'') else Ok ()
      | QrGroup \<Rightarrow>
          (case parse_u64 target of
             None \<Rightarrow> Err (rpc_validation ''target_id must be a group id'')
           | Some group_id \<Rightarrow>
               (case member_of_any group_id uid of
                  Err _ \<Rightarrow> Err (rpc_internal [])
                | Ok b \<Rightarrow>
                    if \<not> b then Err (rpc_forbidden ''only group members can create a group QR code'')
                    else Ok ()))
      | QrAuth \<Rightarrow> Ok ()
      | QrFeature \<Rightarrow> Ok ())"

definition qr_options_of_body :: "'m \<Rightarrow> 'm qr_body \<Rightarrow> 'm qr_options" where
  "qr_options_of_body empty_obj body =
     \<lparr>qo_expire_seconds = qb_expire_seconds body,
      qo_max_usage = map_option word_of_int (qb_max_usage body),
      qo_revoke_old = (case qb_revoke_old body of Some b \<Rightarrow> b | None \<Rightarrow> True),
      qo_one_time = (case qb_one_time body of Some b \<Rightarrow> b | None \<Rightarrow> False),
      qo_metadata = (case qb_metadata body of Some m \<Rightarrow> m | None \<Rightarrow> empty_obj)\<rparr>"

definition rpc_generate ::
  "(time \<Rightarrow> int \<Rightarrow> time option) \<Rightarrow> (u64 \<Rightarrow> user_id \<Rightarrow> (bool, server_error) result) \<Rightarrow> 'm \<Rightarrow> string \<Rightarrow> time
     \<Rightarrow> string option \<Rightarrow> 'm qr_body \<Rightarrow> 'm qr_service \<Rightarrow> 'm qr_service \<times> ('m qr_record option, rpc_error) result" where
  "rpc_generate add_secs member_of_any empty_obj key now ctx body s =
     (case qb_qr_type body of
        None \<Rightarrow> (s, Err (rpc_validation ''qr_type is required''))
      | Some text \<Rightarrow>
     (case qr_type_from_str text of
        None \<Rightarrow> (s, Err (rpc_validation []))
      | Some ty \<Rightarrow>
     (case qb_target_id body of
        None \<Rightarrow> (s, Err (rpc_validation ''target_id is required''))
      | Some target \<Rightarrow>
     (case get_current_user_id ctx of
        Err e \<Rightarrow> (s, Err e)
      | Ok uid \<Rightarrow>
     (case may_generate member_of_any uid ty target of
        Err e \<Rightarrow> (s, Err e)
      | Ok _ \<Rightarrow>
          map_prod id Ok
            (qr_generate add_secs key now ty target (to_string_u64 uid) (qr_options_of_body empty_obj body) s))))))"

definition rpc_refresh ::
  "(time \<Rightarrow> int \<Rightarrow> time option) \<Rightarrow> 'm \<Rightarrow> string \<Rightarrow> time \<Rightarrow> string option \<Rightarrow> 'm qr_body \<Rightarrow> 'm qr_service
     \<Rightarrow> 'm qr_service \<times> ((string \<times> string) option, rpc_error) result" where
  "rpc_refresh add_secs null key now ctx body s =
     (case qb_qr_type body of
        None \<Rightarrow> (s, Err (rpc_validation ''qr_type is required''))
      | Some text \<Rightarrow>
     (case qr_type_from_str text of
        None \<Rightarrow> (s, Err (rpc_validation []))
      | Some ty \<Rightarrow>
     (case qb_target_id body of
        None \<Rightarrow> (s, Err (rpc_validation ''target_id is required''))
      | Some target \<Rightarrow>
     (case get_current_user_id ctx of
        Err e \<Rightarrow> (s, Err e)
      | Ok uid \<Rightarrow>
          let (s1, keys) = qr_refresh add_secs null key now target ty (to_string_u64 uid) s
          in (case keys of
                None \<Rightarrow> (s1, Ok None)
              | Some (old_key, new_key) \<Rightarrow>
                  (case qr_get new_key s1 of
                     None \<Rightarrow> (s1, Err (rpc_internal []))
                   | Some _ \<Rightarrow> (s1, Ok (Some (old_key, new_key)))))))))"

definition rpc_revoke ::
  "string option \<Rightarrow> 'm qr_body \<Rightarrow> 'm qr_service \<Rightarrow> 'm qr_service \<times> (string, rpc_error) result" where
  "rpc_revoke ctx body s =
     (case qb_qr_key body of
        None \<Rightarrow> (s, Err (rpc_validation ''qr_key is required''))
      | Some k \<Rightarrow>
     (case get_current_user_id ctx of
        Err e \<Rightarrow> (s, Err e)
      | Ok uid \<Rightarrow>
     (case qr_get k s of
        None \<Rightarrow> (s, Err (rpc_not_found []))
      | Some r \<Rightarrow>
          if qk_creator r \<noteq> to_string_u64 uid then (s, Err (rpc_not_found []))
          else (case qr_revoke k s of
                  (s1, Ok _) \<Rightarrow> (s1, Ok k)
                | (s1, Err (NotFound _)) \<Rightarrow> (s1, Err (rpc_not_found []))
                | (s1, Err _) \<Rightarrow> (s1, Err (rpc_internal []))))))"

definition rpc_list ::
  "string option \<Rightarrow> 'm qr_body \<Rightarrow> 'm qr_service \<Rightarrow> ('m qr_record list, rpc_error) result" where
  "rpc_list ctx body s =
     (case get_current_user_id ctx of
        Err e \<Rightarrow> Err e
      | Ok uid \<Rightarrow>
          Ok (list_by_creator (to_string_u64 uid)
                (case qb_include_revoked body of Some b \<Rightarrow> b | None \<Rightarrow> False) s))"

text \<open>
  \<open>unreachable\<close> stands for the check that the target is a private assistant, \<open>get_channel\<close> for
  the group lookup; the JSON answer is reduced to the record and the suggested action.
\<close>

definition rpc_resolve ::
  "('m \<Rightarrow> string option) \<Rightarrow> (user_id \<Rightarrow> (bool, server_error) result) \<Rightarrow> (u64 \<Rightarrow> ('g, server_error) result)
     \<Rightarrow> time \<Rightarrow> string option \<Rightarrow> 'm qr_body \<Rightarrow> 'm qr_service
     \<Rightarrow> 'm qr_service \<times> ('m qr_record \<times> string, rpc_error) result" where
  "rpc_resolve token_of unreachable get_channel now ctx body s =
     (case qb_qr_key body of
        None \<Rightarrow> (s, Err (rpc_validation ''qr_key is required''))
      | Some k \<Rightarrow>
     (case get_current_user_id ctx of
        Err e \<Rightarrow> (s, Err e)
      | Ok uid \<Rightarrow>
     (case qr_resolve token_of now k uid (qb_token body) s of
        (s1, Err (NotFound _)) \<Rightarrow> (s1, Err (rpc_not_found []))
      | (s1, Err (BadRequest _)) \<Rightarrow> (s1, Err (rpc_validation []))
      | (s1, Err (Unauthorized _)) \<Rightarrow> (s1, Err (rpc_unauthorized []))
      | (s1, Err _) \<Rightarrow> (s1, Err (rpc_internal []))
      | (s1, Ok r) \<Rightarrow>
          (s1,
           case qk_type r of
             QrUser \<Rightarrow>
               (case parse_u64 (qk_target r) of
                  Some target \<Rightarrow>
                    if target = uid then Ok (r, ''show_profile'')
                    else (case unreachable target of
                            Ok False \<Rightarrow> Ok (r, ''show_profile'')
                          | Ok True \<Rightarrow> Err (rpc_not_found [])
                          | Err _ \<Rightarrow> Err (rpc_internal []))
                | None \<Rightarrow> Ok (r, ''show_profile''))
           | QrGroup \<Rightarrow>
               (case parse_u64 (qk_target r) of
                  None \<Rightarrow> Err (rpc_validation [])
                | Some group_id \<Rightarrow>
                    (case get_channel group_id of
                       Err _ \<Rightarrow> Err (rpc_not_found [])
                     | Ok _ \<Rightarrow> Ok (r, ''show_group'')))
           | QrAuth \<Rightarrow> Ok (r, ''confirm_login'')
           | QrFeature \<Rightarrow> Ok (r, ''handle_feature'')))))"

section \<open>Runs\<close>

datatype 'm qr_event =
    QGenerate string time qr_type string string "'m qr_options"
  | QResolve time string user_id "string option"
  | QRefresh string time string qr_type string
  | QRevoke string

fun qr_step ::
  "('m \<Rightarrow> string option) \<Rightarrow> (time \<Rightarrow> int \<Rightarrow> time option) \<Rightarrow> 'm \<Rightarrow> 'm qr_service \<Rightarrow> 'm qr_event \<Rightarrow> 'm qr_service" where
  "qr_step token_of add_secs null s (QGenerate key now ty target creator opts) =
     fst (qr_generate add_secs key now ty target creator opts s)"
| "qr_step token_of add_secs null s (QResolve now k scanner token) = fst (qr_resolve token_of now k scanner token s)"
| "qr_step token_of add_secs null s (QRefresh key now target ty creator) =
     fst (qr_refresh add_secs null key now target ty creator s)"
| "qr_step token_of add_secs null s (QRevoke k) = fst (qr_revoke k s)"

text \<open>A new random key is not one already in the registry.\<close>

fun fresh_key :: "'m qr_service \<Rightarrow> 'm qr_event \<Rightarrow> bool" where
  "fresh_key s (QGenerate key now ty target creator opts) \<longleftrightarrow> fmlookup (qr_storage s) key = None"
| "fresh_key s (QRefresh key now target ty creator) \<longleftrightarrow> fmlookup (qr_storage s) key = None"
| "fresh_key s e \<longleftrightarrow> True"

definition successful_scans :: "string \<Rightarrow> 'm qr_service \<Rightarrow> nat" where
  "successful_scans k s = length (filter (\<lambda>l. sl_key l = k \<and> sl_success l) (qr_scan_logs s))"

definition qr_record_ok :: "'m qr_service \<Rightarrow> string \<Rightarrow> 'm qr_record \<Rightarrow> bool" where
  "qr_record_ok s k r \<longleftrightarrow>
     qk_used_count r = of_nat (successful_scans k s) \<and>
     (case qk_max_usage r of Some m \<Rightarrow> int (successful_scans k s) \<le> max 0 (sint m) | None \<Rightarrow> True)"

definition qr_inv :: "'m qr_service \<Rightarrow> bool" where
  "qr_inv s \<longleftrightarrow>
     (\<forall>k. case fmlookup (qr_storage s) k of
            Some r \<Rightarrow> qr_record_ok s k r
          | None \<Rightarrow> successful_scans k s = 0)"

lemma scans_upd_storage [simp]:
  "successful_scans k (s\<lparr>qr_storage := m\<rparr>) = successful_scans k s"
  "successful_scans k (s\<lparr>qr_target_index := t\<rparr>) = successful_scans k s"
  by (simp_all add: successful_scans_def)

lemma scans_log [simp]:
  "successful_scans k (log_scan_failure now k' who err s) = successful_scans k s"
  "successful_scans k (log_scan_success now k' who s) = successful_scans k s + (if k = k' then 1 else 0)"
  by (simp_all add: successful_scans_def log_scan_failure_def log_scan_success_def)

lemma storage_log [simp]:
  "qr_storage (log_scan_failure now k' who err s) = qr_storage s"
  "qr_storage (log_scan_success now k' who s) = qr_storage s"
  by (simp_all add: log_scan_failure_def log_scan_success_def)

lemma revoke_by_target_scans [simp]:
  "successful_scans k (fst (revoke_by_target target s)) = successful_scans k s"
  by (auto simp: revoke_by_target_def split: option.splits)

lemma revoke_by_target_lookup:
  "fmlookup (qr_storage (fst (revoke_by_target target s))) k =
     map_option (\<lambda>r. if fmlookup (qr_target_index s) target = Some k then r\<lparr>qk_revoked := True\<rparr> else r)
       (fmlookup (qr_storage s) k)"
  by (cases "fmlookup (qr_storage s) k") (auto simp: revoke_by_target_def split: option.splits)

lemma qr_generate_scans [simp]:
  "successful_scans k (fst (qr_generate add_secs key now ty target creator opts s)) = successful_scans k s"
  by (auto simp: qr_generate_def Let_def split: option.splits)

lemma qr_generate_lookup:
  "key \<noteq> k \<Longrightarrow>
   fmlookup (qr_storage (fst (qr_generate add_secs key now ty target creator opts s))) k =
     (if qo_revoke_old opts then fmlookup (qr_storage (fst (revoke_by_target target s))) k
      else fmlookup (qr_storage s) k)"
  by (auto simp: qr_generate_def Let_def split: option.splits)

lemma qr_generate_new:
  "fmlookup (qr_storage s) key = None \<Longrightarrow>
   fmlookup (qr_storage (fst (qr_generate add_secs key now ty target creator opts s))) key = Some r \<Longrightarrow>
     qk_used_count r = 0"
  by (auto simp: qr_generate_def Let_def revoke_by_target_lookup split: option.splits if_splits)

lemma qr_refresh_fst:
  "fst (qr_refresh add_secs null key now target ty creator s) =
     fst (qr_generate add_secs key now ty target creator (default_qr_options null)
            (fst (revoke_by_target target s)))"
  by (simp add: qr_refresh_def case_prod_beta Let_def)

text \<open>What one call does to a key in the registry: it may be revoked, and at most one scan is counted.\<close>

definition qr_evolves :: "'m qr_service \<Rightarrow> 'm qr_service \<Rightarrow> string \<Rightarrow> 'm qr_record \<Rightarrow> 'm qr_record \<Rightarrow> bool" where
  "qr_evolves s s' k r r' \<longleftrightarrow>
     qk_max_usage r' = qk_max_usage r \<and> (qk_revoked r \<longrightarrow> qk_revoked r') \<and>
     (successful_scans k s' = successful_scans k s \<and> qk_used_count r' = qk_used_count r \<or>
      \<not> qk_revoked r \<and> \<not> qr_is_usage_exceeded r \<and>
      successful_scans k s' = Suc (successful_scans k s) \<and> qk_used_count r' = qk_used_count r + 1)"

lemma qr_step_record:
  assumes "fresh_key s e" "fmlookup (qr_storage s) k = Some r"
  shows "\<exists>r'. fmlookup (qr_storage (qr_step token_of add_secs null s e)) k = Some r' \<and>
              qr_evolves s (qr_step token_of add_secs null s e) k r r'"
proof (cases e)
  case (QGenerate key now ty target creator opts)
  with assms have "key \<noteq> k" by auto
  with QGenerate assms show ?thesis
    by (simp add: qr_generate_lookup revoke_by_target_lookup qr_evolves_def)
next
  case (QRefresh key now target ty creator)
  with assms have "key \<noteq> k" by auto
  with QRefresh assms show ?thesis
    by (simp add: qr_refresh_fst qr_generate_lookup default_qr_options_def revoke_by_target_lookup qr_evolves_def)
next
  case (QResolve now k' scanner token)
  with assms(2) show ?thesis
    by (cases "fmlookup (qr_storage s) k'") (auto simp: qr_resolve_def Let_def qr_evolves_def)
next
  case (QRevoke k')
  with assms(2) show ?thesis
    by (cases "fmlookup (qr_storage s) k'") (auto simp: qr_revoke_def qr_evolves_def)
qed

lemma qr_step_absent:
  assumes "fresh_key s e" "fmlookup (qr_storage s) k = None"
  shows "successful_scans k (qr_step token_of add_secs null s e) = successful_scans k s"
    and "fmlookup (qr_storage (qr_step token_of add_secs null s e)) k = Some r \<Longrightarrow> qk_used_count r = 0"
proof -
  show "successful_scans k (qr_step token_of add_secs null s e) = successful_scans k s"
    using assms(2)
    by (cases e)
       (auto simp: qr_refresh_fst qr_resolve_def qr_revoke_def Let_def split: option.splits)
next
  assume new: "fmlookup (qr_storage (qr_step token_of add_secs null s e)) k = Some r"
  have gen: "qk_used_count r = 0"
    if "fmlookup (qr_storage t) k = None"
       "fmlookup (qr_storage (fst (qr_generate add_secs key now ty target creator opts t))) k = Some r"
    for t key now ty target creator opts
  proof (cases "key = k")
    case True
    with that qr_generate_new show ?thesis by blast
  next
    case False
    with that show ?thesis by (auto simp: qr_generate_lookup revoke_by_target_lookup split: if_splits)
  qed
  show "qk_used_count r = 0"
  proof (cases e)
    case (QRefresh key now target ty creator)
    with new assms(2) show ?thesis
      by (intro gen [of "fst (revoke_by_target target s)"]) (simp_all add: qr_refresh_fst revoke_by_target_lookup)
  qed (use new assms(2) in
        \<open>auto simp: qr_resolve_def qr_revoke_def Let_def split: option.splits if_splits intro: gen\<close>)
qed

lemma sint_small: "int n < 2 ^ 31 \<Longrightarrow> sint (of_nat n :: i32) = int n"
  by (simp add: signed_of_nat signed_take_bit_int_eq_self)

lemma sint_i32_less: "sint (m :: i32) < 2 ^ 31"
  using sint_lt [of m] by simp

lemma qr_record_ok_evolves:
  assumes "qr_record_ok s k r" "qr_evolves s s' k r r'"
  shows "qr_record_ok s' k r'"
proof (cases "successful_scans k s' = successful_scans k s \<and> qk_used_count r' = qk_used_count r")
  case True
  with assms show ?thesis by (auto simp: qr_record_ok_def qr_evolves_def split: option.splits)
next
  case False
  then have step: "\<not> qr_is_usage_exceeded r" "successful_scans k s' = Suc (successful_scans k s)"
      "qk_used_count r' = qk_used_count r + 1" "qk_max_usage r' = qk_max_usage r"
    using assms(2) by (auto simp: qr_evolves_def)
  have "int (successful_scans k s') \<le> max 0 (sint m)" if m: "qk_max_usage r = Some m" for m
  proof -
    have "int (successful_scans k s) \<le> max 0 (sint m)" using assms(1) m by (simp add: qr_record_ok_def)
    moreover from this have "sint (qk_used_count r) = int (successful_scans k s)"
      using assms(1) sint_i32_less [of m] by (simp add: qr_record_ok_def sint_small)
    ultimately show ?thesis using step(1,2) m by (simp add: qr_is_usage_exceeded_def)
  qed
  with assms(1) step show ?thesis by (simp add: qr_record_ok_def split: option.split)
qed

interpretation qr_system: invariant_system
  new_qr_service "qr_step token_of add_secs null" fresh_key qr_inv
proof
  show "qr_inv new_qr_service" by (simp add: qr_inv_def new_qr_service_def successful_scans_def)
next
  fix s e
  let ?s' = "qr_step token_of add_secs null s e"
  assume inv: "qr_inv s" and fresh: "fresh_key s e"
  have "case fmlookup (qr_storage ?s') k of Some r \<Rightarrow> qr_record_ok ?s' k r | None \<Rightarrow> successful_scans k ?s' = 0" for k
  proof (cases "fmlookup (qr_storage s) k")
    case None
    with inv have "successful_scans k s = 0" by (auto simp: qr_inv_def dest: spec [of _ k])
    with None fresh show ?thesis
      by (auto simp: qr_step_absent qr_record_ok_def split: option.split)
  next
    case (Some r)
    obtain r' where r': "fmlookup (qr_storage ?s') k = Some r'" "qr_evolves s ?s' k r r'"
      using qr_step_record [OF fresh Some] by blast
    from inv Some have "qr_record_ok s k r" by (auto simp: qr_inv_def split: option.splits)
    from qr_record_ok_evolves [OF this r'(2)] r'(1) show ?thesis by simp
  qed
  then show "qr_inv ?s'" by (simp add: qr_inv_def)
qed

lemma revoked_run:
  assumes "admissible fresh_key (qr_step token_of add_secs null) s es"
    and "fmlookup (qr_storage s) k = Some r" "qk_revoked r"
  shows "\<exists>r'. fmlookup (qr_storage (run (qr_step token_of add_secs null) s es)) k = Some r' \<and> qk_revoked r' \<and>
              successful_scans k (run (qr_step token_of add_secs null) s es) = successful_scans k s"
  using assms
proof (induction es arbitrary: s r)
  case (Cons e es)
  then obtain r' where "fmlookup (qr_storage (qr_step token_of add_secs null s e)) k = Some r'"
      "qr_evolves s (qr_step token_of add_secs null s e) k r r'"
    using qr_step_record by fastforce
  with Cons show ?case by (fastforce simp: qr_evolves_def)
qed simp

text \<open>
  C23. The log of successful scans never exceeds a key's limit, a one-time key is scanned once at
  most, and revocation is final: from the moment a key is revoked, directly or because its target got
  a new key, no later sequence of calls scans it again. Random keys are assumed not to collide with
  keys already in the registry.
\<close>
theorem qr_usage_and_revocation:
  assumes "admissible fresh_key (qr_step token_of add_secs null) new_qr_service (es @ later)"
  shows "let s = run (qr_step token_of add_secs null) new_qr_service es;
             s' = run (qr_step token_of add_secs null) s later
         in \<forall>k r. fmlookup (qr_storage s) k = Some r \<longrightarrow>
              (\<forall>m. qk_max_usage r = Some m \<longrightarrow> int (successful_scans k s) \<le> max 0 (sint m)) \<and>
              (qk_revoked r \<longrightarrow>
                 successful_scans k s' = successful_scans k s \<and>
                 (\<forall>now scanner token. snd (qr_resolve token_of now k scanner token s') = Err (BadRequest [])))"
proof -
  define s where "s = run (qr_step token_of add_secs null) new_qr_service es"
  have inv: "qr_inv s" using qr_system.run_prefix_inv [OF assms] by (simp add: s_def)
  have later: "admissible fresh_key (qr_step token_of add_secs null) s later"
    using assms by (simp add: admissible_append s_def)
  show ?thesis
    unfolding Let_def s_def [symmetric]
  proof (intro allI impI conjI)
    fix k r m assume "fmlookup (qr_storage s) k = Some r" "qk_max_usage r = Some m"
    with inv show "int (successful_scans k s) \<le> max 0 (sint m)"
      by (auto simp: qr_inv_def qr_record_ok_def dest!: spec [of _ k])
  next
    fix k r assume r: "fmlookup (qr_storage s) k = Some r" "qk_revoked r"
    from revoked_run [OF later this]
    show "successful_scans k (run (qr_step token_of add_secs null) s later) = successful_scans k s" by blast
    fix now scanner token
    from revoked_run [OF later r]
    show "snd (qr_resolve token_of now k scanner token (run (qr_step token_of add_secs null) s later)) = Err (BadRequest [])"
      by (auto simp: qr_resolve_def Let_def)
  qed
qed

definition sample_qr_calls :: "unit qr_event list" where
  "sample_qr_calls =
     [QGenerate ''aaa'' 0 QrUser ''7'' ''7'' ((default_qr_options ())\<lparr>qo_one_time := True\<rparr>),
      QResolve 1 ''aaa'' 9 None, QRefresh ''bbb'' 2 ''7'' QrUser ''7'']"

theorem qr_usage_and_revocation_witness:
  "let step = qr_step (\<lambda>_. None) (\<lambda>t n. Some (t + n * 1000)) ();
       s = run step new_qr_service sample_qr_calls
   in successful_scans ''aaa'' s = 1 \<and> successful_scans ''aaa'' (step s (QResolve 3 ''aaa'' 9 None)) = 1"
proof -
  let ?step = "qr_step (\<lambda>_. None) (\<lambda>t n. Some (t + n * 1000)) ()"
  let ?s = "run ?step new_qr_service sample_qr_calls"
  note compute = sample_qr_calls_def new_qr_service_def qr_generate_def qr_refresh_def qr_resolve_def
    revoke_by_target_def default_qr_options_def qr_is_expired_def qr_is_usage_exceeded_def Let_def
    log_scan_success_def
  have ok: "admissible fresh_key ?step new_qr_service (sample_qr_calls @ [QResolve 3 ''aaa'' 9 None])"
    by (simp add: compute)
  obtain r where r: "fmlookup (qr_storage ?s) ''aaa'' = Some r" "qk_revoked r"
    by (simp add: compute)
  have one: "successful_scans ''aaa'' ?s = 1"
    by (simp add: compute successful_scans_def)
  moreover have "successful_scans ''aaa'' (?step ?s (QResolve 3 ''aaa'' 9 None)) = successful_scans ''aaa'' ?s"
    using qr_usage_and_revocation [OF ok] r by (simp add: Let_def)
  ultimately show ?thesis by (simp add: Let_def)
qed

end
