(* ===== verification/Privacy.thy ===== *)
theory Privacy
  imports ChannelModel Friendship QrCode
begin

text \<open>
  \<open>model/privacy.rs\<close> and \<open>service/privacy_service.rs\<close>: privacy settings and their storage as a
  partial JSON object, the evidence records of the profile page (search records, shared cards, view
  grants), and the decision who may open whose profile and add whom as a friend.
\<close>

section \<open>Settings\<close>

record privacy_settings =
  ps_user_id :: user_id
  ps_allow_add_by_group :: bool
  ps_allow_add_by_card :: bool
  ps_allow_search_by_phone :: bool
  ps_allow_search_by_username :: bool
  ps_allow_search_by_email :: bool
  ps_allow_search_by_qrcode :: bool
  ps_allow_view_by_non_friend :: bool
  ps_allow_receive_message_from_non_friend :: bool
  ps_updated_at :: time

definition new_privacy_settings :: "time \<Rightarrow> user_id \<Rightarrow> privacy_settings" where
  "new_privacy_settings now u =
     \<lparr>ps_user_id = u, ps_allow_add_by_group = True, ps_allow_add_by_card = True,
      ps_allow_search_by_phone = True, ps_allow_search_by_username = True,
      ps_allow_search_by_email = True, ps_allow_search_by_qrcode = True,
      ps_allow_view_by_non_friend = False, ps_allow_receive_message_from_non_friend = True,
      ps_updated_at = now\<rparr>"

datatype search_type = ByPhone | ByUsername | ByEmail | ByQrcode

fun allows_search :: "privacy_settings \<Rightarrow> search_type \<Rightarrow> bool" where
  "allows_search p ByPhone = ps_allow_search_by_phone p"
| "allows_search p ByUsername = ps_allow_search_by_username p"
| "allows_search p ByEmail = ps_allow_search_by_email p"
| "allows_search p ByQrcode = ps_allow_search_by_qrcode p"

text \<open>
  The stored object: \<open>privacy_settings jsonb\<close>, default \<open>'{}'\<close>, written by this service only, which
  always merges an object into it. A value is a boolean, a number, null or anything else. Reading a
  field as \<open>Option<bool>\<close> or \<open>Option<u64>\<close> takes a missing field or null as \<open>None\<close> and fails on
  another type (\<open>None\<close> of the outer option here); fields the struct does not name are ignored.
\<close>

datatype json_value = JBool bool | JNumber int | JNull | JOther

type_synonym json_object = "(string, json_value) fmap"

fun opt_bool :: "json_value option \<Rightarrow> bool option option" where
  "opt_bool None = Some None"
| "opt_bool (Some JNull) = Some None"
| "opt_bool (Some (JBool b)) = Some (Some b)"
| "opt_bool (Some _) = None"

fun opt_u64 :: "json_value option \<Rightarrow> u64 option option" where
  "opt_u64 None = Some None"
| "opt_u64 (Some JNull) = Some None"
| "opt_u64 (Some (JNumber n)) = (if 0 \<le> n \<and> n < 2 ^ 64 then Some (Some (word_of_int n)) else None)"
| "opt_u64 (Some _) = None"

record stored_privacy =
  sp_allow_add_by_group :: "bool option"
  sp_allow_add_by_card :: "bool option"
  sp_allow_search_by_phone :: "bool option"
  sp_allow_search_by_username :: "bool option"
  sp_allow_search_by_email :: "bool option"
  sp_allow_search_by_qrcode :: "bool option"
  sp_allow_view_by_non_friend :: "bool option"
  sp_allow_receive_message_from_non_friend :: "bool option"

definition bool_fields :: "string list" where
  "bool_fields =
     [''allow_add_by_group'', ''allow_add_by_card'', ''allow_search_by_phone'', ''allow_search_by_username'',
      ''allow_search_by_email'', ''allow_search_by_qrcode'', ''allow_view_by_non_friend'',
      ''allow_receive_message_from_non_friend'']"

definition parse_stored :: "json_object \<Rightarrow> stored_privacy option" where
  "parse_stored obj =
     (if list_all (\<lambda>f. opt_bool (fmlookup obj f) \<noteq> None) bool_fields \<and> opt_u64 (fmlookup obj ''user_id'') \<noteq> None
      then let get = (\<lambda>f. the (opt_bool (fmlookup obj f)))
           in Some \<lparr>sp_allow_add_by_group = get ''allow_add_by_group'',
                    sp_allow_add_by_card = get ''allow_add_by_card'',
                    sp_allow_search_by_phone = get ''allow_search_by_phone'',
                    sp_allow_search_by_username = get ''allow_search_by_username'',
                    sp_allow_search_by_email = get ''allow_search_by_email'',
                    sp_allow_search_by_qrcode = get ''allow_search_by_qrcode'',
                    sp_allow_view_by_non_friend = get ''allow_view_by_non_friend'',
                    sp_allow_receive_message_from_non_friend = get ''allow_receive_message_from_non_friend''\<rparr>
      else None)"

definition opt_or :: "'a option \<Rightarrow> 'a \<Rightarrow> 'a" where
  "opt_or v d = (case v of Some x \<Rightarrow> x | None \<Rightarrow> d)"

definition apply_to :: "stored_privacy \<Rightarrow> privacy_settings \<Rightarrow> privacy_settings" where
  "apply_to sp p =
     p\<lparr>ps_allow_add_by_group := opt_or (sp_allow_add_by_group sp) (ps_allow_add_by_group p),
       ps_allow_add_by_card := opt_or (sp_allow_add_by_card sp) (ps_allow_add_by_card p),
       ps_allow_search_by_phone := opt_or (sp_allow_search_by_phone sp) (ps_allow_search_by_phone p),
       ps_allow_search_by_username := opt_or (sp_allow_search_by_username sp) (ps_allow_search_by_username p),
       ps_allow_search_by_email := opt_or (sp_allow_search_by_email sp) (ps_allow_search_by_email p),
       ps_allow_search_by_qrcode := opt_or (sp_allow_search_by_qrcode sp) (ps_allow_search_by_qrcode p),
       ps_allow_view_by_non_friend := opt_or (sp_allow_view_by_non_friend sp) (ps_allow_view_by_non_friend p),
       ps_allow_receive_message_from_non_friend :=
         opt_or (sp_allow_receive_message_from_non_friend sp) (ps_allow_receive_message_from_non_friend p)\<rparr>"

definition settings_from_stored ::
  "time \<Rightarrow> user_id \<Rightarrow> json_object option \<Rightarrow> (privacy_settings, server_error) result" where
  "settings_from_stored now u stored =
     (case stored of
        None \<Rightarrow> Ok (new_privacy_settings now u)
      | Some obj \<Rightarrow>
          (case parse_stored obj of
             None \<Rightarrow> Err (Database [])
           | Some sp \<Rightarrow> Ok (apply_to sp (new_privacy_settings now u))))"

text \<open>The column of every user; SQL \<open>NULL\<close> is \<open>None\<close>.\<close>

type_synonym privacy_table = "(user_id, json_object option) fmap"

definition get_or_create_privacy_settings ::
  "bool \<Rightarrow> time \<Rightarrow> user_id \<Rightarrow> privacy_table \<Rightarrow> (privacy_settings, server_error) result" where
  "get_or_create_privacy_settings up now u t =
     (if \<not> up then Err (Database [])
      else case fmlookup t u of
             None \<Rightarrow> settings_from_stored now u None
           | Some None \<Rightarrow> Err (Database [])
           | Some (Some obj) \<Rightarrow> settings_from_stored now u (Some obj))"

text \<open>An update names the fields to change; \<open>to_patch_json\<close> is the object of exactly those fields.\<close>

type_synonym privacy_update = stored_privacy

definition to_patch_json :: "privacy_update \<Rightarrow> json_object" where
  "to_patch_json upd =
     fmap_of_list (List.map_filter (\<lambda>(f, v). map_option (\<lambda>b. (f, JBool b)) v)
       [(''allow_add_by_group'', sp_allow_add_by_group upd),
        (''allow_add_by_card'', sp_allow_add_by_card upd),
        (''allow_search_by_phone'', sp_allow_search_by_phone upd),
        (''allow_search_by_username'', sp_allow_search_by_username upd),
        (''allow_search_by_email'', sp_allow_search_by_email upd),
        (''allow_search_by_qrcode'', sp_allow_search_by_qrcode upd),
        (''allow_view_by_non_friend'', sp_allow_view_by_non_friend upd),
        (''allow_receive_message_from_non_friend'', sp_allow_receive_message_from_non_friend upd)])"

text \<open>The statements are \<open>BEGIN\<close>, the \<open>UPDATE\<close> and \<open>COMMIT\<close>.\<close>

definition update_privacy_settings ::
  "bool \<Rightarrow> (nat \<Rightarrow> bool) \<Rightarrow> time \<Rightarrow> user_id \<Rightarrow> privacy_update \<Rightarrow> privacy_table
     \<Rightarrow> privacy_table \<times> (privacy_settings, server_error) result" where
  "update_privacy_settings frozen up now u upd t =
     (if frozen then (t, Err (ServiceUnavailable []))
      else if \<not> up 0 \<or> \<not> up 1 then (t, Err (Database []))
      else case fmlookup t u of
             None \<Rightarrow> (t, Err (NotFound []))
           | Some col \<Rightarrow>
               let obj = (case col of Some obj \<Rightarrow> obj | None \<Rightarrow> fmempty) ++\<^sub>f to_patch_json upd
               in (case settings_from_stored now u (Some obj) of
                     Err e \<Rightarrow> (t, Err e)
                   | Ok p \<Rightarrow>
                       if \<not> up 2 then (t, Err (Database []))
                       else (fmupd u (Some obj) t, Ok (p\<lparr>ps_updated_at := now\<rparr>))))"

section \<open>The platform switch\<close>

text \<open>
  The in-memory mirror of the platform-wide switch for searching by user name. \<open>stored\<close> is the
  value in the database; \<open>up\<close> says whether the query succeeds.
\<close>

record platform_mirror =
  pm_username_searchable :: bool
  pm_loaded :: bool

definition new_platform_mirror :: platform_mirror where
  "new_platform_mirror = \<lparr>pm_username_searchable = True, pm_loaded = False\<rparr>"

definition platform_username_searchable ::
  "bool \<Rightarrow> bool option \<Rightarrow> platform_mirror \<Rightarrow> platform_mirror \<times> bool" where
  "platform_username_searchable up stored m =
     (let m1 = (if pm_loaded m then m
                else \<lparr>pm_username_searchable =
                        (case if up then stored else None of Some v \<Rightarrow> v | None \<Rightarrow> pm_username_searchable m),
                      pm_loaded = True\<rparr>)
      in (m1, pm_username_searchable m1))"

definition set_platform_username_searchable ::
  "bool \<Rightarrow> bool \<Rightarrow> bool option \<times> platform_mirror \<Rightarrow> (bool option \<times> platform_mirror) \<times> (unit, server_error) result" where
  "set_platform_username_searchable up enabled sm =
     (if \<not> up then (sm, Err (Database []))
      else ((Some enabled, \<lparr>pm_username_searchable = enabled, pm_loaded = True\<rparr>), Ok ()))"

section \<open>Evidence\<close>

datatype user_detail_source =
    SrcSearch u64
  | SrcGroup u64
  | SrcFriend "u64 option"
  | SrcCardShare u64
  | SrcConversation u64
  | SrcQrcode string
  | SrcSelfProfile

record search_record =
  sr_search_session_id :: u64
  sr_searcher_id :: user_id
  sr_target_id :: user_id
  sr_hit_by :: "search_type option"
  sr_created_at :: time
  sr_expires_at :: time

definition new_search_record :: "u64 \<Rightarrow> time \<Rightarrow> user_id \<Rightarrow> user_id \<Rightarrow> search_type option \<Rightarrow> search_record" where
  "new_search_record sid now searcher target hit_by =
     \<lparr>sr_search_session_id = sid, sr_searcher_id = searcher, sr_target_id = target, sr_hit_by = hit_by,
      sr_created_at = now, sr_expires_at = now + 3600000\<rparr>"

definition search_is_expired :: "time \<Rightarrow> search_record \<Rightarrow> bool" where
  "search_is_expired now r \<longleftrightarrow> now > sr_expires_at r"

record card_share_record =
  cs_share_id :: u64
  cs_sharer_id :: user_id
  cs_target_user_id :: user_id
  cs_receiver_id :: user_id
  cs_created_at :: time
  cs_used :: bool
  cs_used_at :: "time option"
  cs_used_by :: "user_id option"

definition new_card_share :: "time \<Rightarrow> u64 \<Rightarrow> user_id \<Rightarrow> user_id \<Rightarrow> user_id \<Rightarrow> card_share_record" where
  "new_card_share now sid sharer target receiver =
     \<lparr>cs_share_id = sid, cs_sharer_id = sharer, cs_target_user_id = target, cs_receiver_id = receiver,
      cs_created_at = now, cs_used = False, cs_used_at = None, cs_used_by = None\<rparr>"

definition mark_as_used :: "time \<Rightarrow> user_id \<Rightarrow> card_share_record \<Rightarrow> card_share_record" where
  "mark_as_used now u r = r\<lparr>cs_used := True, cs_used_at := Some now, cs_used_by := Some u\<rparr>"

record profile_view_grant =
  pg_grant_id :: u64
  pg_viewer_id :: user_id
  pg_target_id :: user_id
  pg_source_type :: string
  pg_source_id :: string
  pg_can_add_friend :: bool
  pg_deny_reason :: "string option"
  pg_username_unlocked :: bool
  pg_created_at :: time
  pg_expires_at :: time

definition new_grant ::
  "u64 \<Rightarrow> time \<Rightarrow> user_id \<Rightarrow> user_id \<Rightarrow> string \<Rightarrow> string \<Rightarrow> bool \<Rightarrow> string option \<Rightarrow> bool \<Rightarrow> profile_view_grant" where
  "new_grant gid now viewer target source_type source_id can_add deny unlocked =
     \<lparr>pg_grant_id = gid, pg_viewer_id = viewer, pg_target_id = target, pg_source_type = source_type,
      pg_source_id = source_id, pg_can_add_friend = can_add, pg_deny_reason = deny,
      pg_username_unlocked = unlocked, pg_created_at = now, pg_expires_at = now + 600000\<rparr>"

definition grant_is_expired :: "time \<Rightarrow> profile_view_grant \<Rightarrow> bool" where
  "grant_is_expired now g \<longleftrightarrow> now > pg_expires_at g"

section \<open>Opening a profile\<close>

record detail_access_verdict =
  dv_is_friend :: bool
  dv_can_add_friend :: bool
  dv_deny_reason :: "string option"
  dv_username_unlocked :: bool

definition viewable_and_addable :: detail_access_verdict where
  "viewable_and_addable =
     \<lparr>dv_is_friend = False, dv_can_add_friend = True, dv_deny_reason = None, dv_username_unlocked = False\<rparr>"

definition view_only :: "string \<Rightarrow> detail_access_verdict" where
  "view_only reason =
     \<lparr>dv_is_friend = False, dv_can_add_friend = False, dv_deny_reason = Some reason, dv_username_unlocked = False\<rparr>"

text \<open>
  What the decision reads: the friend table, the caches, the QR registry, the channel service and the
  settings. Each read is a function, so that a failing read is an \<open>Err\<close>.
\<close>

record 'm privacy_reads =
  pr_is_friend :: "user_id \<Rightarrow> user_id \<Rightarrow> (bool, server_error) result"
  pr_search_record :: "u64 \<Rightarrow> (search_record option, server_error) result"
  pr_card_share :: "u64 \<Rightarrow> (card_share_record option, server_error) result"
  pr_qr_key :: "string \<Rightarrow> 'm qr_record option"
  pr_channel :: "u64 \<Rightarrow> (channel, server_error) result"
  pr_group_policy :: "u64 \<Rightarrow> (group_policy option, server_error) result"
  pr_settings :: "user_id \<Rightarrow> (privacy_settings, server_error) result"

definition evaluate_search_source ::
  "'m privacy_reads \<Rightarrow> time \<Rightarrow> user_id \<Rightarrow> user_id \<Rightarrow> u64 \<Rightarrow> (detail_access_verdict, server_error) result" where
  "evaluate_search_source rd now searcher target sid =
     (case pr_search_record rd sid of
        Err e \<Rightarrow> Err e
      | Ok None \<Rightarrow> Err (NotFound ''Search record not found'')
      | Ok (Some r) \<Rightarrow>
          if sr_searcher_id r \<noteq> searcher then Err (Forbidden ''Search record does not belong to this user'')
          else if sr_target_id r \<noteq> target then Err (Forbidden ''Search record target does not match'')
          else if search_is_expired now r then Err (Forbidden ''Search record has expired'')
          else (case pr_settings rd target of
                 Err e \<Rightarrow> Err e
               | Ok p \<Rightarrow>
                   if \<not> (case sr_hit_by r of
                            Some t \<Rightarrow> allows_search p t
                          | None \<Rightarrow> ps_allow_search_by_username p \<or> ps_allow_search_by_phone p \<or>
                                    ps_allow_search_by_email p)
                   then Err (Forbidden ''User does not allow being searched'')
                   else Ok (viewable_and_addable\<lparr>dv_username_unlocked := (sr_hit_by r = Some ByUsername)\<rparr>)))"

definition evaluate_qrcode_source ::
  "'m privacy_reads \<Rightarrow> time \<Rightarrow> user_id \<Rightarrow> string \<Rightarrow> (detail_access_verdict, server_error) result" where
  "evaluate_qrcode_source rd now target key =
     (case pr_qr_key rd key of
        None \<Rightarrow> Err (Forbidden ''QR key not found'')
      | Some r \<Rightarrow>
          if qk_revoked r then Err (Forbidden ''QR key has been revoked'')
          else if (case qk_expire_at r of Some t \<Rightarrow> t \<le> now | None \<Rightarrow> False)
          then Err (Forbidden ''QR key has expired'')
          else if qk_type r \<noteq> QrUser then Err (Forbidden ''QR key is not a user card'')
          else if qk_target r \<noteq> to_string_u64 target then Err (Forbidden ''QR key does not point to this user'')
          else (case pr_settings rd target of
                 Err e \<Rightarrow> Err e
               | Ok p \<Rightarrow> Ok (if allows_search p ByQrcode then viewable_and_addable else view_only ''personal_privacy'')))"

definition is_privileged :: "channel \<Rightarrow> user_id \<Rightarrow> bool" where
  "is_privileged c u =
     (case fmlookup (ch_members c) u of
        Some m \<Rightarrow> cm_role m = Owner \<or> cm_role m = Admin
      | None \<Rightarrow> False)"

text \<open>A failing policy read counts as no policy, and no policy allows adding (\<open>.ok().flatten()\<close>).\<close>

definition allow_member_add_friend :: "'m privacy_reads \<Rightarrow> u64 \<Rightarrow> bool" where
  "allow_member_add_friend rd group_id =
     (case pr_group_policy rd group_id of
        Ok (Some p) \<Rightarrow> gp_allow_member_add_friend p
      | Ok None \<Rightarrow> True
      | Err _ \<Rightarrow> True)"

definition evaluate_group_source ::
  "'m privacy_reads \<Rightarrow> user_id \<Rightarrow> user_id \<Rightarrow> u64 \<Rightarrow> (detail_access_verdict, server_error) result" where
  "evaluate_group_source rd searcher target group_id =
     (case pr_channel rd group_id of
        Err e \<Rightarrow> Err e
      | Ok c \<Rightarrow>
          if fmlookup (ch_members c) searcher = None then Err (Forbidden ''User is not a member of group'')
          else if fmlookup (ch_members c) target = None then Err (Forbidden ''User is not a member of group'')
          else if \<not> allow_member_add_friend rd group_id \<and> \<not> is_privileged c searcher \<and> \<not> is_privileged c target
          then Ok (view_only ''group_policy'')
          else (case pr_settings rd target of
                  Err e \<Rightarrow> Err e
                | Ok p \<Rightarrow>
                    if \<not> ps_allow_add_by_group p then Ok (view_only ''personal_privacy'')
                    else Ok viewable_and_addable))"

definition validate_card_share_source ::
  "'m privacy_reads \<Rightarrow> user_id \<Rightarrow> user_id \<Rightarrow> u64 \<Rightarrow> (unit, server_error) result" where
  "validate_card_share_source rd searcher target share_id =
     (case pr_card_share rd share_id of
        Err e \<Rightarrow> Err e
      | Ok None \<Rightarrow> Err (NotFound ''Card share record not found'')
      | Ok (Some r) \<Rightarrow>
          if cs_receiver_id r \<noteq> searcher then Err (Forbidden ''Card share record does not belong to this user'')
          else if cs_target_user_id r \<noteq> target then Err (Forbidden ''Card share record target does not match'')
          else if cs_used r then Err (Forbidden ''Card share record has already been used'')
          else Ok ())"

definition evaluate_card_source ::
  "'m privacy_reads \<Rightarrow> user_id \<Rightarrow> user_id \<Rightarrow> u64 \<Rightarrow> (detail_access_verdict, server_error) result" where
  "evaluate_card_source rd searcher target share_id =
     (case validate_card_share_source rd searcher target share_id of
        Err e \<Rightarrow> Err e
      | Ok _ \<Rightarrow>
          (case pr_settings rd target of
             Err e \<Rightarrow> Err e
           | Ok p \<Rightarrow> Ok (if ps_allow_add_by_card p then viewable_and_addable else view_only ''personal_privacy'')))"

definition evaluate_conversation_source ::
  "'m privacy_reads \<Rightarrow> user_id \<Rightarrow> user_id \<Rightarrow> u64 \<Rightarrow> (detail_access_verdict, server_error) result" where
  "evaluate_conversation_source rd searcher target cid =
     (case pr_channel rd cid of
        Err e \<Rightarrow> Err e
      | Ok c \<Rightarrow>
          if ch_channel_type c = Group then evaluate_group_source rd searcher target cid
          else if fmlookup (ch_members c) searcher = None then Err (Forbidden ''User is not a member of channel'')
          else if fmlookup (ch_members c) target = None then Err (Forbidden ''User is not a member of channel'')
          else Ok viewable_and_addable)"

definition evaluate_detail_access ::
  "'m privacy_reads \<Rightarrow> time \<Rightarrow> user_id \<Rightarrow> user_id \<Rightarrow> user_detail_source \<Rightarrow> (detail_access_verdict, server_error) result" where
  "evaluate_detail_access rd now searcher target src =
     (if searcher = target
      then Ok \<lparr>dv_is_friend = False, dv_can_add_friend = False, dv_deny_reason = Some ''self'',
               dv_username_unlocked = True\<rparr>
      else case pr_is_friend rd searcher target of
             Err e \<Rightarrow> Err e
           | Ok True \<Rightarrow>
               Ok \<lparr>dv_is_friend = True, dv_can_add_friend = False, dv_deny_reason = Some ''already_friend'',
                   dv_username_unlocked = True\<rparr>
           | Ok False \<Rightarrow>
               (case src of
                  SrcSelfProfile \<Rightarrow> Err (Forbidden ''Self source claimed but searcher is not the target'')
                | SrcSearch sid \<Rightarrow> evaluate_search_source rd now searcher target sid
                | SrcQrcode key \<Rightarrow> evaluate_qrcode_source rd now target key
                | SrcGroup gid \<Rightarrow> evaluate_group_source rd searcher target gid
                | SrcFriend _ \<Rightarrow> Err (Forbidden ''Friend source claimed but users are not friends'')
                | SrcCardShare sid \<Rightarrow> evaluate_card_source rd searcher target sid
                | SrcConversation cid \<Rightarrow> evaluate_conversation_source rd searcher target cid))"

definition validate_detail_access ::
  "'m privacy_reads \<Rightarrow> time \<Rightarrow> user_id \<Rightarrow> user_id \<Rightarrow> user_detail_source \<Rightarrow> (unit, server_error) result" where
  "validate_detail_access rd now searcher target src =
     (case evaluate_detail_access rd now searcher target src of Ok _ \<Rightarrow> Ok () | Err e \<Rightarrow> Err e)"

section \<open>Stored settings\<close>

definition patch_fields :: "privacy_update \<Rightarrow> (string \<times> bool option) list" where
  "patch_fields upd =
     [(''allow_add_by_group'', sp_allow_add_by_group upd),
      (''allow_add_by_card'', sp_allow_add_by_card upd),
      (''allow_search_by_phone'', sp_allow_search_by_phone upd),
      (''allow_search_by_username'', sp_allow_search_by_username upd),
      (''allow_search_by_email'', sp_allow_search_by_email upd),
      (''allow_search_by_qrcode'', sp_allow_search_by_qrcode upd),
      (''allow_view_by_non_friend'', sp_allow_view_by_non_friend upd),
      (''allow_receive_message_from_non_friend'', sp_allow_receive_message_from_non_friend upd)]"

lemma map_of_map_filter:
  "distinct (map fst xs) \<Longrightarrow>
   map_of (List.map_filter (\<lambda>(f, v). map_option (\<lambda>b. (f, g b)) v) xs) k =
     (case map_of xs k of Some (Some b) \<Rightarrow> Some (g b) | _ \<Rightarrow> None)"
  by (induction xs) (auto dest: map_of_SomeD split: option.splits, force+)

lemma lookup_patch:
  "fmlookup (to_patch_json upd) f =
     (case map_of (patch_fields upd) f of Some (Some b) \<Rightarrow> Some (JBool b) | _ \<Rightarrow> None)"
proof -
  have "distinct (map fst (patch_fields upd))" by (simp add: patch_fields_def)
  then show ?thesis
    by (simp only: to_patch_json_def patch_fields_def [symmetric] fmap_of_list.rep_eq map_of_map_filter)
qed

lemma lookup_patched:
  "fmlookup (obj ++\<^sub>f to_patch_json upd) f =
     (case map_of (patch_fields upd) f of Some (Some b) \<Rightarrow> Some (JBool b) | _ \<Rightarrow> fmlookup obj f)"
  by (auto simp: lookup_patch fmlookup_dom_iff split: option.splits)

definition orelse :: "'a option \<Rightarrow> 'a option \<Rightarrow> 'a option" where
  "orelse a b = (case a of Some x \<Rightarrow> Some x | None \<Rightarrow> b)"

lemma opt_or_orelse: "opt_or (orelse a b) d = opt_or a (opt_or b d)"
  by (simp add: opt_or_def orelse_def split: option.split)

definition merge_stored :: "privacy_update \<Rightarrow> stored_privacy \<Rightarrow> stored_privacy" where
  "merge_stored upd sp =
     \<lparr>sp_allow_add_by_group = orelse (sp_allow_add_by_group upd) (sp_allow_add_by_group sp),
      sp_allow_add_by_card = orelse (sp_allow_add_by_card upd) (sp_allow_add_by_card sp),
      sp_allow_search_by_phone = orelse (sp_allow_search_by_phone upd) (sp_allow_search_by_phone sp),
      sp_allow_search_by_username = orelse (sp_allow_search_by_username upd) (sp_allow_search_by_username sp),
      sp_allow_search_by_email = orelse (sp_allow_search_by_email upd) (sp_allow_search_by_email sp),
      sp_allow_search_by_qrcode = orelse (sp_allow_search_by_qrcode upd) (sp_allow_search_by_qrcode sp),
      sp_allow_view_by_non_friend = orelse (sp_allow_view_by_non_friend upd) (sp_allow_view_by_non_friend sp),
      sp_allow_receive_message_from_non_friend =
        orelse (sp_allow_receive_message_from_non_friend upd) (sp_allow_receive_message_from_non_friend sp)\<rparr>"

lemma apply_to_merge: "apply_to (merge_stored upd sp) p = apply_to upd (apply_to sp p)"
  by (simp add: apply_to_def merge_stored_def opt_or_orelse)

lemma opt_bool_patched:
  assumes "map_of (patch_fields upd) f = Some v" "opt_bool (fmlookup obj f) \<noteq> None"
  shows "opt_bool (fmlookup (obj ++\<^sub>f to_patch_json upd) f) = Some (orelse v (the (opt_bool (fmlookup obj f))))"
  using assms unfolding lookup_patched by (auto simp: orelse_def split: option.split)

lemma opt_u64_patched:
  "opt_u64 (fmlookup (obj ++\<^sub>f to_patch_json upd) ''user_id'') = opt_u64 (fmlookup obj ''user_id'')"
  unfolding lookup_patched by (simp add: patch_fields_def)

lemma parse_stored_patched:
  assumes "parse_stored obj = Some sp"
  shows "parse_stored (obj ++\<^sub>f to_patch_json upd) = Some (merge_stored upd sp)"
proof -
  have ok: "opt_bool (fmlookup obj f) \<noteq> None" if "f \<in> set bool_fields" for f
    using assms that by (auto simp: parse_stored_def list_all_iff split: if_splits)
  define get where "get = (\<lambda>f. the (opt_bool (fmlookup obj f)))"
  have "opt_u64 (fmlookup obj ''user_id'') \<noteq> None"
    and sp: "sp = \<lparr>sp_allow_add_by_group = get ''allow_add_by_group'',
                    sp_allow_add_by_card = get ''allow_add_by_card'',
                    sp_allow_search_by_phone = get ''allow_search_by_phone'',
                    sp_allow_search_by_username = get ''allow_search_by_username'',
                    sp_allow_search_by_email = get ''allow_search_by_email'',
                    sp_allow_search_by_qrcode = get ''allow_search_by_qrcode'',
                    sp_allow_view_by_non_friend = get ''allow_view_by_non_friend'',
                    sp_allow_receive_message_from_non_friend = get ''allow_receive_message_from_non_friend''\<rparr>"
    using assms by (auto simp: parse_stored_def get_def split: if_splits)
  then show ?thesis
    by (simp add: get_def parse_stored_def Let_def merge_stored_def bool_fields_def opt_u64_patched
        opt_bool_patched ok patch_fields_def del: fmlookup_add)
qed

text \<open>
  A successful update stores exactly the fields it names on top of what was stored, answers with the
  settings a later read returns, and touches nobody else's row; every failure leaves the table as it was.
\<close>

lemma update_privacy_exact:
  assumes "fmlookup t u = Some (Some obj)" "parse_stored obj = Some sp"
  shows "\<exists>obj'. update_privacy_settings False (\<lambda>_. True) now u upd t =
            (fmupd u (Some obj') t, Ok (apply_to upd (apply_to sp (new_privacy_settings now u)))) \<and>
          (\<forall>later. get_or_create_privacy_settings True later u (fmupd u (Some obj') t) =
             Ok (apply_to upd (apply_to sp (new_privacy_settings later u))))"
  using assms parse_stored_patched [OF assms(2), of upd]
  by (intro exI [of _ "obj ++\<^sub>f to_patch_json upd"])
     (simp add: update_privacy_settings_def settings_from_stored_def get_or_create_privacy_settings_def
        apply_to_merge, simp add: apply_to_def new_privacy_settings_def)

lemma update_privacy_failure:
  "update_privacy_settings frozen up now u upd t = (t', Err e) \<Longrightarrow> t' = t"
  by (auto simp: update_privacy_settings_def Let_def split: if_splits option.splits result.splits)

text \<open>
  The first read decides the mirror for good: a failing query leaves the default, and the stored value
  is not looked at again.
\<close>

lemma platform_switch_sticks:
  "let (m1, _) = platform_username_searchable False stored new_platform_mirror
   in platform_username_searchable up' stored' m1 = (m1, True)"
  by (simp add: platform_username_searchable_def new_platform_mirror_def)

section \<open>No profile without evidence\<close>

definition both_members :: "'m privacy_reads \<Rightarrow> u64 \<Rightarrow> user_id \<Rightarrow> user_id \<Rightarrow> bool" where
  "both_members rd cid searcher target =
     (case pr_channel rd cid of
        Ok c \<Rightarrow> fmlookup (ch_members c) searcher \<noteq> None \<and> fmlookup (ch_members c) target \<noteq> None
      | Err _ \<Rightarrow> False)"

text \<open>The evidence a source stands for: a record of the server about exactly these two users.\<close>

definition evidence :: "'m privacy_reads \<Rightarrow> time \<Rightarrow> user_id \<Rightarrow> user_id \<Rightarrow> user_detail_source \<Rightarrow> bool" where
  "evidence rd now searcher target src =
     (case src of
        SrcSearch sid \<Rightarrow>
          (case pr_search_record rd sid of
             Ok (Some r) \<Rightarrow> sr_searcher_id r = searcher \<and> sr_target_id r = target \<and> now \<le> sr_expires_at r
           | _ \<Rightarrow> False)
      | SrcQrcode key \<Rightarrow>
          (case pr_qr_key rd key of
             Some r \<Rightarrow> \<not> qk_revoked r \<and> qk_type r = QrUser \<and> qk_target r = to_string_u64 target \<and>
               (case qk_expire_at r of Some t \<Rightarrow> now < t | None \<Rightarrow> True)
           | None \<Rightarrow> False)
      | SrcCardShare sid \<Rightarrow>
          (case pr_card_share rd sid of
             Ok (Some r) \<Rightarrow> cs_receiver_id r = searcher \<and> cs_target_user_id r = target \<and> \<not> cs_used r
           | _ \<Rightarrow> False)
      | SrcGroup gid \<Rightarrow> both_members rd gid searcher target
      | SrcConversation cid \<Rightarrow> both_members rd cid searcher target
      | SrcFriend _ \<Rightarrow> False
      | SrcSelfProfile \<Rightarrow> False)"

text \<open>The target's own switch for the way the searcher came.\<close>

definition consents :: "'m privacy_reads \<Rightarrow> privacy_settings \<Rightarrow> user_detail_source \<Rightarrow> bool" where
  "consents rd p src =
     (case src of
        SrcSearch sid \<Rightarrow>
          (case pr_search_record rd sid of
             Ok (Some r) \<Rightarrow>
               (case sr_hit_by r of
                  Some t \<Rightarrow> allows_search p t
                | None \<Rightarrow> allows_search p ByUsername \<or> allows_search p ByPhone \<or> allows_search p ByEmail)
           | _ \<Rightarrow> False)
      | SrcQrcode _ \<Rightarrow> allows_search p ByQrcode
      | SrcCardShare _ \<Rightarrow> ps_allow_add_by_card p
      | _ \<Rightarrow> ps_allow_add_by_group p)"

definition is_dm :: "'m privacy_reads \<Rightarrow> user_detail_source \<Rightarrow> bool" where
  "is_dm rd src =
     (case src of
        SrcConversation cid \<Rightarrow> (case pr_channel rd cid of Ok c \<Rightarrow> ch_channel_type c \<noteq> Group | Err _ \<Rightarrow> False)
      | _ \<Rightarrow> False)"

lemma evaluate_search_evidence:
  "evaluate_search_source rd now searcher target sid = Ok v \<Longrightarrow>
     evidence rd now searcher target (SrcSearch sid) \<and> \<not> dv_is_friend v \<and>
     (\<exists>p. pr_settings rd target = Ok p \<and> consents rd p (SrcSearch sid))"
  by (auto simp: evaluate_search_source_def evidence_def consents_def search_is_expired_def
      viewable_and_addable_def split: result.splits option.splits if_splits)

lemma evaluate_qrcode_evidence:
  "evaluate_qrcode_source rd now target key = Ok v \<Longrightarrow>
     evidence rd now searcher target (SrcQrcode key) \<and> \<not> dv_username_unlocked v \<and>
     (dv_can_add_friend v \<longrightarrow> (\<exists>p. pr_settings rd target = Ok p \<and> consents rd p (SrcQrcode key)))"
  by (auto simp: evaluate_qrcode_source_def evidence_def consents_def viewable_and_addable_def view_only_def
      split: result.splits option.splits if_splits)

lemma evaluate_group_evidence:
  "evaluate_group_source rd searcher target gid = Ok v \<Longrightarrow>
     both_members rd gid searcher target \<and> \<not> dv_username_unlocked v \<and>
     (dv_can_add_friend v \<longrightarrow> (\<exists>p. pr_settings rd target = Ok p \<and> ps_allow_add_by_group p))"
  by (auto simp: evaluate_group_source_def both_members_def viewable_and_addable_def view_only_def
      split: result.splits if_splits)

lemma evaluate_card_evidence:
  "evaluate_card_source rd searcher target sid = Ok v \<Longrightarrow>
     evidence rd now searcher target (SrcCardShare sid) \<and> \<not> dv_username_unlocked v \<and>
     (dv_can_add_friend v \<longrightarrow> (\<exists>p. pr_settings rd target = Ok p \<and> consents rd p (SrcCardShare sid)))"
  by (auto simp: evaluate_card_source_def validate_card_share_source_def evidence_def consents_def
      viewable_and_addable_def view_only_def split: result.splits option.splits if_splits)

lemma evaluate_conversation_evidence:
  assumes "evaluate_conversation_source rd searcher target cid = Ok v"
  shows "both_members rd cid searcher target \<and> \<not> dv_username_unlocked v \<and>
     (dv_can_add_friend v \<and> \<not> is_dm rd (SrcConversation cid) \<longrightarrow>
        (\<exists>p. pr_settings rd target = Ok p \<and> ps_allow_add_by_group p))"
  using assms evaluate_group_evidence [of rd searcher target cid v]
  by (auto simp: evaluate_conversation_source_def both_members_def is_dm_def viewable_and_addable_def
      split: result.splits if_splits)


definition sample_reads :: "unit privacy_reads" where
  "sample_reads =
     \<lparr>pr_is_friend = (\<lambda>_ _. Ok False),
      pr_search_record = (\<lambda>sid. Ok (if sid = 5 then Some (new_search_record 5 0 1 2 (Some ByUsername)) else None)),
      pr_card_share = (\<lambda>_. Ok None),
      pr_qr_key = (\<lambda>_. None),
      pr_channel = (\<lambda>_. Err (NotFound [])),
      pr_group_policy = (\<lambda>_. Ok None),
      pr_settings = (\<lambda>u. Ok (new_privacy_settings 0 u))\<rparr>"


end
