(* ===== verification/FriendApply.thy ===== *)
theory FriendApply
  imports Privacy
begin

text \<open>
  The friend-request path through \<open>rpc/account/user/detail.rs\<close> (open a profile, get a view grant)
  and \<open>rpc/contact/friend/apply.rs\<close> (send the request, with a grant or with the source itself), over
  the search records, shared cards and grants of \<open>infra/cache_manager.rs\<close> and the tables of the
  friend, blacklist, privacy and QR services.

  Not modelled of these handlers: the push notifications and events after a stored request, and the
  display fields nickname, avatar, bot following and profile version.
\<close>

section \<open>The two-level cache\<close>

text \<open>
  \<open>redis\<close> says whether the second level answers. A cache operation never fails: an unreachable
  second level reads as absent and drops writes.
\<close>

record 'v cache2 =
  c_l1 :: "(u64, 'v) fmap"
  c_l2 :: "(u64, 'v) fmap"

definition cache_put :: "bool \<Rightarrow> u64 \<Rightarrow> 'v \<Rightarrow> 'v cache2 \<Rightarrow> 'v cache2" where
  "cache_put redis k v c =
     \<lparr>c_l1 = fmupd k v (c_l1 c), c_l2 = (if redis then fmupd k v (c_l2 c) else c_l2 c)\<rparr>"

definition get_from_redis :: "bool \<Rightarrow> u64 \<Rightarrow> (u64, 'v) fmap \<Rightarrow> 'v option" where
  "get_from_redis redis k m = (if redis then fmlookup m k else None)"

definition create_search_record ::
  "bool \<Rightarrow> u64 \<Rightarrow> time \<Rightarrow> user_id \<Rightarrow> user_id \<Rightarrow> search_type option \<Rightarrow> search_record cache2
     \<Rightarrow> search_record cache2 \<times> search_record" where
  "create_search_record redis sid now searcher target hit_by c =
     (let r = new_search_record sid now searcher target hit_by in (cache_put redis sid r c, r))"

definition get_search_record ::
  "bool \<Rightarrow> time \<Rightarrow> u64 \<Rightarrow> search_record cache2 \<Rightarrow> search_record cache2 \<times> search_record option" where
  "get_search_record redis now sid c =
     (case fmlookup (c_l1 c) sid of
        Some r \<Rightarrow>
          if \<not> search_is_expired now r then (c, Some r)
          else (case get_from_redis redis sid (c_l2 c) of
                  Some r2 \<Rightarrow>
                    if \<not> search_is_expired now r2 then (c\<lparr>c_l1 := fmupd sid r2 (c_l1 c)\<rparr>, Some r2) else (c, None)
                | None \<Rightarrow> (c, None))
      | None \<Rightarrow>
          (case get_from_redis redis sid (c_l2 c) of
             Some r2 \<Rightarrow>
               if \<not> search_is_expired now r2 then (c\<lparr>c_l1 := fmupd sid r2 (c_l1 c)\<rparr>, Some r2) else (c, None)
           | None \<Rightarrow> (c, None)))"

definition create_card_share ::
  "bool \<Rightarrow> u64 \<Rightarrow> time \<Rightarrow> user_id \<Rightarrow> user_id \<Rightarrow> user_id \<Rightarrow> card_share_record cache2
     \<Rightarrow> card_share_record cache2 \<times> card_share_record" where
  "create_card_share redis sid now sharer target receiver c =
     (let r = new_card_share now sid sharer target receiver in (cache_put redis sid r c, r))"

definition get_card_share ::
  "bool \<Rightarrow> u64 \<Rightarrow> card_share_record cache2 \<Rightarrow> card_share_record cache2 \<times> card_share_record option" where
  "get_card_share redis sid c =
     (case fmlookup (c_l1 c) sid of
        Some r \<Rightarrow> (c, Some r)
      | None \<Rightarrow>
          (case get_from_redis redis sid (c_l2 c) of
             Some r \<Rightarrow> (c\<lparr>c_l1 := fmupd sid r (c_l1 c)\<rparr>, Some r)
           | None \<Rightarrow> (c, None)))"

definition mark_card_share_as_used ::
  "bool \<Rightarrow> time \<Rightarrow> u64 \<Rightarrow> user_id \<Rightarrow> card_share_record cache2
     \<Rightarrow> card_share_record cache2 \<times> (unit, server_error) result" where
  "mark_card_share_as_used redis now sid u c =
     (case get_card_share redis sid c of
        (c1, None) \<Rightarrow> (c1, Err (NotFound ''Card share not found''))
      | (c1, Some r) \<Rightarrow> (cache_put redis sid (mark_as_used now u r) c1, Ok ()))"

text \<open>Grants live on the second level only.\<close>

definition save_profile_view_grant ::
  "bool \<Rightarrow> profile_view_grant \<Rightarrow> (u64, profile_view_grant) fmap \<Rightarrow> (u64, profile_view_grant) fmap" where
  "save_profile_view_grant redis g m = (if redis then fmupd (pg_grant_id g) g m else m)"

definition get_profile_view_grant ::
  "bool \<Rightarrow> time \<Rightarrow> u64 \<Rightarrow> (u64, profile_view_grant) fmap \<Rightarrow> profile_view_grant option" where
  "get_profile_view_grant redis now gid m =
     (case get_from_redis redis gid m of
        Some g \<Rightarrow> if \<not> grant_is_expired now g then Some g else None
      | None \<Rightarrow> None)"

section \<open>The tables and their faults\<close>

record user_profile =
  up_user_id :: string
  up_username :: string
  up_phone :: "string option"
  up_email :: "string option"

record 'm social =
  so_friends :: friend_db
  so_blacklist :: blacklist_db
  so_privacy :: privacy_table
  so_qr :: "'m qr_service"
  so_search :: "search_record cache2"
  so_cards :: "card_share_record cache2"
  so_grants :: "(u64, profile_view_grant) fmap"
  so_channels :: "(u64, channel) fmap"
  so_policies :: "(u64, group_policy) fmap"
  so_profiles :: "(user_id, user_profile) fmap"
  so_assistants :: "user_id list"

text \<open>Which reads of a call succeed.\<close>

record social_up =
  su_friend :: bool
  su_block :: bool
  su_settings :: bool
  su_policy :: bool
  su_profile :: bool
  su_reach :: bool
  su_redis :: bool
  su_send :: "nat \<Rightarrow> bool"

definition all_up :: social_up where
  "all_up = \<lparr>su_friend = True, su_block = True, su_settings = True, su_policy = True, su_profile = True,
             su_reach = True, su_redis = True, su_send = (\<lambda>_. True)\<rparr>"

lemma all_up_simps [simp]:
  "su_friend all_up" "su_block all_up" "su_settings all_up" "su_policy all_up" "su_profile all_up"
  "su_reach all_up" "su_redis all_up" "su_send all_up = (\<lambda>_. True)"
  by (simp_all add: all_up_def)

definition reads_of :: "social_up \<Rightarrow> time \<Rightarrow> 'm social \<Rightarrow> 'm privacy_reads" where
  "reads_of up now w =
     \<lparr>pr_is_friend = (\<lambda>u v. try_is_friend (su_friend up) u v (so_friends w)),
      pr_search_record = (\<lambda>sid. Ok (snd (get_search_record (su_redis up) now sid (so_search w)))),
      pr_card_share = (\<lambda>sid. Ok (snd (get_card_share (su_redis up) sid (so_cards w)))),
      pr_qr_key = (\<lambda>k. qr_get k (so_qr w)),
      pr_channel = (\<lambda>cid. case fmlookup (so_channels w) cid of
                            Some c \<Rightarrow> Ok c | None \<Rightarrow> Err (NotFound ''Channel not found'')),
      pr_group_policy = (\<lambda>gid. if su_policy up then Ok (fmlookup (so_policies w) gid) else Err (Database [])),
      pr_settings = (\<lambda>u. get_or_create_privacy_settings (su_settings up) now u (so_privacy w))\<rparr>"

definition ensure_reachable_user :: "social_up \<Rightarrow> user_id \<Rightarrow> 'm social \<Rightarrow> (unit, rpc_error) result" where
  "ensure_reachable_user up u w =
     (if \<not> su_reach up then Err (rpc_internal [])
      else if u \<in> set (so_assistants w) then Err (rpc_not_found ''User not found'')
      else Ok ())"

definition mutual_block_or_none :: "social_up \<Rightarrow> user_id \<Rightarrow> user_id \<Rightarrow> 'm social \<Rightarrow> bool \<times> bool" where
  "mutual_block_or_none up u v w =
     (case check_mutual_block (su_block up) u v (so_blacklist w) of Ok ab \<Rightarrow> ab | Err _ \<Rightarrow> (False, False))"

section \<open>Opening a profile\<close>

text \<open>The protocol crate's source types; \<open>type_of_str\<close> stands for its parser.\<close>

datatype detail_source_type =
  DsSearch | DsGroup | DsFriend | DsCardShare | DsQrcode | DsFriendPending | DsConversation | DsSelfProfile

definition parsed_or :: "(u64 \<Rightarrow> 'a) \<Rightarrow> string \<Rightarrow> ('a, rpc_error) result" where
  "parsed_or f text = (case parse_u64 text of Some n \<Rightarrow> Ok (f n) | None \<Rightarrow> Err (rpc_validation ''Invalid id''))"

fun detail_source_of :: "detail_source_type \<Rightarrow> string \<Rightarrow> (user_detail_source, rpc_error) result" where
  "detail_source_of DsSearch sid = parsed_or SrcSearch sid"
| "detail_source_of DsGroup sid = parsed_or SrcGroup sid"
| "detail_source_of DsFriend sid = parsed_or (\<lambda>n. SrcFriend (Some n)) sid"
| "detail_source_of DsCardShare sid = parsed_or SrcCardShare sid"
| "detail_source_of DsQrcode sid = Ok (SrcQrcode sid)"
| "detail_source_of DsFriendPending sid = Ok (SrcFriend None)"
| "detail_source_of DsConversation sid = parsed_or SrcConversation sid"
| "detail_source_of DsSelfProfile sid = Ok SrcSelfProfile"

record detail_answer =
  da_user_id :: user_id
  da_username :: string
  da_phone :: "string option"
  da_email :: "string option"
  da_is_friend :: bool
  da_can_send_message :: bool
  da_can_add_friend :: bool
  da_deny_reason :: "string option"
  da_grant_id :: u64

definition detail_can_send :: "social_up \<Rightarrow> time \<Rightarrow> user_id \<Rightarrow> user_id \<Rightarrow> 'm social \<Rightarrow> bool" where
  "detail_can_send up now searcher target w =
     (if is_friend (su_friend up) searcher target (so_friends w) then True
      else case mutual_block_or_none up searcher target w of
             (mine, theirs) \<Rightarrow>
               if theirs \<or> mine then False
               else (case get_or_create_privacy_settings (su_settings up) now target (so_privacy w) of
                       Ok p \<Rightarrow> ps_allow_receive_message_from_non_friend p
                     | Err _ \<Rightarrow> True))"

definition detail_answer_of ::
  "social_up \<Rightarrow> u64 \<Rightarrow> time \<Rightarrow> user_id \<Rightarrow> user_id \<Rightarrow> string \<Rightarrow> string \<Rightarrow> detail_access_verdict \<Rightarrow> user_profile
     \<Rightarrow> 'm social \<Rightarrow> 'm social \<times> detail_answer" where
  "detail_answer_of up gid now searcher target source source_id v profile w =
     (let uid = (case parse_u64 (up_user_id profile) of Some n \<Rightarrow> n | None \<Rightarrow> target);
          is_self = (searcher = uid);
          (mine, theirs) = mutual_block_or_none up searcher target w;
          blocked = (mine \<or> theirs);
          can_add = (\<not> is_self \<and> \<not> blocked \<and> dv_can_add_friend v);
          deny = (if is_self then None else if blocked then Some ''blacklist'' else dv_deny_reason v);
          visible = (is_self \<or> dv_is_friend v \<or> dv_username_unlocked v);
          grant = new_grant gid now searcher uid source source_id can_add deny (dv_username_unlocked v)
      in (w\<lparr>so_grants := save_profile_view_grant (su_redis up) grant (so_grants w)\<rparr>,
          \<lparr>da_user_id = uid, da_username = (if visible then up_username profile else []),
           da_phone = (if is_self then up_phone profile else None),
           da_email = (if is_self then up_email profile else None),
           da_is_friend = is_friend (su_friend up) searcher target (so_friends w),
           da_can_send_message = detail_can_send up now searcher target w,
           da_can_add_friend = can_add, da_deny_reason = deny, da_grant_id = gid\<rparr>))"

definition rpc_detail ::
  "(string \<Rightarrow> detail_source_type option) \<Rightarrow> social_up \<Rightarrow> u64 \<Rightarrow> time \<Rightarrow> string option \<Rightarrow> user_id \<Rightarrow> string \<Rightarrow> string
     \<Rightarrow> 'm social \<Rightarrow> 'm social \<times> (detail_answer, rpc_error) result" where
  "rpc_detail type_of_str up gid now ctx target source source_id w =
     (case get_current_user_id ctx of
        Err e \<Rightarrow> (w, Err e)
      | Ok searcher \<Rightarrow>
     (case if target \<noteq> searcher then ensure_reachable_user up target w else Ok () of
        Err e \<Rightarrow> (w, Err e)
      | Ok _ \<Rightarrow>
     (case type_of_str source of
        None \<Rightarrow> (w, Err (rpc_validation ''Invalid source type''))
      | Some ty \<Rightarrow>
     (case detail_source_of ty source_id of
        Err e \<Rightarrow> (w, Err e)
      | Ok src \<Rightarrow>
     (case evaluate_detail_access (reads_of up now w) now searcher target src of
        Err _ \<Rightarrow> (w, Err (rpc_forbidden ''Access denied''))
      | Ok v \<Rightarrow>
          if \<not> su_profile up then (w, Err (rpc_internal ''Database error''))
          else (case fmlookup (so_profiles w) target of
                  None \<Rightarrow> (w, Err (rpc_not_found ''User not found''))
                | Some profile \<Rightarrow>
                    map_prod id Ok (detail_answer_of up gid now searcher target source source_id v profile w)))))))"

section \<open>Sending the request\<close>

record apply_request =
  ar_target_user_id :: user_id
  ar_message :: "string option"
  ar_source :: "string option"
  ar_source_id :: "string option"
  ar_grant_id :: "string option"

definition id_or_zero :: "string \<Rightarrow> u64" where
  "id_or_zero text = (case parse_u64 text of Some n \<Rightarrow> n | None \<Rightarrow> 0)"

definition build_request_source :: "string \<Rightarrow> string \<Rightarrow> friend_request_source option" where
  "build_request_source ty sid =
     (if ty = ''search'' then Some (Search (id_or_zero sid))
      else if ty = ''group'' then Some (GroupSource (id_or_zero sid))
      else if ty = ''card_share'' then Some (CardShare (id_or_zero sid))
      else if ty = ''friend'' then Some (Search (id_or_zero sid))
      else if ty = ''conversation'' then Some (Conversation (id_or_zero sid))
      else None)"

definition legacy_request_source :: "string \<Rightarrow> string \<Rightarrow> friend_request_source option" where
  "legacy_request_source ty sid =
     (if ty = ''search'' then Some (Search (id_or_zero sid))
      else if ty = ''group'' then Some (GroupSource (id_or_zero sid))
      else if ty = ''card_share'' then Some (CardShare (id_or_zero sid))
      else if ty = ''friend'' then Some (Search (id_or_zero sid))
      else if ty = ''qrcode'' then Some (Qrcode sid)
      else if ty = ''conversation'' then Some (Conversation (id_or_zero sid))
      else None)"

definition legacy_detail_source :: "string \<Rightarrow> string \<Rightarrow> (user_detail_source, rpc_error) result" where
  "legacy_detail_source ty sid =
     (if ty = ''search'' then parsed_or SrcSearch sid
      else if ty = ''group'' then parsed_or SrcGroup sid
      else if ty = ''card_share'' then parsed_or SrcCardShare sid
      else if ty = ''friend'' then parsed_or (\<lambda>n. SrcFriend (Some n)) sid
      else if ty = ''qrcode'' then Ok (SrcQrcode sid)
      else if ty = ''conversation'' then parsed_or SrcConversation sid
      else Err (rpc_validation ''Invalid source type''))"

definition use_card :: "bool \<Rightarrow> time \<Rightarrow> user_id \<Rightarrow> friend_request_source option \<Rightarrow> 'm social \<Rightarrow> 'm social" where
  "use_card redis now u src w =
     (case src of
        Some (CardShare sid) \<Rightarrow> w\<lparr>so_cards := fst (mark_card_share_as_used redis now sid u (so_cards w))\<rparr>
      | _ \<Rightarrow> w)"

definition finish_apply ::
  "social_up \<Rightarrow> time \<Rightarrow> user_id \<Rightarrow> user_id \<Rightarrow> string \<Rightarrow> friend_request_source option \<Rightarrow> 'm social
     \<Rightarrow> 'm social \<times> (unit, rpc_error) result" where
  "finish_apply up now from_uid target message src w =
     (let w1 = use_card (su_redis up) now from_uid src w
      in if \<not> su_profile up then (w1, Err (rpc_internal ''Database error''))
         else (case fmlookup (so_profiles w1) target of
                 None \<Rightarrow> (w1, Err (rpc_not_found ''User not found''))
               | Some _ \<Rightarrow>
                   (case send_friend_request_with_source (su_send up) now from_uid target
                           (if message = [] then None else Some message) src (so_friends w1) of
                      (db, Ok _) \<Rightarrow> (w1\<lparr>so_friends := db\<rparr>, Ok ())
                    | (db, Err _) \<Rightarrow> (w1\<lparr>so_friends := db\<rparr>, Err (rpc_internal [])))))"

definition grant_refusal :: "string option \<Rightarrow> rpc_error" where
  "grant_refusal deny =
     (if deny = Some ''group_policy'' then rpc_from_code GroupAddFriendDisabled []
      else if deny = Some ''personal_privacy'' then rpc_from_code GroupAddFriendPersonalDisabled []
      else if deny = Some ''already_friend'' then rpc_from_code PAlreadyFriends []
      else rpc_forbidden ''Cannot add this user as friend'')"

definition verdict_refusal :: "string option \<Rightarrow> rpc_error" where
  "verdict_refusal deny =
     (if deny = Some ''group_policy'' then rpc_from_code GroupAddFriendDisabled []
      else if deny = Some ''personal_privacy'' then rpc_from_code GroupAddFriendPersonalDisabled []
      else rpc_forbidden ''Cannot add this user as friend'')"

definition apply_with_grant ::
  "social_up \<Rightarrow> time \<Rightarrow> user_id \<Rightarrow> apply_request \<Rightarrow> string \<Rightarrow> 'm social \<Rightarrow> 'm social \<times> (unit, rpc_error) result" where
  "apply_with_grant up now from_uid req grant_text w =
     (case parse_u64 grant_text of
        None \<Rightarrow> (w, Err (rpc_validation ''Invalid grant_id''))
      | Some gid \<Rightarrow>
     (case get_profile_view_grant (su_redis up) now gid (so_grants w) of
        None \<Rightarrow> (w, Err (rpc_from_code ProfileViewGrantExpired []))
      | Some g \<Rightarrow>
          if pg_viewer_id g \<noteq> from_uid \<or> pg_target_id g \<noteq> ar_target_user_id req
          then (w, Err (rpc_forbidden ''Profile view grant does not match this request''))
          else if \<not> pg_can_add_friend g then (w, Err (grant_refusal (pg_deny_reason g)))
          else (case mutual_block_or_none up from_uid (ar_target_user_id req) w of
                  (a, b) \<Rightarrow>
                    if a \<or> b then (w, Err (rpc_from_code UserInBlacklist []))
                    else finish_apply up now from_uid (ar_target_user_id req)
                           (case ar_message req of Some m \<Rightarrow> m | None \<Rightarrow> [])
                           (build_request_source (pg_source_type g) (pg_source_id g)) w)))"

definition apply_with_source ::
  "social_up \<Rightarrow> time \<Rightarrow> user_id \<Rightarrow> apply_request \<Rightarrow> 'm social \<Rightarrow> 'm social \<times> (unit, rpc_error) result" where
  "apply_with_source up now from_uid req w =
     (case (ar_source req, ar_source_id req) of
        (Some ty, Some sid) \<Rightarrow>
     (case legacy_detail_source ty sid of
        Err e \<Rightarrow> (w, Err e)
      | Ok src \<Rightarrow>
     (case evaluate_detail_access (reads_of up now w) now from_uid (ar_target_user_id req) src of
        Err _ \<Rightarrow> (w, Err (rpc_forbidden ''Source validation failed''))
      | Ok v \<Rightarrow>
          if \<not> dv_can_add_friend v \<and> \<not> dv_is_friend v then (w, Err (verdict_refusal (dv_deny_reason v)))
          else finish_apply up now from_uid (ar_target_user_id req)
                 (case ar_message req of Some m \<Rightarrow> m | None \<Rightarrow> []) (legacy_request_source ty sid) w))
      | _ \<Rightarrow> (w, Err (rpc_validation ''source and source_id are required (same as detail interface)'')))"

definition rpc_apply ::
  "social_up \<Rightarrow> time \<Rightarrow> string option \<Rightarrow> apply_request \<Rightarrow> 'm social \<Rightarrow> 'm social \<times> (unit, rpc_error) result" where
  "rpc_apply up now ctx req w =
     (case get_current_user_id ctx of
        Err e \<Rightarrow> (w, Err e)
      | Ok from_uid \<Rightarrow>
     (case ensure_reachable_user up (ar_target_user_id req) w of
        Err e \<Rightarrow> (w, Err e)
      | Ok _ \<Rightarrow>
     (case ar_grant_id req of
        Some grant_text \<Rightarrow> apply_with_grant up now from_uid req grant_text w
      | None \<Rightarrow> apply_with_source up now from_uid req w)))"

section \<open>When a request is stored\<close>

lemma send_stores_pending:
  assumes "u \<noteq> v" "try_is_friend True u v db = Ok False"
  shows "\<exists>db' n. send_friend_request_with_source (\<lambda>_. True) now u v msg src db = (db', Ok n) \<and>
           has_status 0 u v db'"
proof -
  have "\<not> is_friend True u v db" "\<And>r. fmlookup (fd_rows db) (u, v) = Some r \<Longrightarrow> fr_status r \<noteq> 1"
    using assms(2) by (auto simp: is_friend_def try_is_friend_def has_status_def)
  with assms(1) show ?thesis
    by (simp add: send_friend_request_with_source_def Let_def case_prod_beta split: option.split)
qed

lemma use_card_simps [simp]:
  "so_friends (use_card redis now u src w) = so_friends w"
  "so_profiles (use_card redis now u src w) = so_profiles w"
  by (simp_all add: use_card_def split: option.split friend_request_source.split)

lemma finish_apply_stores:
  assumes "u \<noteq> v" "try_is_friend True u v (so_friends w) = Ok False" "fmlookup (so_profiles w) v = Some p"
  shows "\<exists>w'. finish_apply all_up now u v msg src w = (w', Ok ()) \<and> has_status 0 u v (so_friends w')"
proof -
  obtain db n where "send_friend_request_with_source (\<lambda>_. True) now u v
      (if msg = [] then None else Some msg) src (so_friends w) = (db, Ok n)" "has_status 0 u v db"
    using send_stores_pending [OF assms(1,2)] by metis
  with assms(3) show ?thesis by (simp add: finish_apply_def Let_def)
qed

lemma apply_with_source_stores:
  assumes "get_current_user_id ctx = Ok u" "u \<noteq> ar_target_user_id req"
    and "ar_target_user_id req \<notin> set (so_assistants w)" "fmlookup (so_profiles w) (ar_target_user_id req) = Some p"
    and "ar_grant_id req = None" "ar_source req = Some ty" "ar_source_id req = Some sid"
    and "legacy_detail_source ty sid = Ok src"
    and "evaluate_detail_access (reads_of all_up now w) now u (ar_target_user_id req) src = Ok v" "dv_can_add_friend v"
  shows "\<exists>w'. rpc_apply all_up now ctx req w = (w', Ok ()) \<and> has_status 0 u (ar_target_user_id req) (so_friends w')"
proof -
  have "try_is_friend True u (ar_target_user_id req) (so_friends w) = Ok False"
    using assms(2,9,10)
    by (auto simp: evaluate_detail_access_def reads_of_def split: result.splits bool.splits)
  from finish_apply_stores [OF assms(2) this assms(4)] assms show ?thesis
    by (simp add: rpc_apply_def apply_with_source_def ensure_reachable_user_def)
qed

text \<open>With a grant a blocked user never gets through, as long as the blacklist can be read.\<close>

lemma grant_respects_blacklist:
  assumes "get_current_user_id ctx = Ok u" "ar_grant_id req = Some g"
    and "su_block up" "fmlookup (so_blacklist w) (ar_target_user_id req, u) \<noteq> None"
  shows "\<exists>e. rpc_apply up now ctx req w = (w, Err e)"
proof -
  have "snd (mutual_block_or_none up u (ar_target_user_id req) w)"
    using assms(3,4) by (simp add: mutual_block_or_none_def check_mutual_block_iff)
  with assms(1,2) show ?thesis
    by (auto simp: rpc_apply_def apply_with_grant_def ensure_reachable_user_def
        split: option.split prod.split)
qed

text \<open>
  C25. The blacklist stops a friend request that carries a view grant but not one that names its source
  itself. If the target has blocked the sender and the sender can still show evidence, for example a
  common group, then every request with a grant is refused and the same request without one is stored.
\<close>
theorem blacklist_guards_grants_only:
  assumes "get_current_user_id ctx = Ok u" "u \<noteq> ar_target_user_id req"
    and "ar_target_user_id req \<notin> set (so_assistants w)" "fmlookup (so_profiles w) (ar_target_user_id req) = Some p"
    and "ar_grant_id req = None" "ar_source req = Some ty" "ar_source_id req = Some sid"
    and "legacy_detail_source ty sid = Ok src"
    and "evaluate_detail_access (reads_of all_up now w) now u (ar_target_user_id req) src = Ok v" "dv_can_add_friend v"
    and "fmlookup (so_blacklist w) (ar_target_user_id req, u) = Some b"
  shows "(\<exists>w'. rpc_apply all_up now ctx req w = (w', Ok ()) \<and> has_status 0 u (ar_target_user_id req) (so_friends w')) \<and>
         (\<forall>g. \<exists>e. rpc_apply all_up now ctx (req\<lparr>ar_grant_id := Some g\<rparr>) w = (w, Err e))"
  using apply_with_source_stores [OF assms(1-10)]
    grant_respects_blacklist [of ctx u "req\<lparr>ar_grant_id := Some g\<rparr>" g all_up w now for g] assms(1,11)
  by simp

definition sample_world :: "unit social" where
  "sample_world =
     \<lparr>so_friends = empty_friend_db, so_blacklist = fmupd (2, 1) \<lparr>bl_reason = None, bl_created_at = 0\<rparr> fmempty,
      so_privacy = fmupd 2 (Some fmempty) fmempty, so_qr = new_qr_service,
      so_search = \<lparr>c_l1 = fmupd 5 (new_search_record 5 0 1 2 (Some ByUsername)) fmempty, c_l2 = fmempty\<rparr>,
      so_cards = \<lparr>c_l1 = fmempty, c_l2 = fmempty\<rparr>, so_grants = fmempty, so_channels = fmempty,
      so_policies = fmempty,
      so_profiles = fmupd 2 \<lparr>up_user_id = ''2'', up_username = ''bob'', up_phone = None, up_email = None\<rparr> fmempty,
      so_assistants = []\<rparr>"

definition sample_request :: "string \<Rightarrow> string \<Rightarrow> apply_request" where
  "sample_request ty sid =
     \<lparr>ar_target_user_id = 2, ar_message = None, ar_source = Some ty, ar_source_id = Some sid, ar_grant_id = None\<rparr>"

lemma sample_settings:
  "get_or_create_privacy_settings True now 2 (so_privacy sample_world) = Ok (new_privacy_settings now 2)"
  by (simp add: sample_world_def get_or_create_privacy_settings_def settings_from_stored_def parse_stored_def
      bool_fields_def Let_def apply_to_def new_privacy_settings_def opt_or_def)

theorem blacklist_guards_grants_only_witness:
  "\<exists>w'. rpc_apply all_up 1000 (Some (to_string_u64 1)) (sample_request ''search'' (to_string_u64 5)) sample_world = (w', Ok ()) \<and>
        has_status 0 1 2 (so_friends w')"
proof -
  have "evaluate_detail_access (reads_of all_up 1000 sample_world) 1000 1 2 (SrcSearch 5) =
      Ok (viewable_and_addable\<lparr>dv_username_unlocked := True\<rparr>)"
    using sample_settings [of 1000]
    by (simp add: evaluate_detail_access_def evaluate_search_source_def reads_of_def try_is_friend_def
        empty_has_no_status get_search_record_def new_search_record_def search_is_expired_def
        new_privacy_settings_def sample_world_def)
  then show ?thesis
    using blacklist_guards_grants_only [of "Some (to_string_u64 1)" 1 "sample_request ''search'' (to_string_u64 5)" sample_world
        "\<lparr>up_user_id = ''2'', up_username = ''bob'', up_phone = None, up_email = None\<rparr>" "''search''" "to_string_u64 5"
        "SrcSearch 5" 1000 "viewable_and_addable\<lparr>dv_username_unlocked := True\<rparr>" "\<lparr>bl_reason = None, bl_created_at = 0\<rparr>"]
    by (simp add: sample_request_def get_current_user_id_def legacy_detail_source_def parsed_or_def
        viewable_and_addable_def parse_to_string, simp add: sample_world_def)
qed

section \<open>A card made by somebody else\<close>

definition user_card_body :: "user_id \<Rightarrow> 'm qr_body" where
  "user_card_body v =
     \<lparr>qb_qr_type = Some ''user'', qb_target_id = Some (to_string_u64 v), qb_qr_key = None, qb_token = None,
      qb_expire_seconds = None, qb_max_usage = None, qb_one_time = None, qb_revoke_old = None,
      qb_include_revoked = None, qb_metadata = None\<rparr>"

lemma refresh_makes_card:
  assumes "get_current_user_id ctx = Ok u" "fmlookup (qr_storage s) key = None"
  shows "\<exists>s'. rpc_refresh add_secs null key now ctx (user_card_body v) s =
           (s', Ok (Some (case revoke_by_target (to_string_u64 v) s of (_, Ok k) \<Rightarrow> k | (_, Err _) \<Rightarrow> [], key))) \<and>
         (\<exists>r. fmlookup (qr_storage s') key = Some r \<and> qk_type r = QrUser \<and> qk_target r = to_string_u64 v \<and>
              qk_creator r = to_string_u64 u \<and> qk_expire_at r = None \<and> \<not> qk_revoked r) \<and>
         (\<forall>k r. fmlookup (qr_target_index s) (to_string_u64 v) = Some k \<longrightarrow> fmlookup (qr_storage s) k = Some r \<longrightarrow>
              fmlookup (qr_storage s') k = Some (r\<lparr>qk_revoked := True\<rparr>))"
proof -
  obtain s1 old where rv: "revoke_by_target (to_string_u64 v) s = (s1, old)" by fastforce
  have st: "fmlookup (qr_storage s1) k =
      map_option (\<lambda>r. if fmlookup (qr_target_index s) (to_string_u64 v) = Some k then r\<lparr>qk_revoked := True\<rparr> else r)
        (fmlookup (qr_storage s) k)" for k
    using revoke_by_target_lookup [of "to_string_u64 v" s k] rv by simp
  show ?thesis
    using assms
    by (auto simp: rpc_refresh_def user_card_body_def qr_type_from_str_def qr_refresh_def rv qr_generate_def
        default_qr_options_def Let_def qr_get_def st split: result.split)
qed

text \<open>
  C26. \<open>qrcode/refresh\<close> does not ask whose card it replaces. Any logged-in user can refresh the card of
  another user: the card the owner published is revoked, the caller holds a new valid one, and with it
  a friend request passes the source check although the target never gave the caller anything.
  \<open>qrcode/generate\<close> refuses the same body.
\<close>
theorem refresh_forges_card:
  assumes "get_current_user_id ctx = Ok u" "u \<noteq> v" "fmlookup (qr_storage (so_qr w)) key = None"
    and "v \<notin> set (so_assistants w)" "fmlookup (so_profiles w) v = Some p"
    and "try_is_friend True u v (so_friends w) = Ok False"
    and "get_or_create_privacy_settings True now v (so_privacy w) = Ok settings" "allows_search settings ByQrcode"
  shows "let w1 = w\<lparr>so_qr := fst (rpc_refresh add_secs null key now ctx (user_card_body v) (so_qr w))\<rparr>;
             req = \<lparr>ar_target_user_id = v, ar_message = None, ar_source = Some ''qrcode'', ar_source_id = Some key,
                    ar_grant_id = None\<rparr>
         in (\<forall>k r. fmlookup (qr_target_index (so_qr w)) (to_string_u64 v) = Some k \<longrightarrow>
                fmlookup (qr_storage (so_qr w)) k = Some r \<longrightarrow>
                fmlookup (qr_storage (so_qr w1)) k = Some (r\<lparr>qk_revoked := True\<rparr>)) \<and>
            (\<exists>w'. rpc_apply all_up now ctx req w1 = (w', Ok ()) \<and> has_status 0 u v (so_friends w')) \<and>
            (\<exists>e. rpc_generate add_secs members null key now ctx (user_card_body v) (so_qr w) = (so_qr w, Err e))"
proof -
  let ?req = "\<lparr>ar_target_user_id = v, ar_message = None, ar_source = Some ''qrcode'', ar_source_id = Some key,
               ar_grant_id = None\<rparr>"
  obtain s' r where s': "fst (rpc_refresh add_secs null key now ctx (user_card_body v) (so_qr w)) = s'"
      "fmlookup (qr_storage s') key = Some r" "qk_type r = QrUser" "qk_target r = to_string_u64 v"
      "qk_expire_at r = None" "\<not> qk_revoked r"
      "\<And>k r. fmlookup (qr_target_index (so_qr w)) (to_string_u64 v) = Some k \<Longrightarrow>
          fmlookup (qr_storage (so_qr w)) k = Some r \<Longrightarrow> fmlookup (qr_storage s') k = Some (r\<lparr>qk_revoked := True\<rparr>)"
    using refresh_makes_card [OF assms(1,3), of add_secs null now v] by fastforce
  let ?w1 = "w\<lparr>so_qr := s'\<rparr>"
  have eval: "evaluate_detail_access (reads_of all_up now ?w1) now u v (SrcQrcode key) = Ok viewable_and_addable"
    using assms(2,6-8) s'(2-6)
    by (simp add: evaluate_detail_access_def evaluate_qrcode_source_def reads_of_def qr_get_def)
  have "\<exists>w'. rpc_apply all_up now ctx ?req ?w1 = (w', Ok ()) \<and> has_status 0 u v (so_friends w')"
    using apply_with_source_stores [of ctx u ?req ?w1 p "''qrcode''" key "SrcQrcode key" now viewable_and_addable]
      assms(1,2,4,5) eval
    by (simp add: legacy_detail_source_def viewable_and_addable_def)
  moreover have "\<exists>e. rpc_generate add_secs members null key now ctx (user_card_body v) (so_qr w) = (so_qr w, Err e)"
    using assms(1,2) parse_to_string [of u] parse_to_string [of v]
    by (auto simp: rpc_generate_def user_card_body_def qr_type_from_str_def may_generate_def)
  ultimately show ?thesis using s'(1,7) by (simp add: Let_def)
qed

theorem refresh_forges_card_witness:
  "\<exists>w'. rpc_apply all_up 1000 (Some (to_string_u64 1)) (sample_request ''qrcode'' ''key'')
          (sample_world\<lparr>so_qr := fst (rpc_refresh (\<lambda>_ _. None) () ''key'' 1000 (Some (to_string_u64 1)) (user_card_body 2)
             (so_qr sample_world))\<rparr>) = (w', Ok ()) \<and>
        has_status 0 1 2 (so_friends w')"
proof -
  have "get_current_user_id (Some (to_string_u64 1)) = Ok 1"
    by (simp add: get_current_user_id_def parse_to_string)
  moreover have "fmlookup (qr_storage (so_qr sample_world)) ''key'' = None" "2 \<notin> set (so_assistants sample_world)"
      "fmlookup (so_profiles sample_world) 2 =
         Some \<lparr>up_user_id = ''2'', up_username = ''bob'', up_phone = None, up_email = None\<rparr>"
      "try_is_friend True 1 2 (so_friends sample_world) = Ok False"
    by (simp_all add: sample_world_def new_qr_service_def try_is_friend_def empty_has_no_status)
  ultimately show ?thesis
    using refresh_forges_card [of "Some (to_string_u64 1)" 1 2 sample_world "''key''" _ 1000
        "new_privacy_settings 1000 2" "\<lambda>_ _. None" "()"] sample_settings
    by (simp add: Let_def sample_request_def new_privacy_settings_def)
qed

end
