(* ===== verification/SendAuthorization.thy ===== *)
theory SendAuthorization
  imports FriendApply
begin

text \<open>
  \<open>service/send_authorization.rs\<close>: the one decision whether a user may write a message into a
  channel, with \<open>ChannelService::set_member_muted\<close>, which it schedules when a mute has run out.
\<close>

section \<open>Refusals\<close>

datatype send_refusal =
    NotAMember
  | MemberMuted mute_notice
  | GroupAllMuted
  | RoleCannotSend
  | BlockedByPeer
  | PeerInMyBlacklist
  | PeerRejectsNonFriends
  | FriendshipRemoved
  | ChannelForbidsPosting
  | PolicyUnavailable

fun refusal_error_code :: "send_refusal \<Rightarrow> protocol_code" where
  "refusal_error_code NotAMember = PPermissionDenied"
| "refusal_error_code (MemberMuted _) = MemberMutedCode"
| "refusal_error_code GroupAllMuted = GroupMutedCode"
| "refusal_error_code RoleCannotSend = PPermissionDenied"
| "refusal_error_code BlockedByPeer = BlockedByUser"
| "refusal_error_code PeerInMyBlacklist = UserInBlacklist"
| "refusal_error_code PeerRejectsNonFriends = PPermissionDenied"
| "refusal_error_code FriendshipRemoved = FriendNotFound"
| "refusal_error_code ChannelForbidsPosting = PPermissionDenied"
| "refusal_error_code PolicyUnavailable = PServiceUnavailable"

section \<open>The decision\<close>

text \<open>The services the decision asks.\<close>

record send_reads =
  sd_group_policy :: "u64 \<Rightarrow> (group_policy option, server_error) result"
  sd_mutual_block :: "user_id \<Rightarrow> user_id \<Rightarrow> (bool \<times> bool, server_error) result"
  sd_is_friend :: "user_id \<Rightarrow> user_id \<Rightarrow> (bool, server_error) result"
  sd_friendship_removed :: "user_id \<Rightarrow> user_id \<Rightarrow> (bool, server_error) result"
  sd_settings :: "user_id \<Rightarrow> (privacy_settings, server_error) result"

definition group_policy_check ::
  "send_reads \<Rightarrow> channel \<Rightarrow> channel_member \<Rightarrow> (unit, send_refusal) result" where
  "group_policy_check rd c m =
     (if cm_role m = Owner \<or> cm_role m = Admin then Ok ()
      else (case (case ch_group_id c of Some gid \<Rightarrow> sd_group_policy rd gid | None \<Rightarrow> Ok None) of
              Err _ \<Rightarrow> Err PolicyUnavailable
            | Ok policy \<Rightarrow>
                if (case policy of Some p \<Rightarrow> gp_all_muted p | None \<Rightarrow> False) then Err GroupAllMuted
                else if \<not> (case policy of Some p \<Rightarrow> gp_allow_member_post p | None \<Rightarrow> True)
                then Err ChannelForbidsPosting
                else Ok ()))"

definition group_check ::
  "send_reads \<Rightarrow> time \<Rightarrow> channel \<Rightarrow> channel_member \<Rightarrow> (unit, send_refusal) result" where
  "group_check rd now c m =
     (if cm_is_muted m \<and> mute_is_active (cm_is_muted m) (cm_mute_until m) now
      then Err (MemberMuted (mute_reject_message (cm_mute_until m) now))
      else (case group_policy_check rd c m of
              Err e \<Rightarrow> Err e
            | Ok _ \<Rightarrow>
                if \<not> mp_can_send_message (permissions_from_role (cm_role m)) then Err RoleCannotSend else Ok ()))"

definition direct_check :: "send_reads \<Rightarrow> user_id \<Rightarrow> user_id \<Rightarrow> (unit, send_refusal) result" where
  "direct_check rd sender peer =
     (case sd_mutual_block rd sender peer of
        Err _ \<Rightarrow> Err PolicyUnavailable
      | Ok (mine, theirs) \<Rightarrow>
          if theirs then Err BlockedByPeer
          else if mine then Err PeerInMyBlacklist
          else (case sd_is_friend rd sender peer of
                  Err _ \<Rightarrow> Err PolicyUnavailable
                | Ok True \<Rightarrow> Ok ()
                | Ok False \<Rightarrow>
                    (case sd_friendship_removed rd sender peer of
                       Err _ \<Rightarrow> Err PolicyUnavailable
                     | Ok True \<Rightarrow> Err FriendshipRemoved
                     | Ok False \<Rightarrow>
                         (case sd_settings rd peer of
                            Err _ \<Rightarrow> Err PolicyUnavailable
                          | Ok p \<Rightarrow>
                              if \<not> ps_allow_receive_message_from_non_friend p then Err PeerRejectsNonFriends
                              else Ok ()))))"

definition authorize_send_to_channel ::
  "send_reads \<Rightarrow> time \<Rightarrow> channel \<Rightarrow> user_id \<Rightarrow> (unit, send_refusal) result" where
  "authorize_send_to_channel rd now c sender =
     (case fmlookup (ch_members c) sender of
        None \<Rightarrow> Err NotAMember
      | Some m \<Rightarrow>
     (case if ch_channel_type c = Group then group_check rd now c m else Ok () of
        Err e \<Rightarrow> Err e
      | Ok _ \<Rightarrow>
          if \<not> mp_can_send_message (cm_permissions m) then Err ChannelForbidsPosting
          else if ch_channel_type c = Direct
          then (case find (\<lambda>u. u \<noteq> sender) (get_member_ids c) of
                  Some peer \<Rightarrow> direct_check rd sender peer
                | None \<Rightarrow> Ok ())
          else Ok ()))"

text \<open>
  The one side effect: a mute that is set but no longer active is cleared in the background. It reaches
  the member row and the cached channel; a member that is not muted has a null \<open>mute_until\<close> in the
  row.
\<close>

definition lazy_clear :: "time \<Rightarrow> channel \<Rightarrow> user_id \<Rightarrow> bool" where
  "lazy_clear now c sender =
     (case fmlookup (ch_members c) sender of
        None \<Rightarrow> False
      | Some m \<Rightarrow> ch_channel_type c = Group \<and> cm_is_muted m \<and>
                  \<not> mute_is_active (cm_is_muted m) (cm_mute_until m) now)"

definition set_member_muted ::
  "bool \<Rightarrow> bool \<Rightarrow> time option \<Rightarrow> channel_id \<Rightarrow> user_id
     \<Rightarrow> (channel_id \<times> user_id, time option) fmap \<times> (channel_id, channel) fmap
     \<Rightarrow> ((channel_id \<times> user_id, time option) fmap \<times> (channel_id, channel) fmap) \<times> (unit, server_error) result" where
  "set_member_muted up muted until cid u st =
     (case st of (rows, channels) \<Rightarrow>
        if \<not> up then (st, Err (Database []))
        else let rows1 = (case fmlookup rows (cid, u) of
                            Some _ \<Rightarrow> fmupd (cid, u) (if muted then until else None) rows
                          | None \<Rightarrow> rows)
             in (case fmlookup channels cid of
                   None \<Rightarrow> ((rows1, channels), Err (NotFound ''Channel not found''))
                 | Some c \<Rightarrow>
                     (case fmlookup (ch_members c) u of
                        None \<Rightarrow> ((rows1, channels), Err (NotFound ''Member not found in channel''))
                      | Some m \<Rightarrow>
                          ((rows1,
                            fmupd cid
                              (c\<lparr>ch_members := fmupd u
                                   (m\<lparr>cm_is_muted := muted, cm_mute_until := (if muted then until else None)\<rparr>)
                                   (ch_members c)\<rparr>)
                              channels), Ok ()))))"

section \<open>Faults\<close>

text \<open>\<open>rd'\<close> answers everything \<open>rd\<close> answers, with the same answers, and may answer more.\<close>

definition answers_more :: "send_reads \<Rightarrow> send_reads \<Rightarrow> bool" where
  "answers_more rd rd' \<longleftrightarrow>
     (\<forall>g. is_ok (sd_group_policy rd g) \<longrightarrow> sd_group_policy rd' g = sd_group_policy rd g) \<and>
     (\<forall>u v. is_ok (sd_mutual_block rd u v) \<longrightarrow> sd_mutual_block rd' u v = sd_mutual_block rd u v) \<and>
     (\<forall>u v. is_ok (sd_is_friend rd u v) \<longrightarrow> sd_is_friend rd' u v = sd_is_friend rd u v) \<and>
     (\<forall>u v. is_ok (sd_friendship_removed rd u v) \<longrightarrow>
              sd_friendship_removed rd' u v = sd_friendship_removed rd u v) \<and>
     (\<forall>u. is_ok (sd_settings rd u) \<longrightarrow> sd_settings rd' u = sd_settings rd u)"

lemma is_ok_cases: "is_ok r \<longrightarrow> r' = r \<Longrightarrow> (\<exists>x. r = Ok x \<and> r' = Ok x) \<or> (\<exists>e. r = Err e)"
  by (cases r) auto

lemma group_policy_faults:
  assumes "answers_more rd rd'"
  shows "group_policy_check rd c m = Err PolicyUnavailable \<or> group_policy_check rd' c m = group_policy_check rd c m"
proof (cases "ch_group_id c")
  case (Some gid)
  have "is_ok (sd_group_policy rd gid) \<longrightarrow> sd_group_policy rd' gid = sd_group_policy rd gid"
    using assms by (simp add: answers_more_def)
  with Some show ?thesis by (auto simp: group_policy_check_def dest!: is_ok_cases)
qed (simp add: group_policy_check_def)

lemma direct_check_faults:
  assumes "answers_more rd rd'"
  shows "direct_check rd u v = Err PolicyUnavailable \<or> direct_check rd' u v = direct_check rd u v"
proof -
  have "is_ok (sd_mutual_block rd u v) \<longrightarrow> sd_mutual_block rd' u v = sd_mutual_block rd u v"
    "is_ok (sd_is_friend rd u v) \<longrightarrow> sd_is_friend rd' u v = sd_is_friend rd u v"
    "is_ok (sd_friendship_removed rd u v) \<longrightarrow> sd_friendship_removed rd' u v = sd_friendship_removed rd u v"
    "is_ok (sd_settings rd v) \<longrightarrow> sd_settings rd' v = sd_settings rd v"
    using assms by (simp_all add: answers_more_def)
  from this [THEN is_ok_cases] show ?thesis
    by (elim disjE exE conjE) (simp_all add: direct_check_def split: prod.split bool.split)
qed

lemma group_check_faults:
  assumes "answers_more rd rd'"
  shows "group_check rd now c m = Err PolicyUnavailable \<or> group_check rd' now c m = group_check rd now c m"
  using group_policy_faults [OF assms, of c m] by (auto simp: group_check_def)

text \<open>
  C27. A failing read never changes the decision: whatever the blacklist, friend, group-policy and
  settings queries would have answered, the decision taken while some of them fail is either the one
  taken with all answers or the refusal \<open>PolicyUnavailable\<close>, whose code tells the client to retry and
  is the code of no other refusal. In particular no fault lets a message through.
\<close>
theorem send_fails_closed:
  assumes "answers_more rd rd'"
  shows "(authorize_send_to_channel rd now c u = Err PolicyUnavailable \<or>
          authorize_send_to_channel rd now c u = authorize_send_to_channel rd' now c u) \<and>
         (refusal_error_code e = PServiceUnavailable \<longleftrightarrow> e = PolicyUnavailable)"
proof
  show "authorize_send_to_channel rd now c u = Err PolicyUnavailable \<or>
      authorize_send_to_channel rd now c u = authorize_send_to_channel rd' now c u"
  proof (cases "fmlookup (ch_members c) u")
    case (Some m)
    show ?thesis
    proof (cases "ch_channel_type c")
      case Group
      with Some group_check_faults [OF assms, of now c m] show ?thesis
        by (auto simp: authorize_send_to_channel_def)
    next
      case Direct
      have "direct_check rd u v = Err PolicyUnavailable \<or> direct_check rd u v = direct_check rd' u v" for v
        using direct_check_faults [OF assms, of u v] by auto
      with Direct Some show ?thesis
        by (auto simp: authorize_send_to_channel_def split: option.split)
    qed (use Some in \<open>simp add: authorize_send_to_channel_def\<close>)
  qed (simp add: authorize_send_to_channel_def)
qed (cases e; simp)

definition down_reads :: send_reads where
  "down_reads =
     \<lparr>sd_group_policy = (\<lambda>_. Err (Database [])), sd_mutual_block = (\<lambda>_ _. Err (Database [])),
      sd_is_friend = (\<lambda>_ _. Err (Database [])), sd_friendship_removed = (\<lambda>_ _. Err (Database [])),
      sd_settings = (\<lambda>_. Err (Database []))\<rparr>"

definition open_reads :: send_reads where
  "open_reads =
     \<lparr>sd_group_policy = (\<lambda>_. Ok None), sd_mutual_block = (\<lambda>_ _. Ok (False, False)),
      sd_is_friend = (\<lambda>_ _. Ok True), sd_friendship_removed = (\<lambda>_ _. Ok False),
      sd_settings = (\<lambda>u. Ok (new_privacy_settings 0 u))\<rparr>"

theorem send_fails_closed_witness:
  "authorize_send_to_channel open_reads 0 (new_direct 0 1 2 3) 2 = Ok () \<and>
   authorize_send_to_channel down_reads 0 (new_direct 0 1 2 3) 2 = Err PolicyUnavailable"
proof -
  have member: "mp_can_send_message (cm_permissions (new_member 0 2 Member))"
    by (simp add: new_member_def plain_member_permissions_def)
  have "answers_more down_reads open_reads"
    by (simp add: answers_more_def down_reads_def)
  from send_fails_closed [OF this, of 0 "new_direct 0 1 2 3" 2 PolicyUnavailable]
  show ?thesis
    by (simp add: authorize_send_to_channel_def new_direct_def member get_member_ids_def direct_check_def
        open_reads_def down_reads_def)
qed

section \<open>Over the tables\<close>

definition send_reads_of :: "social_up \<Rightarrow> time \<Rightarrow> 'm social \<Rightarrow> send_reads" where
  "send_reads_of up now w =
     \<lparr>sd_group_policy = (\<lambda>gid. if su_policy up then Ok (fmlookup (so_policies w) gid) else Err (Database [])),
      sd_mutual_block = (\<lambda>u v. check_mutual_block (su_block up) u v (so_blacklist w)),
      sd_is_friend = (\<lambda>u v. try_is_friend (su_friend up) u v (so_friends w)),
      sd_friendship_removed = (\<lambda>u v. try_friendship_removed (su_friend up) u v (so_friends w)),
      sd_settings = (\<lambda>u. get_or_create_privacy_settings (su_settings up) now u (so_privacy w))\<rparr>"

lemma direct_run_inv: "direct_inv a b (run chan_step (new_direct t cid a b) es)"
  using direct_system.run_inv [where es = es] by simp

lemma direct_authorize:
  assumes "direct_inv a b c" "fmlookup (ch_members c) u = Some m"
  shows "authorize_send_to_channel rd now c u =
           (case find (\<lambda>x. x \<noteq> u) (if a = b then [a] else [a, b]) of Some peer \<Rightarrow> direct_check rd u peer | None \<Rightarrow> Ok ())"
proof -
  have "mp_can_send_message (cm_permissions m)"
    using assms by (auto simp: direct_inv_def members_ok_def member_ok_def plain_member_permissions_def)
  moreover have "ch_channel_type c = Direct" "get_member_ids c = (if a = b then [a] else [a, b])"
    using assms(1) by (auto simp: direct_inv_def get_member_ids_def)
  ultimately show ?thesis using assms(2) by (simp add: authorize_send_to_channel_def)
qed

lemma direct_not_ok:
  assumes "\<not> has_status 1 u v (so_friends w)" "\<not> has_status 1 v u (so_friends w)" "has_status 2 v u (so_friends w)"
  shows "\<exists>e. direct_check (send_reads_of up now w) u v = Err e"
    and "su_block up \<Longrightarrow> su_friend up \<Longrightarrow> fmlookup (so_blacklist w) (u, v) = None \<Longrightarrow>
         fmlookup (so_blacklist w) (v, u) = None \<Longrightarrow>
         direct_check (send_reads_of up now w) u v = Err FriendshipRemoved"
  using assms
  by (auto simp: direct_check_def send_reads_of_def try_is_friend_def try_friendship_removed_def
      check_mutual_block_iff split: result.split bool.split)


definition friends_1_2 :: "friend_event list" where
  "friends_1_2 = [FSend (\<lambda>_. True) 0 1 2 None None, FAccept (\<lambda>_. True) 1 2 1]"


text \<open>
  C29. Who may write into a direct conversation is not decided by \<open>is_member\<close>: a third user who has a
  participant entry may write as soon as the checks against the first founding user let them through,
  although \<open>is_member\<close> says they do not belong to it; and a founding user whose participant entry is
  missing is refused, although \<open>is_member\<close> accepts them.
\<close>
theorem direct_send_uses_participants:
  assumes "x \<notin> {a, b}" "fmlookup (ch_members (run chan_step (new_direct t cid a b) es)) x = Some m"
    and "direct_check rd x a = Ok ()"
  shows "let c = run chan_step (new_direct t cid a b) es;
             c' = c\<lparr>ch_members := fmdrop a (ch_members c)\<rparr>
         in \<not> is_member x c \<and> authorize_send_to_channel rd now c x = Ok () \<and>
            is_member a c' \<and> authorize_send_to_channel rd now c' a = Err NotAMember"
proof -
  define c where "c = run chan_step (new_direct t cid a b) es"
  have inv: "direct_inv a b c" unfolding c_def by (rule direct_run_inv)
  have "authorize_send_to_channel rd now c x = Ok ()"
    using direct_authorize [OF inv assms(2) [folded c_def]] assms(1,3) by auto
  then show ?thesis
    using inv assms(1) unfolding c_def [symmetric]
    by (auto simp: Let_def direct_inv_def is_member_def authorize_send_to_channel_def)
qed

theorem direct_send_uses_participants_witness:
  "\<not> is_member 9 (run chan_step (new_direct 0 7 1 2) [CAdd 1 9 None]) \<and>
   authorize_send_to_channel open_reads 5 (run chan_step (new_direct 0 7 1 2) [CAdd 1 9 None]) 9 = Ok ()"
proof -
  have "\<exists>m. fmlookup (ch_members (run chan_step (new_direct 0 7 1 2) [CAdd 1 9 None])) 9 = Some m"
    by (simp add: new_direct_def add_member_def Let_def default_metadata_def)
  then obtain m where "fmlookup (ch_members (run chan_step (new_direct 0 7 1 2) [CAdd 1 9 None])) 9 = Some m" ..
  from direct_send_uses_participants [OF _ this, of open_reads 5] show ?thesis
    by (simp add: Let_def direct_check_def open_reads_def)
qed

end
