(* ===== verification/UploadRanges.thy ===== *)
theory UploadRanges
  imports Prelude
begin

text \<open>
  The interval arithmetic of resumable uploads. \<open>service/chunked_upload.rs\<close> merges the received
  parts of a session into ranges and computes the missing ones, \<open>http/routes/upload_s3.rs\<close> does
  the same for the parts a bucket lists, and \<open>service/numbered_parts.rs\<close> fixes the size every
  numbered part must have. All numbers are the source's 64-bit and 32-bit words. The lemmas read a
  list of ranges as the set of byte positions it covers, and show that the missing ranges are exactly
  the complement of the received ones.
\<close>

section \<open>Ranges\<close>

record range =
  rg_offset :: u64
  rg_length :: u64

abbreviation rg :: "u64 \<Rightarrow> u64 \<Rightarrow> range" where
  "rg off len \<equiv> \<lparr>rg_offset = off, rg_length = len\<rparr>"

text \<open>First position of a range and the position after its last one, as unbounded numbers.\<close>

definition lo :: "range \<Rightarrow> nat" where
  "lo r = unat (rg_offset r)"

definition hi :: "range \<Rightarrow> nat" where
  "hi r = unat (rg_offset r) + unat (rg_length r)"

definition positions :: "range list \<Rightarrow> nat set" where
  "positions rs = (\<Union>r\<in>set rs. {lo r ..< hi r})"

text \<open>The end of the range fits the word, so that the source's sums do not wrap.\<close>

definition fits :: "range \<Rightarrow> bool" where
  "fits r \<longleftrightarrow> hi r < 2 ^ 64"

definition bytes_in :: "range list \<Rightarrow> nat" where
  "bytes_in rs = (\<Sum>r\<leftarrow>rs. unat (rg_length r))"

section \<open>Received and missing ranges\<close>

text \<open>One step of the merge loop of \<open>ChunkedSession::status\<close>: a part that starts where the last
  range ends extends it.\<close>

definition push_part :: "range list \<Rightarrow> range \<Rightarrow> range list" where
  "push_part received p =
     (if received \<noteq> [] \<and> rg_offset (last received) + rg_length (last received) = rg_offset p
      then butlast received @ [(last received)\<lparr>rg_length := rg_length (last received) + rg_length p\<rparr>]
      else received @ [p])"

definition merge_adjacent :: "range list \<Rightarrow> range list" where
  "merge_adjacent parts = foldl push_part [] parts"

fun missing_loop :: "u64 \<Rightarrow> range list \<Rightarrow> range list \<times> u64" where
  "missing_loop cursor [] = ([], cursor)"
| "missing_loop cursor (r # rs) =
     (let (ms, c) = missing_loop (max cursor (rg_offset r + rg_length r)) rs
      in ((if cursor < rg_offset r then [rg cursor (rg_offset r - cursor)] else []) @ ms, c))"

definition missing_complement :: "range list \<Rightarrow> u64 \<Rightarrow> range list" where
  "missing_complement received total_size =
     (let (ms, cursor) = missing_loop 0 received
      in ms @ (if cursor < total_size then [rg cursor (total_size - cursor)] else []))"

text \<open>What \<open>status\<close> reports for the scanned parts: received ranges, missing ranges, byte count.\<close>

definition status_of :: "u64 \<Rightarrow> range list \<Rightarrow> range list \<times> range list \<times> u64" where
  "status_of total_size parts =
     (let received = merge_adjacent parts
      in (received, missing_complement received total_size, (\<Sum>p\<leftarrow>parts. rg_length p)))"

section \<open>Numbered parts\<close>

definition div_ceil :: "u64 \<Rightarrow> u64 \<Rightarrow> u64" where
  "div_ceil a b = (if a mod b = 0 then a div b else a div b + 1)"

definition s3_part_geometry :: "u64 \<Rightarrow> u64 \<times> u32" where
  "s3_part_geometry total_size =
     (let min_part = push_bit 20 5; default_part = push_bit 20 8; max_part = push_bit 30 5;
          max_parts = 10000; align = push_bit 20 1;
          by_count = div_ceil total_size max_parts;
          part_size = max default_part by_count;
          part_size = div_ceil part_size align * align;
          part_size = min (max part_size min_part) max_part;
          total_parts = ucast (div_ceil total_size part_size)
      in (part_size, total_parts))"

text \<open>The required size of a part. The source would panic on a zero part size in the remainder; the
  frozen part size comes from \<open>s3_part_geometry\<close>, which never gives zero.\<close>

definition check_part_geometry ::
  "u32 \<Rightarrow> u64 \<Rightarrow> u32 \<Rightarrow> u64 \<Rightarrow> u64 \<Rightarrow> (unit, string) result" where
  "check_part_geometry part_number content_length total_parts part_size total_size =
     (if part_number = 0 \<or> total_parts < part_number then Err []
      else let expected = (if part_number = total_parts
                           then let rem = total_size mod part_size in if rem = 0 then part_size else rem
                           else part_size)
           in if content_length \<noteq> expected then Err [] else Ok ())"

record listed_part =
  lp_number :: u32
  lp_size :: u64
  lp_etag :: string
  lp_checksum :: "string option"

definition part_offset :: "u64 \<Rightarrow> u32 \<Rightarrow> u64" where
  "part_offset part_size n = (ucast n - 1) * part_size"

definition push_union :: "range list \<Rightarrow> range \<Rightarrow> range list" where
  "push_union merged r =
     (if merged \<noteq> [] \<and> rg_offset r \<le> rg_offset (last merged) + rg_length (last merged)
      then let l = last merged;
               e = max (rg_offset l + rg_length l) (rg_offset r + rg_length r)
           in butlast merged @ [l\<lparr>rg_length := e - rg_offset l\<rparr>]
      else merged @ [r])"

definition ranges_from_parts :: "listed_part list \<Rightarrow> u64 \<Rightarrow> u32 \<Rightarrow> u64 \<Rightarrow> range list" where
  "ranges_from_parts parts part_size total_parts total_size =
     (let ranges = map (\<lambda>p. rg (part_offset part_size (lp_number p)) (lp_size p))
                     (filter (\<lambda>p. is_ok (check_part_geometry (lp_number p) (lp_size p) total_parts part_size total_size)) parts)
      in foldl push_union [] (sort_key rg_offset ranges))"

section \<open>Ranges as sets of positions\<close>

lemma positions_simps [simp]:
  "positions [] = {}"
  "positions (r # rs) = {lo r ..< hi r} \<union> positions rs"
  "positions (rs @ ss) = positions rs \<union> positions ss"
  by (auto simp: positions_def)

lemma rg_eta [simp]: "rg (rg_offset r) (rg_length r) = r"
  by simp

lemma lo_hi_rg [simp]: "lo (rg p n) = unat p" "hi (rg p n) = unat p + unat n"
  by (simp_all add: lo_def hi_def)

lemma lo_le_hi: "lo r \<le> hi r"
  by (simp add: lo_def hi_def)

lemma unat_u64_less: "unat (x :: u64) < 2 ^ 64"
  using unsigned_less [where 'a = nat and w = x] by simp

lemma unat_end: "fits r \<Longrightarrow> unat (rg_offset r + rg_length r) = hi r"
  by (simp add: fits_def hi_def unat_word_ariths)

lemma offset_less_iff: "rg_offset r < c \<longleftrightarrow> lo r < unat c" "c < rg_offset r \<longleftrightarrow> unat c < lo r"
  by (simp_all add: lo_def word_less_nat_alt)

lemma unat_max: "unat (max a b) = max (unat a) (unat (b :: u64))"
  by (simp add: max_def word_le_nat_alt)

lemma unat_diff: "(b :: u64) \<le> a \<Longrightarrow> unat (a - b) = unat a - unat b"
  by (simp add: unat_sub)

lemma missing_loop_snd:
  "\<forall>r\<in>set rs. fits r \<Longrightarrow> unat (snd (missing_loop c rs)) = fold (\<lambda>r m. max m (hi r)) rs (unat c)"
  by (induction rs arbitrary: c) (auto simp: case_prod_beta Let_def unat_max unat_end)

text \<open>With the ranges in order of their offsets the gaps found up to the cursor are exactly the
  positions below the cursor that no range covers.\<close>

lemma missing_loop_exact:
  assumes "\<forall>r\<in>set rs. fits r" "sorted (map lo rs)"
  shows "positions (fst (missing_loop c rs)) \<union> ({unat c ..< unat (snd (missing_loop c rs))} \<inter> positions rs)
           = {unat c ..< unat (snd (missing_loop c rs))}
         \<and> positions (fst (missing_loop c rs)) \<inter> positions rs = {}
         \<and> positions rs \<subseteq> {..< unat (snd (missing_loop c rs))}
         \<and> unat c \<le> unat (snd (missing_loop c rs))"
  using assms
proof (induction rs arbitrary: c)
  case Nil
  then show ?case by simp
next
  case (Cons r rs)
  define c' where "c' = max c (rg_offset r + rg_length r)"
  have c': "unat c' = max (unat c) (hi r)" using Cons.prems by (simp add: c'_def unat_max unat_end)
  define s where "s = unat (snd (missing_loop c' rs))"
  define ms where "ms = positions (fst (missing_loop c' rs))"
  have IH: "ms \<union> ({unat c' ..< s} \<inter> positions rs) = {unat c' ..< s}" "ms \<inter> positions rs = {}"
      "positions rs \<subseteq> {..< s}" "unat c' \<le> s"
    using Cons.IH [of c'] Cons.prems by (auto simp: s_def ms_def)
  have above: "\<forall>x\<in>positions rs. lo r \<le> x" using Cons.prems by (auto simp: positions_def)
  have gap: "positions (if c < rg_offset r then [rg c (rg_offset r - c)] else []) = {unat c ..< lo r}"
    by (auto simp: offset_less_iff lo_def unat_diff word_le_nat_alt)
  have fst: "positions (fst (missing_loop c (r # rs))) = {unat c ..< lo r} \<union> ms"
    by (simp add: case_prod_beta Let_def c'_def [symmetric] ms_def gap)
  have snd: "unat (snd (missing_loop c (r # rs))) = s"
    by (simp add: case_prod_beta Let_def c'_def [symmetric] s_def)
  have ms_sub: "ms \<subseteq> {unat c' ..< s}" using IH(1) by blast
  have "lo r \<le> s" "unat c \<le> s" "hi r \<le> s" using IH(4) c' order.trans [OF lo_le_hi [of r], of s] by auto
  then show ?case unfolding fst snd using IH above ms_sub c' by (auto simp: max_def split: if_splits)
qed

text \<open>The missing ranges are exactly the positions below the total that nothing covers.\<close>

lemma missing_complement_exact:
  assumes "\<forall>r\<in>set rs. hi r \<le> unat total_size" "sorted (map lo rs)"
  shows "positions (missing_complement rs total_size) = {..< unat total_size} - positions rs"
proof -
  have fits: "\<forall>r\<in>set rs. fits r"
    using assms(1) unat_u64_less [of total_size] by (auto simp: fits_def intro: le_less_trans)
  define s where "s = unat (snd (missing_loop 0 rs))"
  have "fold (\<lambda>r m. max m (hi r)) rs 0 \<le> unat total_size"
    using assms(1) by (induction rs rule: rev_induct) auto
  then have le: "s \<le> unat total_size" using missing_loop_snd [OF fits, of 0] by (simp add: s_def)
  have tail: "positions (if snd (missing_loop 0 rs) < total_size
      then [rg (snd (missing_loop 0 rs)) (total_size - snd (missing_loop 0 rs))] else []) = {s ..< unat total_size}"
    using le by (auto simp: s_def word_less_nat_alt unat_diff word_le_nat_alt)
  have "positions (missing_complement rs total_size) = positions (fst (missing_loop 0 rs)) \<union> {s ..< unat total_size}"
    by (simp add: missing_complement_def case_prod_beta Let_def tail)
  moreover have "positions (fst (missing_loop 0 rs)) = {..< s} - positions rs"
      "positions rs \<subseteq> {..< s}"
    using missing_loop_exact [OF fits assms(2), of 0] by (auto simp: s_def lessThan_atLeast0)
  ultimately show ?thesis using le by auto
qed

text \<open>Merging the parts of a session, which are disjoint and in order, keeps the covered positions
  and leaves a gap between any two ranges.\<close>

definition in_order :: "range list \<Rightarrow> bool" where
  "in_order rs \<longleftrightarrow> sorted_wrt (\<lambda>a b. hi a \<le> lo b) rs"

definition with_gaps :: "range list \<Rightarrow> bool" where
  "with_gaps rs \<longleftrightarrow> sorted_wrt (\<lambda>a b. hi a < lo b) rs"

lemma with_gaps_sorted: "with_gaps rs \<Longrightarrow> sorted (map lo rs)"
  unfolding with_gaps_def sorted_map
  by (erule sorted_wrt_mono_rel [rotated]) (metis lo_le_hi less_imp_le order.trans)

lemma last_in_order: "in_order (ps @ [p]) \<Longrightarrow> ps \<noteq> [] \<Longrightarrow> hi (last ps) \<le> lo p"
  by (auto simp: in_order_def sorted_wrt_append)

lemma with_gaps_butlast_last:
  "with_gaps ms \<Longrightarrow> ms \<noteq> [] \<Longrightarrow> with_gaps (butlast ms) \<and> (\<forall>m\<in>set (butlast ms). hi m < lo (last ms))"
  by (metis append_butlast_last_id list.set_intros(1) sorted_wrt_append with_gaps_def)

lemma merge_adjacent_snoc: "merge_adjacent (ps @ [p]) = push_part (merge_adjacent ps) p"
  by (simp add: merge_adjacent_def)

lemma merge_adjacent_spec:
  assumes "in_order parts" "\<forall>p\<in>set parts. fits p"
  shows "positions (merge_adjacent parts) = positions parts \<and> with_gaps (merge_adjacent parts)
         \<and> (\<forall>r\<in>set (merge_adjacent parts). fits r \<and> (\<exists>p\<in>set parts. hi r = hi p))
         \<and> (merge_adjacent parts = [] \<longleftrightarrow> parts = [])
         \<and> (parts \<noteq> [] \<longrightarrow> hi (last (merge_adjacent parts)) = hi (last parts))
         \<and> ((\<forall>p\<in>set parts. lo p < hi p) \<longrightarrow> (\<forall>r\<in>set (merge_adjacent parts). lo r < hi r))"
  using assms
proof (induction parts rule: rev_induct)
  case Nil
  then show ?case by (simp add: merge_adjacent_def with_gaps_def)
next
  case (snoc p ps)
  define ms where "ms = merge_adjacent ps"
  have "in_order ps" using snoc.prems(1) by (simp add: in_order_def sorted_wrt_append)
  with snoc have IH: "positions ms = positions ps" "with_gaps ms" "\<forall>r\<in>set ms. fits r \<and> (\<exists>q\<in>set ps. hi r = hi q)"
      "ms = [] \<longleftrightarrow> ps = []" "ps \<noteq> [] \<longrightarrow> hi (last ms) = hi (last ps)"
      "(\<forall>q\<in>set ps. lo q < hi q) \<longrightarrow> (\<forall>r\<in>set ms. lo r < hi r)"
    by (auto simp: ms_def)
  have p: "fits p" using snoc.prems(2) by simp
  consider (nil) "ms = []"
    | (join) "ms \<noteq> []" "rg_offset (last ms) + rg_length (last ms) = rg_offset p"
    | (push) "ms \<noteq> []" "rg_offset (last ms) + rg_length (last ms) \<noteq> rg_offset p" by blast
  then show ?case
  proof cases
    case nil
    with IH(4) p show ?thesis by (simp add: merge_adjacent_def push_part_def with_gaps_def)
  next
    case join
    define l where "l = last ms"
    define l' where "l' = l\<lparr>rg_length := rg_length l + rg_length p\<rparr>"
    have ms: "ms = butlast ms @ [l]" using join by (simp add: l_def)
    have l: "fits l" using IH(3) join by (auto simp: l_def)
    have lp: "hi l = lo p" using join(2) unat_end [OF l] by (simp add: l_def lo_def)
    have "unat (rg_length l) + unat (rg_length p) < 2 ^ 64"
      using p lp by (simp add: fits_def hi_def lo_def)
    then have l': "lo l' = lo l" "hi l' = hi p"
      using lp by (simp_all add: l'_def lo_def hi_def unat_word_ariths)
    have split: "with_gaps (butlast ms)" "\<forall>m\<in>set (butlast ms). hi m < lo l"
      using with_gaps_butlast_last [OF IH(2) join(1)] by (simp_all add: l_def)
    have "positions ms = positions (butlast ms) \<union> {lo l ..< hi l}" by (subst ms) simp
    then have "positions (butlast ms @ [l']) = positions (ps @ [p])"
      using IH(1) l' lp lo_le_hi [of l] lo_le_hi [of p] by auto
    moreover have eq: "merge_adjacent (ps @ [p]) = butlast ms @ [l']"
      using join by (simp add: merge_adjacent_snoc ms_def [symmetric] push_part_def l_def l'_def)
    moreover have "with_gaps (butlast ms @ [l'])"
      using split l' by (simp add: with_gaps_def sorted_wrt_append)
    moreover have "fits l'" using p l' by (simp add: fits_def)
    then have "\<forall>r\<in>set (butlast ms @ [l']). fits r \<and> (\<exists>q\<in>set (ps @ [p]). hi r = hi q)"
      using IH(3) l' by (auto dest: in_set_butlastD)
    moreover have "\<forall>r\<in>set (butlast ms @ [l']). lo r < hi r" if "\<forall>q\<in>set (ps @ [p]). lo q < hi q"
      using that IH(6) l' lp lo_le_hi [of l] by (auto dest: in_set_butlastD)
    moreover have "butlast ms @ [l'] \<noteq> []" "ps @ [p] \<noteq> []"
        "hi (last (butlast ms @ [l'])) = hi (last (ps @ [p]))" using l'(2) by simp_all
    ultimately show ?thesis unfolding eq by blast
  next
    case push
    have "hi (last ms) \<noteq> lo p"
    proof
      assume "hi (last ms) = lo p"
      then have "unat (rg_offset (last ms) + rg_length (last ms)) = unat (rg_offset p)"
        using push(1) IH(3) by (simp add: unat_end lo_def)
      with push(2) show False by (simp add: word_unat_eq_iff)
    qed
    with IH push(1) have "hi (last ms) < lo p" using last_in_order [OF snoc.prems(1)] by auto
    moreover have "\<forall>m\<in>set ms. hi m \<le> hi (last ms)"
      using with_gaps_butlast_last [OF IH(2) push(1)] push(1) lo_le_hi [of "last ms"]
      by (metis append_butlast_last_id less_imp_le order.trans order_refl rotate1.simps(2) set_ConsD set_rotate1)
    ultimately have "with_gaps (ms @ [p])"
      using IH(2) by (fastforce simp: with_gaps_def sorted_wrt_append)
    with IH p push show ?thesis
      by (auto simp: merge_adjacent_snoc ms_def [symmetric] push_part_def)
  qed
qed

lemma in_order_bytes:
  assumes "in_order parts" "\<forall>p\<in>set parts. fits p"
  shows "unat (\<Sum>p\<leftarrow>parts. rg_length p) = card (positions parts)
         \<and> card (positions parts) \<le> (if parts = [] then 0 else hi (last parts))"
  using assms
proof (induction parts rule: rev_induct)
  case Nil
  then show ?case by simp
next
  case (snoc p ps)
  have ord: "in_order ps" "\<forall>q\<in>set ps. hi q \<le> lo p"
    using snoc.prems(1) by (simp_all add: in_order_def sorted_wrt_append)
  have disj: "positions ps \<inter> {lo p ..< hi p} = {}"
    using ord(2) by (fastforce simp: positions_def)
  have fin: "finite (positions ps)" by (simp add: positions_def)
  have card: "card (positions (ps @ [p])) = card (positions ps) + unat (rg_length p)"
    using disj fin by (simp add: card_Un_disjoint lo_def hi_def)
  have IH: "unat (\<Sum>q\<leftarrow>ps. rg_length q) = card (positions ps)"
      "card (positions ps) \<le> (if ps = [] then 0 else hi (last ps))"
    using snoc ord(1) by simp_all
  then have IH2: "card (positions ps) \<le> lo p"
    using last_in_order [OF snoc.prems(1)] by (cases "ps = []") (simp_all add: order.trans)
  have "card (positions ps) + unat (rg_length p) < 2 ^ 64"
    using IH2 snoc.prems(2) by (simp add: fits_def hi_def lo_def)
  then have "unat (\<Sum>q\<leftarrow>ps @ [p]. rg_length q) = card (positions ps) + unat (rg_length p)"
    using IH(1) by (simp add: unat_word_ariths)
  with card IH2 show ?case by (simp add: hi_def lo_def)
qed

text \<open>The merge of the bucket's parts joins overlapping ranges as well.\<close>

lemma push_union_spec:
  assumes "sorted (map lo (ps @ [p]))" "\<forall>r\<in>set (ps @ [p]). fits r"
    and "positions ms = positions ps" "with_gaps ms" "\<forall>r\<in>set ms. fits r \<and> lo r \<in> lo ` set ps \<and> hi r \<in> hi ` set ps"
  shows "positions (push_union ms p) = positions (ps @ [p]) \<and> with_gaps (push_union ms p)
         \<and> (\<forall>r\<in>set (push_union ms p). fits r \<and> lo r \<in> lo ` set (ps @ [p]) \<and> hi r \<in> hi ` set (ps @ [p]))"
proof (cases "ms \<noteq> [] \<and> rg_offset p \<le> rg_offset (last ms) + rg_length (last ms)")
  case True
  define l where "l = last ms"
  define e where "e = max (rg_offset l + rg_length l) (rg_offset p + rg_length p)"
  define l' where "l' = l\<lparr>rg_length := e - rg_offset l\<rparr>"
  have ms: "ms = butlast ms @ [l]" using True by (simp add: l_def)
  have l: "fits l" "lo l \<in> lo ` set ps" "hi l \<in> hi ` set ps" using assms(5) True by (auto simp: l_def)
  have p: "fits p" using assms(2) by simp
  have ord: "lo l \<le> lo p" using l(2) assms(1) by (auto simp: sorted_append)
  have e: "unat e = max (hi l) (hi p)" using l p by (simp add: e_def unat_max unat_end)
  have "rg_offset l \<le> e" using e lo_le_hi [of l] by (simp add: word_le_nat_alt lo_def)
  then have l': "lo l' = lo l" "hi l' = max (hi l) (hi p)"
    using e by (simp_all add: l'_def lo_def hi_def unat_diff word_le_nat_alt)
  have lp: "lo p \<le> hi l" using True l by (simp add: l_def word_le_nat_alt unat_end lo_def)
  have split: "with_gaps (butlast ms)" "\<forall>m\<in>set (butlast ms). hi m < lo l"
    using with_gaps_butlast_last [OF assms(4)] True by (simp_all add: l_def)
  have "positions ms = positions (butlast ms) \<union> {lo l ..< hi l}" by (subst ms) simp
  moreover have "{lo l ..< hi l} \<union> {lo p ..< hi p} = {lo l ..< max (hi l) (hi p)}"
    using lp ord lo_le_hi [of p] by auto
  ultimately have "positions (butlast ms @ [l']) = positions (ps @ [p])"
    using assms(3) l' by (simp add: Un_assoc)
  moreover have "with_gaps (butlast ms @ [l'])" using split l' by (simp add: with_gaps_def sorted_wrt_append)
  moreover have "fits l'" "lo l' \<in> lo ` set (ps @ [p])" "hi l' \<in> hi ` set (ps @ [p])"
    using l p l' by (auto simp: fits_def max_def)
  moreover have "push_union ms p = butlast ms @ [l']"
    using True by (simp add: push_union_def Let_def l_def l'_def e_def)
  ultimately show ?thesis using assms(5) by (auto dest: in_set_butlastD)
next
  case False
  have p: "fits p" using assms(2) by simp
  have "\<forall>m\<in>set ms. hi m < lo p"
  proof (cases "ms = []")
    case True
    then show ?thesis by simp
  next
    case nonempty: False
    then have "fits (last ms)" using assms(5) by auto
    with False nonempty have last: "hi (last ms) < lo p" by (simp add: word_le_nat_alt unat_end lo_def not_le)
    have "\<forall>m\<in>set (butlast ms). hi m < lo (last ms)" using with_gaps_butlast_last [OF assms(4) nonempty] by simp
    then have "\<forall>m\<in>set (butlast ms @ [last ms]). hi m < lo p"
      using last lo_le_hi [of "last ms"] by (auto intro: less_trans le_less_trans)
    then show ?thesis using nonempty by simp
  qed
  then have "with_gaps (ms @ [p])" using assms(4) by (simp add: with_gaps_def sorted_wrt_append)
  moreover have "push_union ms p = ms @ [p]" unfolding push_union_def using False by (rule if_not_P)
  ultimately show ?thesis using assms(3,5) p by auto
qed

lemma union_spec:
  assumes "sorted (map lo rs)" "\<forall>r\<in>set rs. fits r"
  shows "positions (foldl push_union [] rs) = positions rs \<and> with_gaps (foldl push_union [] rs)
         \<and> (\<forall>r\<in>set (foldl push_union [] rs). fits r \<and> lo r \<in> lo ` set rs \<and> hi r \<in> hi ` set rs)"
  using assms
proof (induction rs rule: rev_induct)
  case Nil
  then show ?case by (simp add: with_gaps_def)
next
  case (snoc p ps)
  then have "sorted (map lo ps)" "\<forall>r\<in>set ps. fits r" by (simp_all add: sorted_append)
  then have IH: "positions (foldl push_union [] ps) = positions ps" "with_gaps (foldl push_union [] ps)"
      "\<forall>r\<in>set (foldl push_union [] ps). fits r \<and> lo r \<in> lo ` set ps \<and> hi r \<in> hi ` set ps"
    using snoc.IH by blast+
  show ?case using push_union_spec [OF snoc.prems IH] by simp
qed

section \<open>Part geometry\<close>

definition ceil_div :: "nat \<Rightarrow> nat \<Rightarrow> nat" where
  "ceil_div a b = (if a mod b = 0 then a div b else a div b + 1)"

lemma ceil_div_bounds:
  assumes "0 < b" "0 < a"
  shows "1 \<le> ceil_div a b" "(ceil_div a b - 1) * b < a" "a \<le> ceil_div a b * b"
proof -
  obtain q r where qr: "a = q * b + r" "r < b" "a div b = q" "a mod b = r"
    using assms by (metis div_mult_mod_eq mod_less_divisor)
  have c: "ceil_div a b = (if r = 0 then q else q + 1)" by (simp only: ceil_div_def qr(3,4))
  show "1 \<le> ceil_div a b" "(ceil_div a b - 1) * b < a" "a \<le> ceil_div a b * b"
    unfolding c using qr(1,2) assms(2) by (cases q; simp)+
qed

lemma ceil_div_le_iff:
  assumes "0 < b" "0 < a"
  shows "ceil_div a b \<le> n \<longleftrightarrow> a \<le> n * b"
proof
  assume "ceil_div a b \<le> n"
  then have "ceil_div a b * b \<le> n * b" by (rule mult_le_mono1)
  with ceil_div_bounds(3) [OF assms] show "a \<le> n * b" by (rule order.trans)
next
  assume "a \<le> n * b"
  with ceil_div_bounds(2) [OF assms] have "(ceil_div a b - 1) * b < n * b" by (rule less_le_trans)
  then show "ceil_div a b \<le> n" by (simp add: less_diff_conv2 ceil_div_bounds(1) [OF assms, simplified])
qed

lemma unat_div_ceil:
  assumes "b \<noteq> 0"
  shows "unat (div_ceil a b) = ceil_div (unat a) (unat b)"
proof (cases "a mod b = 0")
  case True
  then show ?thesis by (simp add: div_ceil_def ceil_div_def unat_div unat_mod word_unat_eq_iff)
next
  case False
  then have r: "unat a mod unat b \<noteq> 0" by (simp add: word_unat_eq_iff unat_mod)
  then have "1 < unat b" using assms by (cases "unat b = 1") (auto simp: word_unat_eq_iff intro: Suc_lessI)
  then have "unat a div unat b < unat a \<or> unat a = 0" by (auto intro: div_less_dividend)
  then have "unat a div unat b + 1 < 2 ^ 64" using unat_u64_less [of a] r by auto
  then show ?thesis using False r by (simp add: div_ceil_def ceil_div_def unat_div unat_word_ariths)
qed

definition mib :: nat where "mib = 1048576"

lemma geometry_values:
  assumes "s3_part_geometry t = (ps, n)"
  shows "unat ps = min (max (ceil_div (max (8 * mib) (ceil_div (unat t) 10000)) mib * mib) (5 * mib)) (5120 * mib)"
    and "n = ucast (div_ceil t ps)"
proof -
  define c where "c = ceil_div (unat t) 10000"
  have c: "unat (div_ceil t 10000) = c" by (simp add: unat_div_ceil c_def)
  have "c \<le> unat t div 10000 + 1" by (simp add: c_def ceil_div_def)
  moreover have "unat t div 10000 \<le> 2 ^ 64 div 10000"
    using unat_u64_less [of t] by (intro div_le_mono) simp
  ultimately have c_le: "c \<le> 2 ^ 51" by simp
  define m where "m = ceil_div (max (8 * mib) c) mib"
  have "m * mib < max (8 * mib) c + mib"
    using ceil_div_bounds(2) [of mib "max (8 * mib) c"] ceil_div_bounds(1) [of mib "max (8 * mib) c"]
    by (cases m) (auto simp: m_def mib_def)
  then have m_le: "m * mib < 2 ^ 64" using c_le by (simp add: mib_def max_def split: if_splits)
  have "unat (div_ceil (max 8388608 (div_ceil t 10000)) 1048576) = m"
    by (simp add: unat_div_ceil unat_max c m_def mib_def)
  then have "unat (div_ceil (max 8388608 (div_ceil t 10000)) 1048576 * 1048576) = m * mib"
    using m_le by (simp add: unat_word_ariths mib_def)
  then show "unat ps = min (max (m * mib) (5 * mib)) (5120 * mib)"
    using assms by (auto simp: s3_part_geometry_def Let_def unat_max min_def word_le_nat_alt max_def mib_def)
  show "n = ucast (div_ceil t ps)" using assms by (auto simp: s3_part_geometry_def Let_def)
qed

text \<open>A geometry whose parts cover the file without an empty last part.\<close>

definition covers :: "u64 \<Rightarrow> u32 \<Rightarrow> u64 \<Rightarrow> bool" where
  "covers part_size total_parts total_size \<longleftrightarrow>
     0 < unat part_size \<and> 1 \<le> unat total_parts
     \<and> (unat total_parts - 1) * unat part_size < unat total_size
     \<and> unat total_size \<le> unat total_parts * unat part_size"

lemma geometry_bounds:
  assumes "s3_part_geometry t = (ps, n)" "t \<noteq> 0"
  shows "8 * mib \<le> unat ps" "unat ps \<le> 5120 * mib" "mib dvd unat ps" "covers ps n t"
    and "unat n \<le> 10000 \<longleftrightarrow> unat t \<le> 10000 * (5120 * mib)"
proof -
  define p1 where "p1 = max (8 * mib) (ceil_div (unat t) 10000)"
  define p2 where "p2 = ceil_div p1 mib * mib"
  have mib: "0 < mib" "mib = 1048576" by (simp_all add: mib_def)
  have t: "0 < unat t" using assms(2) by (simp add: unat_gt_0)
  have "p1 \<le> p2" using ceil_div_bounds(3) [of mib p1] mib by (simp add: p2_def p1_def)
  then have p2: "8 * mib \<le> p2" "ceil_div (unat t) 10000 \<le> p2" by (simp_all add: p1_def)
  have "unat ps = min (max p2 (5 * mib)) (5120 * mib)"
    using geometry_values(1) [OF assms(1)] by (simp add: p2_def p1_def)
  with p2 have ps: "unat ps = min p2 (5120 * mib)" by simp
  show lo: "8 * mib \<le> unat ps" and hi: "unat ps \<le> 5120 * mib" using ps p2 by simp_all
  show "mib dvd unat ps" by (simp add: ps min_def p2_def)
  have pos: "0 < unat ps" using lo mib by simp
  then have nz: "ps \<noteq> 0" by (simp add: unat_gt_0)
  have t_le: "unat t \<le> 10000 * p2"
    using ceil_div_bounds(3) [of 10000 "unat t"] t p2(2) by simp
  then have "unat t \<le> 4294967295 * unat ps"
    using unat_u64_less [of t] mib(2) by (simp add: ps min_def)
  then have "ceil_div (unat t) (unat ps) < 2 ^ 32" using ceil_div_le_iff [OF pos t, of 4294967295] by simp
  then have n: "unat n = ceil_div (unat t) (unat ps)"
    by (simp add: geometry_values(2) [OF assms(1)] unsigned_ucast_eq unat_div_ceil [OF nz] take_bit_nat_eq_self)
  show "covers ps n t" using ceil_div_bounds [OF pos t] pos by (simp add: covers_def n)
  have "unat n \<le> 10000 \<longleftrightarrow> unat t \<le> 10000 * unat ps" by (simp add: n ceil_div_le_iff [OF pos t])
  then show "unat n \<le> 10000 \<longleftrightarrow> unat t \<le> 10000 * (5120 * mib)"
    using t_le unfolding ps by (simp add: min_def)
qed

definition slot :: "u64 \<Rightarrow> u64 \<Rightarrow> nat \<Rightarrow> nat set" where
  "slot part_size total_size n = {(n - 1) * unat part_size ..< min (n * unat part_size) (unat total_size)}"

lemma last_part_size:
  assumes "0 < p" "1 \<le> n" "(n - 1) * p < t" "t \<le> n * p"
  shows "(if t mod p = 0 then p else t mod p) = t - (n - 1) * (p :: nat)"
proof -
  obtain k where n: "n = Suc k" using assms(2) by (cases n) auto
  define d where "d = t - k * p"
  have t: "t = d + k * p" "0 < d" "d \<le> p" using assms by (auto simp: n d_def)
  then have "t mod p = d mod p" by simp
  with t assms(1) show ?thesis by (cases "d = p") (auto simp: n)
qed

lemma check_geometry_iff:
  assumes "covers ps tp t"
  shows "is_ok (check_part_geometry n len tp ps t) \<longleftrightarrow>
           1 \<le> unat n \<and> unat n \<le> unat tp
           \<and> unat len = min (unat n * unat ps) (unat t) - (unat n - 1) * unat ps"
proof (cases "n = 0 \<or> tp < n")
  case True
  then show ?thesis by (auto simp: check_part_geometry_def word_less_nat_alt)
next
  case False
  then have n: "1 \<le> unat n" "unat n \<le> unat tp" "n \<noteq> 0"
    by (simp_all add: word_less_nat_alt not_less unat_gt_0 Suc_le_eq)
  define e where "e = (if n = tp then (if t mod ps = 0 then ps else t mod ps) else ps)"
  have "unat e = min (unat n * unat ps) (unat t) - (unat n - 1) * unat ps"
  proof (cases "n = tp")
    case True
    have "unat e = (if unat t mod unat ps = 0 then unat ps else unat t mod unat ps)"
      using True by (simp add: e_def unat_mod word_unat_eq_iff)
    also have "\<dots> = unat t - (unat n - 1) * unat ps"
      using last_part_size [of "unat ps" "unat tp" "unat t"] assms True by (simp add: covers_def)
    also have "unat t = min (unat n * unat ps) (unat t)" using assms True by (simp add: covers_def)
    finally show ?thesis .
  next
    case False
    then have "unat n \<noteq> unat tp" by (simp add: word_unat_eq_iff)
    with n have "unat n \<le> unat tp - 1" by simp
    then have "unat n * unat ps \<le> (unat tp - 1) * unat ps" by (rule mult_le_mono1)
    also have "\<dots> < unat t" using assms by (simp add: covers_def)
    finally have "unat n * unat ps \<le> unat t" by simp
    moreover have "unat n * unat ps = unat ps + (unat n - 1) * unat ps"
      using n(1) by (cases "unat n") auto
    ultimately show ?thesis using False by (simp add: e_def)
  qed
  moreover have "is_ok (check_part_geometry n len tp ps t) \<longleftrightarrow> len = e"
    using False by (simp add: check_part_geometry_def Let_def e_def)
  ultimately show ?thesis using n by (simp add: word_unat_eq_iff)
qed

lemma unat_ucast_u32: "unat (ucast (n :: u32) :: u64) = unat n"
proof -
  have "unat n < 2 ^ 32" using unsigned_less [where 'a = nat and w = n] by simp
  then show ?thesis by (simp add: unsigned_ucast_eq take_bit_nat_eq_self)
qed

lemma unat_part_offset:
  assumes "covers ps tp t" "1 \<le> unat n" "unat n \<le> unat tp"
  shows "unat (part_offset ps n) = (unat n - 1) * unat ps"
proof -
  have "(unat n - 1) * unat ps \<le> (unat tp - 1) * unat ps" using assms(3) by (intro mult_le_mono1) simp
  also have "\<dots> < unat t" using assms(1) by (simp add: covers_def)
  also have "\<dots> < 2 ^ 64" by (rule unat_u64_less)
  finally have "(unat n - 1) * unat ps < 2 ^ 64" .
  moreover have "unat (ucast n - 1 :: u64) = unat n - 1"
    using assms(2) unat_diff [of 1 "ucast n"] by (simp add: word_le_nat_alt unat_ucast_u32)
  ultimately show ?thesis by (simp add: part_offset_def unat_word_ariths)
qed

lemma missing_loop_nonempty: "r \<in> set (fst (missing_loop c rs)) \<Longrightarrow> lo r < hi r"
proof (induction rs arbitrary: c)
  case (Cons x rs)
  then show ?case
    by (auto simp: case_prod_beta Let_def word_less_nat_alt unat_diff word_le_nat_alt split: if_splits)
qed simp

lemma missing_complement_nonempty: "r \<in> set (missing_complement rs t) \<Longrightarrow> lo r < hi r"
  by (auto simp: missing_complement_def case_prod_beta Let_def word_less_nat_alt unat_diff word_le_nat_alt
      dest: missing_loop_nonempty split: if_splits)

lemma missing_complement_Nil: "missing_complement rs t = [] \<longleftrightarrow> positions (missing_complement rs t) = {}"
proof (cases "missing_complement rs t")
  case (Cons r ms)
  then have "lo r < hi r" using missing_complement_nonempty [of r rs t] by simp
  with Cons show ?thesis by auto
qed simp

text \<open>The ranges of the listed parts that pass the geometry check.\<close>

definition good_parts :: "listed_part list \<Rightarrow> u64 \<Rightarrow> u32 \<Rightarrow> u64 \<Rightarrow> nat set" where
  "good_parts parts ps tp t =
     {n. \<exists>p\<in>set parts. unat (lp_number p) = n \<and> is_ok (check_part_geometry (lp_number p) (lp_size p) tp ps t)}"

lemma good_parts_bounds: "covers ps tp t \<Longrightarrow> n \<in> good_parts parts ps tp t \<Longrightarrow> 1 \<le> n \<and> n \<le> unat tp"
  by (auto simp: good_parts_def check_geometry_iff)

lemma slot_hi: "n * p - (n - 1) * p = (p :: nat)" if "1 \<le> n" for n p
  using that by (cases n) auto

lemma part_range:
  assumes "covers ps tp t" "is_ok (check_part_geometry n len tp ps t)"
  shows "lo (rg (part_offset ps n) len) = (unat n - 1) * unat ps"
    and "hi (rg (part_offset ps n) len) = min (unat n * unat ps) (unat t)"
proof -
  have n: "1 \<le> unat n" "unat n \<le> unat tp"
      "unat len = min (unat n * unat ps) (unat t) - (unat n - 1) * unat ps"
    using assms(2) by (auto simp: check_geometry_iff [OF assms(1)])
  show lo: "lo (rg (part_offset ps n) len) = (unat n - 1) * unat ps"
    by (simp add: unat_part_offset [OF assms(1) n(1,2)])
  have "(unat n - 1) * unat ps \<le> (unat tp - 1) * unat ps" using n(2) by (intro mult_le_mono1) simp
  also have "\<dots> < unat t" using assms(1) by (simp add: covers_def)
  finally have "(unat n - 1) * unat ps \<le> min (unat n * unat ps) (unat t)" by simp
  then show "hi (rg (part_offset ps n) len) = min (unat n * unat ps) (unat t)"
    using lo n(3) by simp
qed

lemma ranges_from_parts_spec:
  assumes "covers ps tp t"
  shows "positions (ranges_from_parts parts ps tp t) = (\<Union>n\<in>good_parts parts ps tp t. slot ps t n)"
    and "with_gaps (ranges_from_parts parts ps tp t)"
    and "\<forall>r\<in>set (ranges_from_parts parts ps tp t). fits r \<and> hi r \<le> unat t"
proof -
  define good where "good = filter (\<lambda>p. is_ok (check_part_geometry (lp_number p) (lp_size p) tp ps t)) parts"
  define rs where "rs = sort_key rg_offset (map (\<lambda>p. rg (part_offset ps (lp_number p)) (lp_size p)) good)"
  have hi: "\<forall>r\<in>set rs. hi r \<le> unat t"
    by (auto simp: rs_def good_def simp del: lo_hi_rg dest!: part_range(2) [OF assms])
  then have fits: "\<forall>r\<in>set rs. fits r"
    using unat_u64_less [of t] by (auto simp: fits_def intro: le_less_trans)
  have "sorted (map rg_offset rs)" by (simp add: rs_def)
  then have sorted: "sorted (map lo rs)"
    by (simp add: sorted_map lo_def word_le_nat_alt)
  have eq: "ranges_from_parts parts ps tp t = foldl push_union [] rs"
    by (simp add: ranges_from_parts_def rs_def good_def)
  have "positions rs = (\<Union>p\<in>set good. slot ps t (unat (lp_number p)))"
    by (auto simp: positions_def rs_def good_def slot_def part_range [OF assms] simp del: lo_hi_rg)
  then show "positions (ranges_from_parts parts ps tp t) = (\<Union>n\<in>good_parts parts ps tp t. slot ps t n)"
    using union_spec [OF sorted fits] by (auto simp: eq good_parts_def good_def)
  show "with_gaps (ranges_from_parts parts ps tp t)" using union_spec [OF sorted fits] by (simp add: eq)
  show "\<forall>r\<in>set (ranges_from_parts parts ps tp t). fits r \<and> hi r \<le> unat t"
    using union_spec [OF sorted fits] hi by (fastforce simp: eq)
qed

lemma slots_cover:
  assumes "covers ps tp t" "N \<subseteq> {1 .. unat tp}"
  shows "{..< unat t} \<subseteq> (\<Union>n\<in>N. slot ps t n) \<longleftrightarrow> N = {1 .. unat tp}"
proof
  have ps: "0 < unat ps" using assms(1) by (simp add: covers_def)
  assume cov: "{..< unat t} \<subseteq> (\<Union>n\<in>N. slot ps t n)"
  have "m \<in> N" if m: "m \<in> {1 .. unat tp}" for m
  proof -
    have "(m - 1) * unat ps \<le> (unat tp - 1) * unat ps" using m by (intro mult_le_mono1) auto
    also have "\<dots> < unat t" using assms(1) by (simp add: covers_def)
    finally obtain n where n: "n \<in> N" "(n - 1) * unat ps \<le> (m - 1) * unat ps" "(m - 1) * unat ps < n * unat ps"
      using cov by (auto simp: slot_def subset_iff)
    then have "n - 1 \<le> m - 1" "m - 1 < n" using ps by auto
    then have "n = m" using m n(1) assms(2) by auto
    with n(1) show "m \<in> N" by simp
  qed
  with assms(2) show "N = {1 .. unat tp}" by blast
next
  have ps: "0 < unat ps" using assms(1) by (simp add: covers_def)
  assume N: "N = {1 .. unat tp}"
  show "{..< unat t} \<subseteq> (\<Union>n\<in>N. slot ps t n)"
  proof
    fix x assume "x \<in> {..< unat t}"
    then have x: "x < unat t" by simp
    have "x < unat tp * unat ps" using x assms(1) by (simp add: covers_def)
    then have "x div unat ps < unat tp" using ps by (simp add: less_mult_imp_div_less)
    moreover have "x < Suc (x div unat ps) * unat ps" using ps by (simp add: dividend_less_div_times)
    ultimately show "x \<in> (\<Union>n\<in>N. slot ps t n)"
      using x by (intro UN_I [of "Suc (x div unat ps)"]) (auto simp: N slot_def)
  qed
qed

end
