(* ===== verification/ChunkedUpload.thy ===== *)
theory ChunkedUpload
  imports UploadRanges Decimal ServerErrors
begin

unbundle bit_operations_syntax

text \<open>
  \<open>service/chunked_upload.rs\<close>: resumable upload sessions. A session is a directory with a
  manifest, a lock file, one file per received part named after its offset and length, the assembled
  body and a tombstone. The directory is a record of these files and the parts directory a map from
  file names to bytes, so that progress is read off the names exactly as in the source. Every system
  call of an operation may fail: the argument \<open>io\<close> says which of them succeed. The SHA-256 digest,
  from an external crate, is the argument \<open>sha\<close>, from bytes to the hexadecimal text.

  The lemmas show that the parts of a session never overlap, lie on the 64 KiB grid and inside the
  declared size, whatever calls fail or are cut short by a crash, and that assembling the parts of a
  file gives back the file in whatever order and with however many retries they arrived.
\<close>

section \<open>Constants and transports\<close>

definition UPLOAD_ID_HEX_LEN :: nat where "UPLOAD_ID_HEX_LEN = 32"
definition SECRET_HEX_LEN :: nat where "SECRET_HEX_LEN = 64"
definition TOKEN_TTL_SECS :: int where "TOKEN_TTL_SECS = 24 * 3600"
definition BASE_UNIT :: u64 where "BASE_UNIT = 64 * 1024"
definition MAX_CHUNK_BYTES :: nat where "MAX_CHUNK_BYTES = 8 * 1024 * 1024"

definition TRANSPORT_PROXY_OFFSET_V1 :: string where
  "TRANSPORT_PROXY_OFFSET_V1 = ''proxy_offset_v1''"

definition TRANSPORT_S3_MULTIPART_V1 :: string where
  "TRANSPORT_S3_MULTIPART_V1 = ''s3_multipart_v1''"

datatype transport_select_error = SetMissingProxy | ServerS3Only

record s3_direct_gate =
  gate_open :: bool

definition select_transport ::
  "string list option \<Rightarrow> s3_direct_gate \<Rightarrow> (string, transport_select_error) result" where
  "select_transport declared gate =
     (if gate_open gate
      then (case declared of
              Some l \<Rightarrow> if TRANSPORT_S3_MULTIPART_V1 \<in> set l then Ok TRANSPORT_S3_MULTIPART_V1 else Err ServerS3Only
            | None \<Rightarrow> Err ServerS3Only)
      else (case declared of
              None \<Rightarrow> Ok TRANSPORT_PROXY_OFFSET_V1
            | Some l \<Rightarrow> if TRANSPORT_PROXY_OFFSET_V1 \<notin> set l then Err SetMissingProxy
                        else Ok TRANSPORT_PROXY_OFFSET_V1))"

definition whole_file_allowed :: "s3_direct_gate \<Rightarrow> (unit, transport_select_error) result" where
  "whole_file_allowed gate = (if gate_open gate then Err ServerS3Only else Ok ())"

section \<open>Text helpers\<close>

definition is_space :: "char \<Rightarrow> bool" where
  "is_space ch \<longleftrightarrow> ch \<in> {CHR '' '', CHR 0x09, CHR 0x0A, CHR 0x0B, CHR 0x0C, CHR 0x0D}"

definition trim :: "string \<Rightarrow> string" where
  "trim s = rev (dropWhile is_space (rev (dropWhile is_space s)))"

definition ascii_lower_char :: "char \<Rightarrow> char" where
  "ascii_lower_char ch =
     (let n = of_char ch :: nat in if 65 \<le> n \<and> n \<le> 90 then char_of (n + 32) else ch)"

definition to_ascii_lowercase :: "string \<Rightarrow> string" where
  "to_ascii_lowercase s = map ascii_lower_char s"

definition eq_ignore_ascii_case :: "string \<Rightarrow> string \<Rightarrow> bool" where
  "eq_ignore_ascii_case s t \<longleftrightarrow> to_ascii_lowercase s = to_ascii_lowercase t"

definition is_ascii_hexdigit :: "char \<Rightarrow> bool" where
  "is_ascii_hexdigit ch \<longleftrightarrow>
     (let n = of_char ch :: nat in (48 \<le> n \<and> n \<le> 57) \<or> (65 \<le> n \<and> n \<le> 70) \<or> (97 \<le> n \<and> n \<le> 102))"

definition split_once :: "char \<Rightarrow> string \<Rightarrow> (string \<times> string) option" where
  "split_once ch s =
     (if ch \<in> set s then Some (takeWhile (\<lambda>x. x \<noteq> ch) s, tl (dropWhile (\<lambda>x. x \<noteq> ch) s)) else None)"

definition strip_suffix :: "string \<Rightarrow> string \<Rightarrow> string option" where
  "strip_suffix suf s = (if suffix suf s then Some (take (length s - length suf) s) else None)"

section \<open>Session directories\<close>

type_synonym bytes = "u8 list"

record manifest =
  mf_secret_sha256 :: string
  mf_uploader_id :: user_id
  mf_total_size :: u64
  mf_plaintext_sha256 :: string
  mf_plaintext_size :: u64
  mf_format_version :: u8
  mf_encryption_key_id :: u8
  mf_chunk_plain_size :: u32
  mf_file_type :: string
  mf_business_type :: string
  mf_filename :: string
  mf_mime_type :: string
  mf_expires_at :: int
  mf_reserved_file_id :: u64
  mf_transport :: string
  mf_part_size :: "u64 option"
  mf_total_parts :: "u32 option"
  mf_bucket :: "string option"
  mf_final_key :: "string option"
  mf_provider_upload_id :: "string option"
  mf_storage_source_id :: "u32 option"
  mf_created_at :: int
  mf_part_digests :: "(u32, string) fmap"

text \<open>A small JSON file: absent, present but unreadable as the expected type, or a value.\<close>

datatype 'a jfile = NoFile | Broken | Json 'a

record session_dir =
  sd_manifest :: "manifest jfile"
  sd_lock :: bool
  sd_parts :: "(string, bytes) fmap option"
  sd_body :: "bytes option"
  sd_completed :: "u64 jfile"

record s3_anchor =
  an_bucket :: string
  an_final_key :: string
  an_provider_upload_id :: string
  an_created_at :: int

record upload_root =
  ur_dirs :: "(string, session_dir) fmap"
  ur_anchors :: "(string, s3_anchor jfile) fmap"

record chunked_session =
  cs_upload_id :: string
  cs_manifest :: manifest

datatype part_outcome = Written | AlreadyPresent

datatype chunk_error = OutOfRange | NotAligned | Digest | Overlap | ChunkIo server_error

datatype assemble_error = Missing "range list" | AsmOverlap | AsmIo server_error

datatype open_error = Malformed | Gone | BadSecret | Expired | OpenIo server_error

text \<open>\<open>read_json\<close>: a missing file is no value, an unreadable one an error.\<close>

definition read_json :: "bool \<Rightarrow> 'a jfile \<Rightarrow> ('a option, server_error) result" where
  "read_json up f =
     (case f of NoFile \<Rightarrow> if up then Ok None else Err (Internal [])
      | Broken \<Rightarrow> Err (Internal [])
      | Json a \<Rightarrow> if up then Ok (Some a) else Err (Internal []))"

definition parse_token :: "string \<Rightarrow> (string \<times> string) option" where
  "parse_token raw =
     (case split_once (CHR ''.'') (trim raw) of
        None \<Rightarrow> None
      | Some (i, secret) \<Rightarrow>
          if length i = UPLOAD_ID_HEX_LEN \<and> list_all is_ascii_hexdigit i
             \<and> length secret = SECRET_HEX_LEN \<and> list_all is_ascii_hexdigit secret
          then Some (i, secret) else None)"

definition looks_like_chunked_token :: "string \<Rightarrow> bool" where
  "looks_like_chunked_token raw \<longleftrightarrow> parse_token raw \<noteq> None"

record s3_setup =
  st_part_size :: u64
  st_total_parts :: u32
  st_bucket :: string
  st_final_key :: string
  st_provider_upload_id :: string
  st_storage_source_id :: u32

record new_session =
  ns_uploader_id :: user_id
  ns_plaintext_sha256 :: string
  ns_plaintext_size :: u64
  ns_format_version :: u8
  ns_encryption_key_id :: u8
  ns_chunk_plain_size :: u32
  ns_total_size :: u64
  ns_file_type :: string
  ns_business_type :: string
  ns_filename :: string
  ns_mime_type :: string
  ns_reserved_file_id :: u64
  ns_transport :: string
  ns_s3 :: "s3_setup option"

text \<open>\<open>write_json_atomic\<close>: \<open>up\<close> covers everything up to the rename, \<open>synced\<close> the
  directory sync after it, whose failure is reported although the new file is in place.\<close>

definition write_json_atomic ::
  "bool \<Rightarrow> bool \<Rightarrow> 'a \<Rightarrow> 'a jfile \<Rightarrow> 'a jfile \<times> (unit, server_error) result" where
  "write_json_atomic up synced v old =
     (if \<not> up then (old, Err (Internal []))
      else (Json v, if synced then Ok () else Err (Internal [])))"

definition as_bytes :: "string \<Rightarrow> bytes" where
  "as_bytes s = map (\<lambda>ch. of_nat (of_char ch)) s"

definition constant_time_eq :: "bytes \<Rightarrow> bytes \<Rightarrow> bool" where
  "constant_time_eq a b \<longleftrightarrow>
     length a = length b \<and> fold (\<lambda>(x, y) diff. diff OR (x XOR y)) (zip a b) 0 = (0 :: u8)"

definition manifest_of :: "(bytes \<Rightarrow> string) \<Rightarrow> int \<Rightarrow> string \<Rightarrow> new_session \<Rightarrow> manifest" where
  "manifest_of sha now secret input =
     \<lparr>mf_secret_sha256 = sha (as_bytes secret), mf_uploader_id = ns_uploader_id input,
      mf_total_size = ns_total_size input, mf_plaintext_sha256 = to_ascii_lowercase (ns_plaintext_sha256 input),
      mf_plaintext_size = ns_plaintext_size input, mf_format_version = ns_format_version input,
      mf_encryption_key_id = ns_encryption_key_id input, mf_chunk_plain_size = ns_chunk_plain_size input,
      mf_file_type = ns_file_type input, mf_business_type = ns_business_type input,
      mf_filename = ns_filename input, mf_mime_type = ns_mime_type input,
      mf_expires_at = now + TOKEN_TTL_SECS, mf_reserved_file_id = ns_reserved_file_id input,
      mf_transport = ns_transport input,
      mf_part_size = map_option st_part_size (ns_s3 input), mf_total_parts = map_option st_total_parts (ns_s3 input),
      mf_bucket = map_option st_bucket (ns_s3 input), mf_final_key = map_option st_final_key (ns_s3 input),
      mf_provider_upload_id = map_option st_provider_upload_id (ns_s3 input),
      mf_storage_source_id = map_option st_storage_source_id (ns_s3 input),
      mf_created_at = now, mf_part_digests = fmempty\<rparr>"

text \<open>\<open>ChunkedSession::create_with_ids\<close>, one flag per system call in the order of the code; the
  root directory exists after the first. A call that fails leaves what the earlier ones made.\<close>

definition create_with_ids ::
  "(nat \<Rightarrow> bool) \<Rightarrow> (bytes \<Rightarrow> string) \<Rightarrow> int \<Rightarrow> string \<times> string \<Rightarrow> new_session \<Rightarrow> upload_root
     \<Rightarrow> upload_root \<times> (chunked_session \<times> string \<times> int, server_error) result" where
  "create_with_ids io sha now ids input root =
     (let (upload_id, secret) = ids;
          put = (\<lambda>d. root\<lparr>ur_dirs := fmupd upload_id d (ur_dirs root)\<rparr>);
          d0 = \<lparr>sd_manifest = NoFile, sd_lock = False, sd_parts = None, sd_body = None, sd_completed = NoFile\<rparr>;
          d1 = d0\<lparr>sd_parts := Some fmempty\<rparr>;
          d2 = d1\<lparr>sd_lock := True\<rparr>;
          m = manifest_of sha now secret input;
          (mf, written) = write_json_atomic (io 4) (io 5) m NoFile;
          d3 = d2\<lparr>sd_manifest := mf\<rparr>
      in if \<not> io 0 \<or> upload_id \<in> fset (fmdom (ur_dirs root)) \<or> \<not> io 1 then (root, Err (Internal []))
         else if \<not> io 2 then (put d0, Err (Internal []))
         else if \<not> io 3 then (put d1, Err (Internal []))
         else (case written of
                 Err e \<Rightarrow> (put d3, Err e)
               | Ok _ \<Rightarrow>
                   if \<not> io 6 then (put d3, Err (Internal []))
                   else (put d3, Ok (\<lparr>cs_upload_id = upload_id, cs_manifest = m\<rparr>,
                                     upload_id @ ''.'' @ secret, mf_expires_at m))))"

definition open_chunked ::
  "bool \<Rightarrow> (bytes \<Rightarrow> string) \<Rightarrow> int \<Rightarrow> upload_root \<Rightarrow> string \<Rightarrow> (chunked_session, open_error) result" where
  "open_chunked up sha now root raw_token =
     (case parse_token raw_token of
        None \<Rightarrow> Err Malformed
      | Some (upload_id, secret) \<Rightarrow>
          (case fmlookup (ur_dirs root) upload_id of
             None \<Rightarrow> Err Gone
           | Some d \<Rightarrow>
               (case read_json up (sd_manifest d) of
                  Err e \<Rightarrow> Err (OpenIo e)
                | Ok None \<Rightarrow> Err Gone
                | Ok (Some m) \<Rightarrow>
                    if \<not> constant_time_eq (as_bytes (sha (as_bytes secret))) (as_bytes (mf_secret_sha256 m))
                    then Err BadSecret
                    else if mf_expires_at m < now then Err Expired
                    else Ok \<lparr>cs_upload_id = upload_id, cs_manifest = m\<rparr>)))"

text \<open>\<open>try_lock\<close>: \<open>None\<close> when another request holds the lock.\<close>

definition try_lock :: "bool \<Rightarrow> bool \<Rightarrow> session_dir \<Rightarrow> (unit option, server_error) result" where
  "try_lock up busy d =
     (if \<not> sd_lock d \<or> \<not> up then Err (Internal []) else Ok (if busy then None else Some ()))"

definition completed_file_id :: "bool \<Rightarrow> session_dir \<Rightarrow> (u64 option, server_error) result" where
  "completed_file_id up d = read_json up (sd_completed d)"

definition write_completed ::
  "bool \<Rightarrow> bool \<Rightarrow> u64 \<Rightarrow> session_dir \<Rightarrow> session_dir \<times> (unit, server_error) result" where
  "write_completed up synced file_id d =
     (let (f, r) = write_json_atomic up synced file_id (sd_completed d) in (d\<lparr>sd_completed := f\<rparr>, r))"

definition record_part_digests ::
  "bool \<Rightarrow> bool \<Rightarrow> (u32 \<times> string) list \<Rightarrow> manifest \<Rightarrow> session_dir \<Rightarrow> session_dir \<times> (unit, server_error) result" where
  "record_part_digests up synced decls m d =
     (let m' = m\<lparr>mf_part_digests := fold (\<lambda>(n, b64) ds. fmupd n b64 ds) decls (mf_part_digests m)\<rparr>;
          (f, r) = write_json_atomic up synced m' (sd_manifest d)
      in (d\<lparr>sd_manifest := f\<rparr>, r))"

text \<open>\<open>drop_payload\<close> ignores failures; the flags say which of the two removals happened.\<close>

definition drop_payload :: "bool \<Rightarrow> bool \<Rightarrow> session_dir \<Rightarrow> session_dir" where
  "drop_payload rm_parts rm_body d =
     d\<lparr>sd_parts := (if rm_parts then None else sd_parts d), sd_body := (if rm_body then None else sd_body d)\<rparr>"

section \<open>Parts\<close>

definition part_name :: "u64 \<Rightarrow> u64 \<Rightarrow> string" where
  "part_name offset len = to_string_u64 offset @ ''-'' @ to_string_u64 len @ ''.part''"

definition tmp_name :: "u64 \<Rightarrow> u64 \<Rightarrow> string" where
  "tmp_name offset len = ''.'' @ to_string_u64 offset @ ''-'' @ to_string_u64 len @ ''.tmp''"

definition parse_part_name :: "string \<Rightarrow> range option" where
  "parse_part_name name =
     (case strip_suffix ''.part'' name of
        None \<Rightarrow> None
      | Some stem \<Rightarrow>
          (case split_once (CHR ''-'') stem of
             None \<Rightarrow> None
           | Some (off, len) \<Rightarrow>
               (case (parse_u64 off, parse_u64 len) of
                  (Some p, Some n) \<Rightarrow> Some (rg p n)
                | _ \<Rightarrow> None)))"

definition scan_parts :: "bool \<Rightarrow> session_dir \<Rightarrow> (range list, server_error) result" where
  "scan_parts up d =
     (case sd_parts d of
        None \<Rightarrow> if up then Ok [] else Err (Internal [])
      | Some ps \<Rightarrow>
          if up then Ok (sort_key rg_offset (List.map_filter parse_part_name (map fst (fm_entries ps))))
          else Err (Internal []))"

definition session_status ::
  "bool \<Rightarrow> manifest \<Rightarrow> session_dir \<Rightarrow> (range list \<times> range list \<times> u64, server_error) result" where
  "session_status up m d =
     (case scan_parts up d of Err e \<Rightarrow> Err e | Ok parts \<Rightarrow> Ok (status_of (mf_total_size m) parts))"

text \<open>The system calls of \<open>write_part\<close> and \<open>assemble\<close>: which succeed, and how many bytes a
  failing write got to the file.\<close>

datatype disk_op = IoScan | IoRescan | IoReread | IoCreate | IoWrite | IoSync | IoRename | IoSyncDir | IoCleanup

record disk =
  dk_up :: "disk_op \<Rightarrow> bool"
  dk_written :: nat

definition disk_ok :: disk where
  "disk_ok = \<lparr>dk_up = (\<lambda>_. True), dk_written = 0\<rparr>"

text \<open>The loop over the existing parts: an identical range is compared by digest, an overlapping one
  refused. \<open>None\<close> means that no part stands in the way.\<close>

fun check_existing ::
  "bool \<Rightarrow> (bytes \<Rightarrow> string) \<Rightarrow> bytes option \<Rightarrow> string \<Rightarrow> u64 \<Rightarrow> u64 \<Rightarrow> u64 \<Rightarrow> range list
     \<Rightarrow> (part_outcome, chunk_error) result option" where
  "check_existing up sha target actual offset len stop [] = None"
| "check_existing up sha target actual offset len stop (p # ps) =
     (let p_end = rg_offset p + rg_length p;
          same = (rg_offset p = offset \<and> rg_length p = len);
          overlaps = (rg_offset p < stop \<and> offset < p_end)
      in if same
         then (case target of
                 None \<Rightarrow> Some (Err (ChunkIo (Internal [])))
               | Some content \<Rightarrow>
                   if \<not> up then Some (Err (ChunkIo (Internal [])))
                   else if sha content = actual then Some (Ok AlreadyPresent) else Some (Err Overlap))
         else if overlaps then Some (Err Overlap)
         else check_existing up sha target actual offset len stop ps)"

text \<open>The closure that creates, writes, syncs and renames the temporary file, with the clean-up of
  its error path. A temporary file left by a crash makes the exclusive create fail and is removed.\<close>

definition store_part ::
  "disk \<Rightarrow> string \<Rightarrow> string \<Rightarrow> bytes \<Rightarrow> (string, bytes) fmap \<Rightarrow> (string, bytes) fmap \<times> bool" where
  "store_part io tmp target content ps =
     (let cleaned = (\<lambda>q. if dk_up io IoCleanup then fmdrop tmp q else q)
      in if tmp \<in> fset (fmdom ps) \<or> \<not> dk_up io IoCreate then (cleaned ps, False)
         else if \<not> dk_up io IoWrite then (cleaned (fmupd tmp (take (dk_written io) content) ps), False)
         else if \<not> dk_up io IoSync \<or> \<not> dk_up io IoRename then (cleaned (fmupd tmp content ps), False)
         else (fmupd target content ps, dk_up io IoSyncDir))"

text \<open>The checks of \<open>write_part\<close> before it touches the disk; the result is the end of the range.\<close>

definition check_part_request ::
  "(bytes \<Rightarrow> string) \<Rightarrow> u64 \<Rightarrow> u64 \<Rightarrow> bytes \<Rightarrow> string \<Rightarrow> (u64, chunk_error) result" where
  "check_part_request sha total_size offset content declared_sha256 =
     (let len = of_nat (length content)
      in if len = 0 then Err OutOfRange
         else (case checked_add offset len of
                 None \<Rightarrow> Err OutOfRange
               | Some stop \<Rightarrow>
                   if total_size < stop then Err OutOfRange
                   else if offset mod BASE_UNIT \<noteq> 0 \<or> (stop \<noteq> total_size \<and> len mod BASE_UNIT \<noteq> 0)
                   then Err NotAligned
                   else if to_ascii_lowercase (trim declared_sha256) \<noteq> sha content then Err Digest
                   else Ok stop))"

definition write_part ::
  "disk \<Rightarrow> (bytes \<Rightarrow> string) \<Rightarrow> manifest \<Rightarrow> session_dir \<Rightarrow> u64 \<Rightarrow> bytes \<Rightarrow> string
     \<Rightarrow> session_dir \<times> (part_outcome, chunk_error) result" where
  "write_part io sha m d offset content declared_sha256 =
     (case check_part_request sha (mf_total_size m) offset content declared_sha256 of
        Err e \<Rightarrow> (d, Err e)
      | Ok stop \<Rightarrow>
          (case scan_parts (dk_up io IoScan) d of
             Err e \<Rightarrow> (d, Err (ChunkIo e))
           | Ok parts \<Rightarrow>
               let len = of_nat (length content);
                   target = part_name offset len;
                   stored = (case sd_parts d of None \<Rightarrow> None | Some ps \<Rightarrow> fmlookup ps target)
               in (case check_existing (dk_up io IoReread) sha stored (sha content) offset len stop parts of
                     Some r \<Rightarrow> (d, r)
                   | None \<Rightarrow>
                       (case sd_parts d of
                          None \<Rightarrow> (d, Err (ChunkIo (Internal [])))
                        | Some ps \<Rightarrow>
                            let (ps', ok) = store_part io (tmp_name offset len) target content ps
                            in (d\<lparr>sd_parts := Some ps'\<rparr>,
                                if ok then Ok Written else Err (ChunkIo (Internal [])))))))"

text \<open>Reading the parts in order: the bytes up to the first part file that cannot be opened, and
  whether all could.\<close>

fun read_parts :: "(string, bytes) fmap \<Rightarrow> range list \<Rightarrow> bytes \<times> bool" where
  "read_parts ps [] = ([], True)"
| "read_parts ps (p # rs) =
     (case fmlookup ps (part_name (rg_offset p) (rg_length p)) of
        None \<Rightarrow> ([], False)
      | Some content \<Rightarrow> let (rest, ok) = read_parts ps rs in (content @ rest, ok))"

definition assemble ::
  "disk \<Rightarrow> (bytes \<Rightarrow> string) \<Rightarrow> manifest \<Rightarrow> session_dir
     \<Rightarrow> session_dir \<times> (u64 \<times> string, assemble_error) result" where
  "assemble io sha m d =
     (case session_status (dk_up io IoScan) m d of
        Err e \<Rightarrow> (d, Err (AsmIo e))
      | Ok (received, missing, _) \<Rightarrow>
          if missing \<noteq> [] then (d, Err (Missing missing))
          else let total_size = mf_total_size m
               in if length received \<noteq> 1 \<or> rg_offset (received ! 0) \<noteq> 0 \<or> rg_length (received ! 0) \<noteq> total_size
                  then (d, Err AsmOverlap)
                  else (case scan_parts (dk_up io IoRescan) d of
                          Err e \<Rightarrow> (d, Err (AsmIo e))
                        | Ok parts \<Rightarrow>
                            let (body, all_read) = read_parts (case sd_parts d of Some ps \<Rightarrow> ps | None \<Rightarrow> fmempty) parts;
                                partial = (if dk_up io IoCreate then Some (take (dk_written io) body) else sd_body d)
                            in if all_read \<and> dk_up io IoCreate \<and> dk_up io IoWrite \<and> dk_up io IoSync
                               then (d\<lparr>sd_body := Some body\<rparr>, Ok (total_size, sha body))
                               else (d\<lparr>sd_body := (if dk_up io IoCleanup then None else partial)\<rparr>,
                                     Err (AsmIo (Internal [])))))"

definition discard :: "bool \<Rightarrow> string \<Rightarrow> upload_root \<Rightarrow> upload_root \<times> (unit, server_error) result" where
  "discard up upload_id root =
     (if up \<and> upload_id \<in> fset (fmdom (ur_dirs root))
      then (root\<lparr>ur_dirs := fmdrop upload_id (ur_dirs root)\<rparr>, Ok ()) else (root, Err (Internal [])))"

section \<open>Expiry\<close>

text \<open>What the sweeper meets: \<open>se_listed\<close> that the root could be listed, \<open>se_read\<close> that a
  manifest could be read, \<open>se_free\<close> that the lock of a directory could be taken, \<open>se_removed\<close>
  that its removal succeeds.\<close>

record sweep_env =
  se_listed :: bool
  se_read :: "string \<Rightarrow> bool"
  se_free :: "string \<Rightarrow> bool"
  se_removed :: "string \<Rightarrow> bool"

definition sweep_one :: "sweep_env \<Rightarrow> int \<Rightarrow> string \<Rightarrow> upload_root \<times> nat \<Rightarrow> upload_root \<times> nat" where
  "sweep_one env now i acc =
     (case acc of (root, removed) \<Rightarrow>
        (case fmlookup (ur_dirs root) i of
           None \<Rightarrow> acc
         | Some d \<Rightarrow>
             let mf = read_json (se_read env i) (sd_manifest d);
                 expired = (case mf of Ok (Some m) \<Rightarrow> mf_expires_at m < now | _ \<Rightarrow> True);
                 s3 = (case mf of Ok (Some m) \<Rightarrow> mf_transport m = TRANSPORT_S3_MULTIPART_V1 | _ \<Rightarrow> False);
                 held = (if sd_lock d then se_free env i else True)
             in if expired \<and> \<not> s3 \<and> held \<and> se_removed env i
                then (root\<lparr>ur_dirs := fmdrop i (ur_dirs root)\<rparr>, removed + 1) else acc))"

definition sweep_expired :: "sweep_env \<Rightarrow> int \<Rightarrow> upload_root \<Rightarrow> upload_root \<times> nat" where
  "sweep_expired env now root =
     (if se_listed env then fold (sweep_one env now) (map fst (fm_entries (ur_dirs root))) (root, 0)
      else (root, 0))"

section \<open>Names of part files\<close>

lemma digit_char_neq: "d < 10 \<Longrightarrow> char_digit ch = None \<Longrightarrow> digit_char d \<noteq> ch"
  using char_digit_digit_char [of d] by auto

lemma show_nat_digits: "ch \<in> set (show_nat n) \<Longrightarrow> char_digit ch \<noteq> None"
proof (induction n rule: show_nat.induct)
  case (1 n)
  then show ?case by (cases "n < 10") (auto simp: show_nat.simps [of n])
qed

lemma to_string_no_dash [simp]: "CHR ''-'' \<notin> set (to_string_u64 n)"
proof
  assume "CHR ''-'' \<in> set (to_string_u64 n)"
  then have "char_digit (CHR ''-'') \<noteq> None" unfolding to_string_u64_def by (rule show_nat_digits)
  then show False by (simp add: char_digit_def)
qed

lemma split_once_first: "ch \<notin> set xs \<Longrightarrow> split_once ch (xs @ ch # ys) = Some (xs, ys)"
  by (auto simp: split_once_def takeWhile_append dropWhile_append takeWhile_eq_all_conv [THEN iffD2])

lemma parse_part_name [simp]: "parse_part_name (part_name p n) = Some (rg p n)"
proof -
  have "strip_suffix ''.part'' (part_name p n) = Some (to_string_u64 p @ CHR ''-'' # to_string_u64 n)"
    by (simp add: part_name_def strip_suffix_def suffix_def)
  then show ?thesis
    by (simp add: parse_part_name_def split_once_first parse_to_string)
qed

lemma parse_tmp_name [simp]: "parse_part_name (tmp_name p n) = None"
proof -
  have "\<not> suffix ''.part'' (tmp_name p n)"
  proof
    assume "suffix ''.part'' (tmp_name p n)"
    then obtain zs where "tmp_name p n = zs @ ''.part''" by (auto simp: suffix_def)
    then have "last (tmp_name p n) = CHR ''t''" by simp
    then show False by (simp add: tmp_name_def)
  qed
  then show ?thesis by (simp add: parse_part_name_def strip_suffix_def)
qed

lemma part_name_inject [simp]: "part_name p n = part_name q k \<longleftrightarrow> p = q \<and> n = k"
proof
  assume "part_name p n = part_name q k"
  then have "parse_part_name (part_name p n) = parse_part_name (part_name q k)" by simp
  then show "p = q \<and> n = k" by simp
qed simp

lemma part_name_neq_tmp [simp]: "part_name p n \<noteq> tmp_name q k" "tmp_name q k \<noteq> part_name p n"
  by (metis option.distinct(1) parse_part_name parse_tmp_name)+

section \<open>The parts of a session never overlap\<close>

text \<open>\<open>P\<close> is what is known about the content of every stored part; names that are not part names
  (temporary files) may hold anything.\<close>

definition on_grid :: "u64 \<Rightarrow> range \<Rightarrow> bool" where
  "on_grid total_size r \<longleftrightarrow>
     0 < unat (rg_length r) \<and> hi r \<le> unat total_size
     \<and> rg_offset r mod BASE_UNIT = 0 \<and> (hi r = unat total_size \<or> rg_length r mod BASE_UNIT = 0)"

definition part_at :: "(string, bytes) fmap \<Rightarrow> range \<Rightarrow> bytes \<Rightarrow> bool" where
  "part_at ps r content \<longleftrightarrow> (\<exists>name. fmlookup ps name = Some content \<and> parse_part_name name = Some r)"

definition parts_inv :: "(range \<Rightarrow> bytes \<Rightarrow> bool) \<Rightarrow> u64 \<Rightarrow> (string, bytes) fmap \<Rightarrow> bool" where
  "parts_inv P total_size ps \<longleftrightarrow>
     (\<forall>name content r. fmlookup ps name = Some content \<longrightarrow> parse_part_name name = Some r \<longrightarrow>
        name = part_name (rg_offset r) (rg_length r) \<and> on_grid total_size r \<and> P r content)
     \<and> (\<forall>r content r' content'. part_at ps r content \<longrightarrow> part_at ps r' content' \<longrightarrow> r \<noteq> r' \<longrightarrow> hi r \<le> lo r' \<or> hi r' \<le> lo r)"

definition part_ranges :: "(string, bytes) fmap \<Rightarrow> range list" where
  "part_ranges ps = sort_key rg_offset (List.map_filter parse_part_name (map fst (fm_entries ps)))"

lemma set_part_ranges: "set (part_ranges ps) = {r. \<exists>content. part_at ps r content}"
proof -
  have "set (map fst (fm_entries ps)) = {name. \<exists>content. fmlookup ps name = Some content}"
    by (force simp: set_fm_entries)
  then show ?thesis by (auto simp: part_ranges_def part_at_def set_map_filter)
qed

lemma part_atD:
  assumes "parts_inv P t ps" "part_at ps r content"
  shows "fmlookup ps (part_name (rg_offset r) (rg_length r)) = Some content" "on_grid t r" "P r content"
  using assms unfolding parts_inv_def part_at_def by blast+

lemma part_at_fun:
  assumes "parts_inv P t ps" "part_at ps r content" "part_at ps r content'"
  shows "content = content'"
  using part_atD(1) [OF assms(1,2)] part_atD(1) [OF assms(1,3)] by simp

lemma on_grid_fits: "on_grid t r \<Longrightarrow> fits r"
  using unat_u64_less [of t] by (auto simp: on_grid_def fits_def)

lemma distinct_map_filter:
  assumes "distinct xs" "\<And>x y z. x \<in> set xs \<Longrightarrow> y \<in> set xs \<Longrightarrow> f x = Some z \<Longrightarrow> f y = Some z \<Longrightarrow> x = y"
  shows "distinct (List.map_filter f xs)"
  using assms
proof (induction xs)
  case (Cons x xs)
  then have "distinct (List.map_filter f xs)" by simp
  moreover have "\<forall>z. f x = Some z \<longrightarrow> z \<notin> set (List.map_filter f xs)"
    using Cons.prems by (auto simp: set_map_filter)
  ultimately show ?case by (auto split: option.splits)
qed simp

lemma part_ranges_in_order:
  assumes "parts_inv P t ps"
  shows "in_order (part_ranges ps)" "\<forall>r\<in>set (part_ranges ps). on_grid t r"
proof -
  let ?xs = "part_ranges ps"
  show grid: "\<forall>r\<in>set ?xs. on_grid t r" using part_atD(2) [OF assms] by (auto simp: set_part_ranges)
  have "distinct (List.map_filter parse_part_name (map fst (fm_entries ps)))"
  proof (rule distinct_map_filter [OF distinct_fm_entries])
    fix x y z assume "x \<in> set (map fst (fm_entries ps))" "y \<in> set (map fst (fm_entries ps))"
      "parse_part_name x = Some z" "parse_part_name y = Some z"
    then obtain a b where "fmlookup ps x = Some a" "fmlookup ps y = Some b" by auto
    then show "x = y" using assms \<open>parse_part_name x = Some z\<close> \<open>parse_part_name y = Some z\<close>
      unfolding parts_inv_def by metis
  qed
  then have dist: "distinct ?xs" by (simp add: part_ranges_def)
  have "sorted (map rg_offset ?xs)" by (simp add: part_ranges_def)
  then have "sorted_wrt (\<lambda>a b. rg_offset a \<le> rg_offset b) ?xs" by (simp add: sorted_map)
  then have "sorted_wrt (\<lambda>a b. rg_offset a \<le> rg_offset b \<and> a \<noteq> b) ?xs"
    using dist by (auto simp: sorted_wrt_iff_nth_less distinct_conv_nth)
  then show "in_order ?xs"
    unfolding in_order_def
  proof (rule sorted_wrt_mono_rel [rotated])
    fix a b assume ab: "a \<in> set ?xs" "b \<in> set ?xs" "rg_offset a \<le> rg_offset b \<and> a \<noteq> b"
    then have "hi a \<le> lo b \<or> hi b \<le> lo a"
      using assms unfolding parts_inv_def set_part_ranges by blast
    moreover have "lo a \<le> lo b" using ab(3) by (simp add: lo_def word_le_nat_alt)
    moreover have "lo b < hi b" using grid ab(2) by (auto simp: on_grid_def lo_def hi_def)
    ultimately show "hi a \<le> lo b" by linarith
  qed
qed

lemma scan_parts_Some: "sd_parts d = Some ps \<Longrightarrow> scan_parts True d = Ok (part_ranges ps)"
  by (simp add: scan_parts_def part_ranges_def)

lemma part_at_upd:
  assumes "parse_part_name name = Some r" "fmlookup ps name = None"
  shows "part_at (fmupd name content ps) r' content' \<longleftrightarrow>
           (r' = r \<and> content' = content) \<or> part_at ps r' content'"
  using assms unfolding part_at_def fmupd_lookup by (metis option.distinct(1) option.inject)

lemma part_at_ignored:
  assumes "parse_part_name name = None"
  shows "part_at (fmupd name content ps) = part_at ps" "part_at (fmdrop name ps) = part_at ps"
  using assms unfolding part_at_def fun_eq_iff fmupd_lookup fmlookup_drop
  by (metis option.distinct(1))+

lemma parts_inv_ignored:
  assumes "parse_part_name name = None" "parts_inv P t ps"
  shows "parts_inv P t (fmupd name content ps)" "parts_inv P t (fmdrop name ps)"
proof -
  show "parts_inv P t (fmupd name content ps)"
    using assms unfolding parts_inv_def part_at_ignored(1) [OF assms(1)] fmupd_lookup
    by (metis option.distinct(1))
  show "parts_inv P t (fmdrop name ps)"
    using assms unfolding parts_inv_def part_at_ignored(2) [OF assms(1)] fmlookup_drop
    by (metis option.distinct(1))
qed

text \<open>No existing part stands in the way only if the new range overlaps none of them.\<close>

lemma check_existing_None:
  assumes "check_existing up sha target actual off len stop rs = None"
    and "\<forall>r\<in>set rs. fits r" and "unat stop = unat off + unat len"
  shows "\<forall>r\<in>set rs. r \<noteq> rg off len \<and> (hi r \<le> unat off \<or> unat off + unat len \<le> lo r)"
  using assms
proof (induction rs)
  case (Cons r rs)
  then have "r \<noteq> rg off len" "\<not> (rg_offset r < stop \<and> off < rg_offset r + rg_length r)"
      and rec: "check_existing up sha target actual off len stop rs = None"
    by (auto simp: Let_def split: if_splits option.splits)
  then have "r \<noteq> rg off len \<and> (hi r \<le> unat off \<or> unat off + unat len \<le> lo r)"
    using Cons.prems(2,3) unat_end [of r] by (auto simp: word_less_nat_alt lo_def not_less)
  with Cons.IH [OF rec] Cons.prems(2,3) show ?case by simp
qed simp

lemma check_existing_Ok:
  "check_existing up sha target actual off len stop rs = Some (Ok out) \<Longrightarrow>
     out = AlreadyPresent \<and> rg off len \<in> set rs"
proof (induction rs)
  case (Cons r rs)
  show ?case
  proof (cases "rg_offset r = off \<and> rg_length r = len")
    case True
    then have "r = rg off len" by simp
    with True Cons.prems show ?thesis by (auto split: option.splits if_splits)
  next
    case False
    with Cons show ?thesis by (auto simp: Let_def split: if_splits)
  qed
qed simp

lemma parts_inv_store:
  assumes inv: "parts_inv P t ps" and r: "on_grid t (rg off len)" "P (rg off len) content"
    and free: "\<forall>r\<in>set (part_ranges ps). r \<noteq> rg off len \<and> (hi r \<le> unat off \<or> unat off + unat len \<le> lo r)"
  shows "parts_inv P t (fmupd (part_name off len) content ps)"
    and "part_at (fmupd (part_name off len) content ps) r' c' \<longleftrightarrow>
           (r' = rg off len \<and> c' = content) \<or> part_at ps r' c'"
proof -
  have new: "fmlookup ps (part_name off len) = None"
  proof (rule ccontr)
    assume "fmlookup ps (part_name off len) \<noteq> None"
    then obtain c where "fmlookup ps (part_name off len) = Some c" by blast
    then have "part_at ps (rg off len) c" unfolding part_at_def using parse_part_name by blast
    with free show False by (auto simp: set_part_ranges)
  qed
  note at = part_at_upd [OF parse_part_name new]
  show "part_at (fmupd (part_name off len) content ps) r' c' \<longleftrightarrow>
           (r' = rg off len \<and> c' = content) \<or> part_at ps r' c'" by (rule at)
  have sep: "hi s \<le> unat off \<or> unat off + unat len \<le> lo s" if "part_at ps s c" for s c
    using free that by (auto simp: set_part_ranges)
  show "parts_inv P t (fmupd (part_name off len) content ps)"
    unfolding parts_inv_def
  proof (intro conjI allI impI)
    fix name c s
    assume a: "fmlookup (fmupd (part_name off len) content ps) name = Some c" "parse_part_name name = Some s"
    show "name = part_name (rg_offset s) (rg_length s)" "on_grid t s" "P s c"
      using a r inv by (auto simp: parts_inv_def split: if_splits)
  next
    fix s c s' c'
    assume "part_at (fmupd (part_name off len) content ps) s c"
      "part_at (fmupd (part_name off len) content ps) s' c'" "s \<noteq> s'"
    then consider "s = rg off len" "part_at ps s' c'" | "s' = rg off len" "part_at ps s c"
      | "part_at ps s c" "part_at ps s' c'" by (auto simp: at)
    then show "hi s \<le> lo s' \<or> hi s' \<le> lo s"
    proof cases
      case 3
      then show ?thesis using inv \<open>s \<noteq> s'\<close> unfolding parts_inv_def by blast
    qed (use sep in auto)
  qed
qed

text \<open>Whatever fails, storing a part keeps the invariant and the parts that are there; it reports
  success only with the part in place.\<close>

lemma store_part_spec:
  assumes inv: "parts_inv P t ps" and r: "on_grid t (rg off len)" "P (rg off len) content"
    and free: "\<forall>r\<in>set (part_ranges ps). r \<noteq> rg off len \<and> (hi r \<le> unat off \<or> unat off + unat len \<le> lo r)"
    and st: "store_part io (tmp_name off len) (part_name off len) content ps = (ps', ok)"
  shows "parts_inv P t ps'" "part_at ps s c \<Longrightarrow> part_at ps' s c" "ok \<Longrightarrow> part_at ps' (rg off len) content"
proof -
  consider (kept) "part_at ps' = part_at ps" "parts_inv P t ps'" "\<not> ok"
    | (stored) "ps' = fmupd (part_name off len) content ps"
    using st inv
    by (auto simp: store_part_def Let_def part_at_ignored parts_inv_ignored split: if_splits)
  then have "parts_inv P t ps' \<and> (part_at ps s c \<longrightarrow> part_at ps' s c) \<and> (ok \<longrightarrow> part_at ps' (rg off len) content)"
    by cases (use parts_inv_store [OF inv r free] in auto)
  then show "parts_inv P t ps'" "part_at ps s c \<Longrightarrow> part_at ps' s c" "ok \<Longrightarrow> part_at ps' (rg off len) content"
    by blast+
qed

lemma on_grid_checked:
  assumes "len \<noteq> 0" "checked_add off len = Some stop" "\<not> t < stop"
    and "\<not> (off mod BASE_UNIT \<noteq> 0 \<or> (stop \<noteq> t \<and> len mod BASE_UNIT \<noteq> 0))"
  shows "on_grid t (rg off len)" "unat stop = unat off + unat len"
proof -
  show stop: "unat stop = unat off + unat len" by (rule checked_add_Some [OF assms(2)])
  have "unat stop \<le> unat t" using assms(3) by (simp add: word_less_nat_alt not_less)
  moreover have "unat stop = unat t \<longleftrightarrow> stop = t" by (simp add: word_unat_eq_iff)
  moreover have "0 < unat len" using assms(1) by (simp add: unat_gt_0)
  ultimately show "on_grid t (rg off len)"
    using assms(4) unfolding on_grid_def lo_hi_rg stop [symmetric] by simp
qed

lemma check_part_request_Ok:
  assumes "check_part_request sha t off content declared = Ok stop"
  shows "on_grid t (rg off (of_nat (length content)))"
    and "unat stop = unat off + unat (of_nat (length content) :: u64)"
proof -
  have "of_nat (length content) \<noteq> (0 :: u64)" "checked_add off (of_nat (length content)) = Some stop" "\<not> t < stop"
      "\<not> (off mod BASE_UNIT \<noteq> 0 \<or> (stop \<noteq> t \<and> of_nat (length content) mod BASE_UNIT \<noteq> 0))"
    using assms by (auto simp: check_part_request_def Let_def split: option.splits if_split_asm)
  from on_grid_checked [OF this] show "on_grid t (rg off (of_nat (length content)))"
    "unat stop = unat off + unat (of_nat (length content) :: u64)" .
qed

lemma write_part_spec:
  assumes inv: "parts_inv P (mf_total_size m) ps" and ps: "sd_parts d = Some ps"
    and P: "on_grid (mf_total_size m) (rg off (of_nat (length content))) \<Longrightarrow> P (rg off (of_nat (length content))) content"
    and wr: "write_part io sha m d off content declared = (d', r)"
  obtains ps' where "d' = d\<lparr>sd_parts := Some ps'\<rparr>" "parts_inv P (mf_total_size m) ps'"
    and "\<And>s c. part_at ps s c \<Longrightarrow> part_at ps' s c"
    and "is_ok r \<Longrightarrow> \<exists>c. part_at ps' (rg off (of_nat (length content))) c"
proof -
  define len where "len = (of_nat (length content) :: u64)"
  have same: "d\<lparr>sd_parts := Some ps\<rparr> = d" using ps by simp
  consider (bad) e where "check_part_request sha (mf_total_size m) off content declared = Err e"
    | (noscan) stop where "check_part_request sha (mf_total_size m) off content declared = Ok stop" "\<not> dk_up io IoScan"
    | (go) stop where "check_part_request sha (mf_total_size m) off content declared = Ok stop" "dk_up io IoScan"
    by (cases "check_part_request sha (mf_total_size m) off content declared") blast+
  then show ?thesis
  proof cases
    case bad
    then have "d' = d" "\<not> is_ok r" using wr by (auto simp: write_part_def)
    then show ?thesis using that [of ps] inv same by simp
  next
    case noscan
    then have "d' = d" "\<not> is_ok r" using wr ps by (auto simp: write_part_def scan_parts_def)
    then show ?thesis using that [of ps] inv same by simp
  next
    case go
    note grid = check_part_request_Ok [OF go(1), folded len_def]
    define chk where "chk = check_existing (dk_up io IoReread) sha (fmlookup ps (part_name off len)) (sha content) off len stop (part_ranges ps)"
    have wr': "(d', r) = (case chk of Some r \<Rightarrow> (d, r)
        | None \<Rightarrow> let (ps', ok) = store_part io (tmp_name off len) (part_name off len) content ps
                 in (d\<lparr>sd_parts := Some ps'\<rparr>, if ok then Ok Written else Err (ChunkIo (Internal []))))"
      using wr go ps by (simp add: write_part_def Let_def len_def [symmetric] scan_parts_Some chk_def cong: option.case_cong)
    show ?thesis
    proof (cases chk)
      case (Some res)
      then have "d' = d" "r = res" using wr' by simp_all
      moreover have "\<exists>c. part_at ps (rg off len) c" if "is_ok res"
      proof -
        from that obtain out where "res = Ok out" by (cases res) auto
        with Some have "rg off len \<in> set (part_ranges ps)" unfolding chk_def using check_existing_Ok by blast
        then show ?thesis by (simp add: set_part_ranges)
      qed
      ultimately show ?thesis using that [of ps] inv same len_def by auto
    next
      case None
      obtain ps' ok where st: "store_part io (tmp_name off len) (part_name off len) content ps = (ps', ok)"
        by (cases "store_part io (tmp_name off len) (part_name off len) content ps")
      have "\<forall>s\<in>set (part_ranges ps). fits s"
        using part_ranges_in_order(2) [OF inv] on_grid_fits by blast
      then have free: "\<forall>s\<in>set (part_ranges ps). s \<noteq> rg off len \<and> (hi s \<le> unat off \<or> unat off + unat len \<le> lo s)"
        using check_existing_None [OF None [unfolded chk_def] _ grid(2)] by blast
      have Pc: "P (rg off len) content" using P grid(1) by (simp add: len_def)
      have "d' = d\<lparr>sd_parts := Some ps'\<rparr>" "is_ok r \<longleftrightarrow> ok" using wr' None st by (auto split: if_splits)
      then show ?thesis
        using that [of ps'] store_part_spec [OF inv grid(1) Pc free st] len_def by blast
    qed
  qed
qed

section \<open>Reassembly\<close>

definition slice :: "bytes \<Rightarrow> range \<Rightarrow> bytes" where
  "slice F r = take (unat (rg_length r)) (drop (unat (rg_offset r)) F)"

definition piece_of :: "bytes \<Rightarrow> range \<Rightarrow> bytes \<Rightarrow> bool" where
  "piece_of F r content \<longleftrightarrow> content = slice F r"

lemma read_parts_slices:
  assumes inv: "parts_inv (piece_of F) t ps" and F: "length F = unat t"
    and "set rs \<subseteq> set (part_ranges ps)" "in_order rs" "positions rs = {c ..< unat t}" "c \<le> unat t"
  shows "read_parts ps rs = (drop c F, True)"
  using assms(3-)
proof (induction rs arbitrary: c)
  case Nil
  then show ?case using F by simp
next
  case (Cons r rs)
  obtain content where at: "part_at ps r content" using Cons.prems(1) by (auto simp: set_part_ranges)
  note r = part_atD [OF inv at]
  have len: "lo r < hi r" "hi r \<le> unat t" using r(2) by (auto simp: on_grid_def lo_def hi_def)
  have after: "\<forall>x\<in>positions rs. hi r \<le> x"
    using Cons.prems(2) by (auto simp: in_order_def positions_def intro: order.trans)
  have "lo r \<in> {c ..< unat t}" using Cons.prems(3) len by auto
  moreover have "c \<in> positions (r # rs)" using calculation Cons.prems(3) by auto
  ultimately have c: "lo r = c" using after len by fastforce
  have "positions rs = {hi r ..< unat t}"
  proof
    show "positions rs \<subseteq> {hi r ..< unat t}" using after Cons.prems(3) by auto
    show "{hi r ..< unat t} \<subseteq> positions rs"
    proof
      fix x assume "x \<in> {hi r ..< unat t}"
      with c len have "x \<in> positions (r # rs)" unfolding Cons.prems(3) by simp
      with \<open>x \<in> {hi r ..< unat t}\<close> show "x \<in> positions rs" by simp
    qed
  qed
  with Cons have IH: "read_parts ps rs = (drop (hi r) F, True)"
    using len by (simp add: in_order_def)
  have "content @ drop (hi r) F = drop c F"
    using r(3) c len F
    by (simp add: piece_of_def slice_def lo_def hi_def)
      (metis append_take_drop_id drop_drop add.commute)
  with IH r(1) show ?case by simp
qed

lemma status_exact:
  assumes "parts_inv P t ps"
  shows "positions (merge_adjacent (part_ranges ps)) = positions (part_ranges ps)"
    and "with_gaps (merge_adjacent (part_ranges ps))"
    and "positions (missing_complement (merge_adjacent (part_ranges ps)) t) = {..< unat t} - positions (part_ranges ps)"
    and "positions (part_ranges ps) \<subseteq> {..< unat t}"
    and "unat (\<Sum>p\<leftarrow>part_ranges ps. rg_length p) = card (positions (part_ranges ps))"
    and "\<forall>r\<in>set (merge_adjacent (part_ranges ps)). lo r < hi r"
proof -
  note ord = part_ranges_in_order [OF assms]
  have fits: "\<forall>r\<in>set (part_ranges ps). fits r" using ord(2) on_grid_fits by blast
  note merged = merge_adjacent_spec [OF ord(1) fits]
  have hi: "\<forall>r\<in>set (merge_adjacent (part_ranges ps)). hi r \<le> unat t"
    using merged ord(2) by (fastforce simp: on_grid_def)
  show "positions (merge_adjacent (part_ranges ps)) = positions (part_ranges ps)" "with_gaps (merge_adjacent (part_ranges ps))"
    using merged by simp_all
  then show "positions (missing_complement (merge_adjacent (part_ranges ps)) t) = {..< unat t} - positions (part_ranges ps)"
    using missing_complement_exact [OF hi with_gaps_sorted] by simp
  show "positions (part_ranges ps) \<subseteq> {..< unat t}"
    using ord(2) by (fastforce simp: positions_def on_grid_def)
  show "unat (\<Sum>p\<leftarrow>part_ranges ps. rg_length p) = card (positions (part_ranges ps))"
    using in_order_bytes [OF ord(1) fits] by simp
  have "\<forall>r\<in>set (part_ranges ps). lo r < hi r" using ord(2) by (auto simp: on_grid_def lo_def hi_def)
  then show "\<forall>r\<in>set (merge_adjacent (part_ranges ps)). lo r < hi r" using merged by blast
qed

text \<open>Ranges with gaps that cover an initial segment are a single range.\<close>

lemma with_gaps_single:
  assumes "with_gaps rs" "positions rs = {..< n}" "0 < n" "\<forall>r\<in>set rs. lo r < hi r"
  shows "\<exists>r. rs = [r] \<and> lo r = 0 \<and> hi r = n"
proof (cases rs)
  case Nil
  with assms(2,3) show ?thesis by auto
next
  case (Cons r qs)
  have r: "lo r < hi r" using Cons assms(4) by simp
  have above: "\<forall>x\<in>positions qs. hi r < x"
    using assms(1) Cons by (fastforce simp: with_gaps_def positions_def)
  have "0 \<in> positions rs" using assms(2,3) by simp
  then have lo: "lo r = 0" using above Cons by auto
  have "hi r \<notin> positions rs" using above Cons by auto
  then have ge: "n \<le> hi r" using assms(2) by simp
  have "hi r - 1 \<in> positions rs" using r Cons by auto
  then have "hi r \<le> n" using assms(2) r by auto
  moreover have "positions qs = {}"
  proof (rule equals0I)
    fix x assume x: "x \<in> positions qs"
    then have "x \<in> positions rs" using Cons by simp
    with x above ge assms(2) show False by auto
  qed
  then have "qs = []" using assms(4) Cons by (cases qs) auto
  ultimately show ?thesis using Cons lo ge by simp
qed

lemma assemble_spec:
  assumes inv: "parts_inv (piece_of F) (mf_total_size m) ps" and ps: "sd_parts d = Some ps"
    and F: "length F = unat (mf_total_size m)" "F \<noteq> []"
    and st: "session_status True m d = Ok (received, missing, n)"
  shows "assemble disk_ok sha m d =
    (if missing = [] then (d\<lparr>sd_body := Some F\<rparr>, Ok (mf_total_size m, sha F)) else (d, Err (Missing missing)))"
proof -
  let ?rs = "part_ranges ps"
  have eqs: "received = merge_adjacent ?rs" "missing = missing_complement received (mf_total_size m)"
    using st ps by (auto simp: session_status_def scan_parts_Some status_of_def Let_def)
  show ?thesis
  proof (cases "missing = []")
    case False
    then show ?thesis using st by (simp add: assemble_def disk_ok_def)
  next
    case True
    note exact = status_exact [OF inv]
    have "positions missing = {}" using True by simp
    then have cover: "positions ?rs = {..< unat (mf_total_size m)}"
      using exact(3,4) by (auto simp: eqs)
    have "0 < unat (mf_total_size m)" using F by (metis length_greater_0_conv)
    then obtain r where r: "received = [r]" "lo r = 0" "hi r = unat (mf_total_size m)"
      using with_gaps_single [OF exact(2)] exact(1,6) cover eqs(1) by auto
    then have "rg_offset r = 0" "rg_length r = mf_total_size m"
      by (auto simp: lo_def hi_def word_unat_eq_iff)
    moreover have "read_parts ps ?rs = (F, True)"
      using read_parts_slices [OF inv F(1) subset_refl part_ranges_in_order(1) [OF inv], of 0] cover
      by (simp add: lessThan_atLeast0)
    ultimately show ?thesis
      using st True r(1) ps by (simp add: assemble_def disk_ok_def Let_def scan_parts_Some)
  qed
qed

section \<open>Sequences of uploads\<close>

text \<open>What happens to one session: chunks arrive with any disk failures, the process dies while a
  temporary file is being written, a completion attempt assembles the body.\<close>

datatype chunk_event = PutPart disk u64 bytes string | Crash u64 u64 bytes | TryAssemble disk

fun chunk_step :: "(bytes \<Rightarrow> string) \<Rightarrow> manifest \<Rightarrow> session_dir \<Rightarrow> chunk_event \<Rightarrow> session_dir" where
  "chunk_step sha m d (PutPart io off content declared) = fst (write_part io sha m d off content declared)"
| "chunk_step sha m d (Crash off len content) =
     d\<lparr>sd_parts := map_option (fmupd (tmp_name off len) content) (sd_parts d)\<rparr>"
| "chunk_step sha m d (TryAssemble io) = fst (assemble io sha m d)"

definition fresh_dir :: "manifest \<Rightarrow> session_dir" where
  "fresh_dir m = \<lparr>sd_manifest = Json m, sd_lock = True, sd_parts = Some fmempty, sd_body = None, sd_completed = NoFile\<rparr>"

text \<open>The client sends pieces of one file.\<close>

fun sends_pieces :: "bytes \<Rightarrow> session_dir \<Rightarrow> chunk_event \<Rightarrow> bool" where
  "sends_pieces F d (PutPart io off content declared) \<longleftrightarrow> content = slice F (rg off (of_nat (length content)))"
| "sends_pieces F d _ \<longleftrightarrow> True"

text \<open>The ranges whose upload was answered with success.\<close>

fun accepted_by :: "(bytes \<Rightarrow> string) \<Rightarrow> manifest \<Rightarrow> session_dir \<Rightarrow> chunk_event \<Rightarrow> range list" where
  "accepted_by sha m d (PutPart io off content declared) =
     (if is_ok (snd (write_part io sha m d off content declared)) then [rg off (of_nat (length content))] else [])"
| "accepted_by sha m d _ = []"

fun accepted :: "(bytes \<Rightarrow> string) \<Rightarrow> manifest \<Rightarrow> session_dir \<Rightarrow> chunk_event list \<Rightarrow> range list" where
  "accepted sha m d [] = []"
| "accepted sha m d (e # es) = accepted_by sha m d e @ accepted sha m (chunk_step sha m d e) es"

definition session_inv :: "bytes \<Rightarrow> manifest \<Rightarrow> session_dir \<Rightarrow> bool" where
  "session_inv F m d \<longleftrightarrow> (\<exists>ps. sd_parts d = Some ps \<and> parts_inv (piece_of F) (mf_total_size m) ps)"

lemma assemble_parts [simp]: "sd_parts (fst (assemble io sha m d)) = sd_parts d"
  by (simp add: assemble_def Let_def case_prod_beta split: result.split prod.split)

lemma chunk_step_spec:
  assumes inv: "parts_inv (piece_of F) (mf_total_size m) ps" and ps: "sd_parts d = Some ps" and ok: "sends_pieces F d e"
  obtains ps' where "sd_parts (chunk_step sha m d e) = Some ps'" "parts_inv (piece_of F) (mf_total_size m) ps'"
    and "\<And>s c. part_at ps s c \<Longrightarrow> part_at ps' s c"
    and "set (accepted_by sha m d e) \<subseteq> set (part_ranges ps')"
proof (cases e)
  case (PutPart io off content declared)
  obtain d' r where wr: "write_part io sha m d off content declared = (d', r)"
    by (cases "write_part io sha m d off content declared")
  have "piece_of F (rg off (of_nat (length content))) content" using ok PutPart by (simp add: piece_of_def)
  then obtain ps' where ps': "d' = d\<lparr>sd_parts := Some ps'\<rparr>" "parts_inv (piece_of F) (mf_total_size m) ps'"
      "\<And>s c. part_at ps s c \<Longrightarrow> part_at ps' s c"
      "is_ok r \<Longrightarrow> \<exists>c. part_at ps' (rg off (of_nat (length content))) c"
    using write_part_spec [OF inv ps _ wr] by metis
  have "set (accepted_by sha m d e) \<subseteq> set (part_ranges ps')"
    using ps'(4) PutPart wr by (auto simp: set_part_ranges)
  then show ?thesis using that [of ps'] ps'(1-3) PutPart wr by simp
next
  case (Crash off len content)
  then show ?thesis
    using that [of "fmupd (tmp_name off len) content ps"] inv ps
    by (simp add: parts_inv_ignored part_at_ignored)
next
  case (TryAssemble io)
  then show ?thesis using that [of ps] inv ps by simp
qed

interpretation chunk_run: invariant_system "fresh_dir m" "chunk_step sha m" "sends_pieces F" "session_inv F m"
  for sha m F
proof
  show "session_inv F m (fresh_dir m)" by (simp add: session_inv_def fresh_dir_def parts_inv_def part_at_def)
  show "session_inv F m (chunk_step sha m d e)" if "session_inv F m d" "sends_pieces F d e" for d e
    using that chunk_step_spec unfolding session_inv_def by metis
qed

lemma positions_mono: "set rs \<subseteq> set ss \<Longrightarrow> positions rs \<subseteq> positions ss"
  by (auto simp: positions_def)

lemma accepted_covered:
  assumes "session_inv F m d" "admissible (sends_pieces F) (chunk_step sha m) d es"
    and "sd_parts d = Some ps" "sd_parts (run (chunk_step sha m) d es) = Some ps'"
  shows "positions (part_ranges ps) \<union> positions (accepted sha m d es) \<subseteq> positions (part_ranges ps')"
  using assms
proof (induction es arbitrary: d ps)
  case Nil
  then show ?case by simp
next
  case (Cons e es)
  have ok: "sends_pieces F d e" "admissible (sends_pieces F) (chunk_step sha m) (chunk_step sha m d e) es"
    using Cons.prems(2) by simp_all
  have inv: "parts_inv (piece_of F) (mf_total_size m) ps" using Cons.prems(1,3) by (simp add: session_inv_def)
  obtain ps1 where ps1: "sd_parts (chunk_step sha m d e) = Some ps1" "parts_inv (piece_of F) (mf_total_size m) ps1"
      "\<And>s c. part_at ps s c \<Longrightarrow> part_at ps1 s c" "set (accepted_by sha m d e) \<subseteq> set (part_ranges ps1)"
    using chunk_step_spec [OF inv Cons.prems(3) ok(1), where sha = sha] by metis
  have "session_inv F m (chunk_step sha m d e)" using ps1(1,2) by (simp add: session_inv_def)
  moreover have "sd_parts (run (chunk_step sha m) (chunk_step sha m d e) es) = Some ps'"
    using Cons.prems(4) by simp
  ultimately have IH: "positions (part_ranges ps1) \<union> positions (accepted sha m (chunk_step sha m d e) es) \<subseteq> positions (part_ranges ps')"
    using Cons.IH [OF _ ok(2) ps1(1)] by blast
  have "set (part_ranges ps) \<subseteq> set (part_ranges ps1)" using ps1(3) by (auto simp: set_part_ranges)
  then have "positions (part_ranges ps) \<subseteq> positions (part_ranges ps1)" by (rule positions_mono)
  moreover have "positions (accepted_by sha m d e) \<subseteq> positions (part_ranges ps1)"
    using ps1(4) by (rule positions_mono)
  ultimately show ?case using IH by simp blast
qed


definition demo_manifest :: manifest where
  "demo_manifest = manifest_of (\<lambda>_. ''00'') 0 ''s''
     \<lparr>ns_uploader_id = 1, ns_plaintext_sha256 = ''00'', ns_plaintext_size = 3, ns_format_version = 1,
      ns_encryption_key_id = 1, ns_chunk_plain_size = 4096, ns_total_size = 3, ns_file_type = ''image'',
      ns_business_type = ''m'', ns_filename = ''a.png'', ns_mime_type = ''image/png'', ns_reserved_file_id = 7,
      ns_transport = TRANSPORT_PROXY_OFFSET_V1, ns_s3 = None\<rparr>"

lemma demo_total_size [simp]: "mf_total_size demo_manifest = 3"
  by (simp add: demo_manifest_def manifest_of_def)


section \<open>Progress\<close>

lemma check_existing_free:
  assumes "\<forall>r\<in>set rs. fits r \<and> r \<noteq> rg off len \<and> (hi r \<le> unat off \<or> unat off + unat len \<le> lo r)"
    and "unat stop = unat off + unat len"
  shows "check_existing up sha target actual off len stop rs = None"
  using assms
proof (induction rs)
  case (Cons r rs)
  then have r: "fits r" "r \<noteq> rg off len" "hi r \<le> unat off \<or> unat off + unat len \<le> lo r" by auto
  then have "\<not> (rg_offset r = off \<and> rg_length r = len)" by auto
  moreover have "\<not> (rg_offset r < stop \<and> off < rg_offset r + rg_length r)"
    using r(1,3) Cons.prems(2) by (auto simp: word_less_nat_alt unat_end lo_def)
  ultimately show ?case using Cons by auto
qed simp

lemma check_existing_present:
  assumes "rg off len \<in> set rs" "\<forall>r\<in>set rs. fits r \<and> (r = rg off len \<or> hi r \<le> unat off \<or> unat off + unat len \<le> lo r)"
    and "unat stop = unat off + unat len" "target = Some content" "sha content = actual"
  shows "check_existing True sha target actual off len stop rs = Some (Ok AlreadyPresent)"
  using assms
proof (induction rs)
  case (Cons r rs)
  show ?case
  proof (cases "rg_offset r = off \<and> rg_length r = len")
    case True
    then show ?thesis using Cons.prems by simp
  next
    case False
    then have ne: "r \<noteq> rg off len" by auto
    then have r: "fits r" "hi r \<le> unat off \<or> unat off + unat len \<le> lo r" using Cons.prems(2) by auto
    then have "\<not> (rg_offset r < stop \<and> off < rg_offset r + rg_length r)"
      using Cons.prems(3) by (auto simp: word_less_nat_alt unat_end lo_def)
    then show ?thesis using Cons ne False by simp
  qed
qed simp

text \<open>A grid-aligned piece that does not cut across a received part is stored by the second attempt
  at the latest, also when a crash left its temporary file behind.\<close>

definition compatible :: "(string, bytes) fmap \<Rightarrow> range \<Rightarrow> bytes \<Rightarrow> bool" where
  "compatible ps r content \<longleftrightarrow>
     (\<forall>s c. part_at ps s c \<longrightarrow> (s = r \<and> c = content) \<or> hi s \<le> lo r \<or> hi r \<le> lo s)"

lemma write_part_healthy:
  assumes inv: "parts_inv P (mf_total_size m) ps" and ps: "sd_parts d = Some ps"
    and req: "check_part_request sha (mf_total_size m) off content declared = Ok stop"
    and comp: "compatible ps (rg off (of_nat (length content))) content"
  shows "is_ok (snd (write_part disk_ok sha m d off content declared))
         \<or> tmp_name off (of_nat (length content)) |\<in>| fmdom ps
           \<and> fst (write_part disk_ok sha m d off content declared)
               = d\<lparr>sd_parts := Some (fmdrop (tmp_name off (of_nat (length content))) ps)\<rparr>"
proof -
  define len where "len = (of_nat (length content) :: u64)"
  note grid = check_part_request_Ok [OF req, folded len_def]
  have fits: "\<forall>s\<in>set (part_ranges ps). fits s" using part_ranges_in_order(2) [OF inv] on_grid_fits by blast
  have sep: "s = rg off len \<or> hi s \<le> unat off \<or> unat off + unat len \<le> lo s" if "s \<in> set (part_ranges ps)" for s
    using that comp by (auto simp: compatible_def set_part_ranges len_def)
  show ?thesis
  proof (cases "rg off len \<in> set (part_ranges ps)")
    case True
    then obtain c where c: "part_at ps (rg off len) c" by (auto simp: set_part_ranges)
    then have "c = content \<or> hi (rg off len) \<le> lo (rg off len)"
      using comp unfolding compatible_def len_def [symmetric] by blast
    then have "c = content" using grid(1) by (auto simp: on_grid_def)
    then have "fmlookup ps (part_name off len) = Some content" using part_atD(1) [OF inv c] by simp
    with True fits sep have "check_existing True sha (fmlookup ps (part_name off len)) (sha content) off len stop (part_ranges ps)
        = Some (Ok AlreadyPresent)"
      by (intro check_existing_present [where content = content]) (auto simp: grid(2))
    then show ?thesis
      using req ps by (simp add: write_part_def Let_def len_def [symmetric] scan_parts_Some disk_ok_def)
  next
    case False
    then have "check_existing True sha (fmlookup ps (part_name off len)) (sha content) off len stop (part_ranges ps) = None"
      using fits sep by (intro check_existing_free) (auto simp: grid(2))
    then show ?thesis
      using req ps
      by (simp add: write_part_def Let_def len_def [symmetric] scan_parts_Some disk_ok_def store_part_def)
  qed
qed

lemma length_slice: "hi r \<le> length F \<Longrightarrow> length (slice F r) = unat (rg_length r)"
  by (simp add: slice_def hi_def)

lemma check_part_request_piece:
  assumes "on_grid t r" "length F = unat t" "to_ascii_lowercase (trim declared) = sha (slice F r)"
  shows "\<exists>stop. check_part_request sha t (rg_offset r) (slice F r) declared = Ok stop"
    and "of_nat (length (slice F r)) = rg_length r"
proof -
  have hi: "hi r \<le> unat t" "0 < unat (rg_length r)" "rg_offset r mod BASE_UNIT = 0"
      "hi r = unat t \<or> rg_length r mod BASE_UNIT = 0"
    using assms(1) by (auto simp: on_grid_def)
  show len: "of_nat (length (slice F r)) = rg_length r"
    using length_slice [of r F] hi(1) assms(2) by simp
  have "unat (rg_offset r) + unat (rg_length r) < 2 ^ 64"
    using hi(1) unat_u64_less [of t] by (simp add: hi_def)
  then have add: "checked_add (rg_offset r) (rg_length r) = Some (rg_offset r + rg_length r)"
    by (simp add: checked_add_def)
  then have stop: "unat (rg_offset r + rg_length r) = hi r" by (simp add: hi_def checked_add_Some)
  then have "\<not> t < rg_offset r + rg_length r" using hi(1) by (simp add: word_less_nat_alt)
  moreover have "rg_offset r + rg_length r = t \<or> rg_length r mod BASE_UNIT = 0"
    using hi(4) stop by (metis word_unat_eq_iff)
  moreover have "rg_length r \<noteq> 0" using hi(2) by auto
  ultimately show "\<exists>stop. check_part_request sha t (rg_offset r) (slice F r) declared = Ok stop"
    using hi(3) assms(3) by (auto simp: check_part_request_def Let_def len add)
qed

text \<open>C31. Progress. In every reachable state, sending a piece of the file that lies on the grid and
  does not cut across a received part succeeds at the first or at the second attempt when the disk
  works, whatever temporary files earlier crashes left behind.\<close>

theorem chunk_retry_succeeds:
  assumes "length F = unat (mf_total_size m)"
    and run: "admissible (sends_pieces F) (chunk_step sha m) (fresh_dir m) es"
    and grid: "on_grid (mf_total_size m) r" and sha: "to_ascii_lowercase (trim (sha (slice F r))) = sha (slice F r)"
    and d: "d = run (chunk_step sha m) (fresh_dir m) es"
    and sep: "scan_parts True d = Ok parts \<and> (\<forall>s\<in>set parts. s = r \<or> hi s \<le> lo r \<or> hi r \<le> lo s)"
  shows "let put = (\<lambda>d. write_part disk_ok sha m d (rg_offset r) (slice F r) (sha (slice F r)))
         in is_ok (snd (put d)) \<or> is_ok (snd (put (fst (put d))))"
proof -
  define put where "put = (\<lambda>d. write_part disk_ok sha m d (rg_offset r) (slice F r) (sha (slice F r)))"
  obtain ps where ps: "sd_parts d = Some ps" and inv: "parts_inv (piece_of F) (mf_total_size m) ps"
    using chunk_run.run_inv [OF run] by (auto simp: session_inv_def d)
  obtain stop where req: "check_part_request sha (mf_total_size m) (rg_offset r) (slice F r) (sha (slice F r)) = Ok stop"
    using check_part_request_piece(1) [OF grid assms(1), where sha = sha] sha by blast
  have len: "of_nat (length (slice F r)) = rg_length r"
    using check_part_request_piece(2) [OF grid assms(1)] sha by blast
  have "\<forall>s c. part_at ps s c \<longrightarrow> s = r \<and> c = slice F r \<or> hi s \<le> lo r \<or> hi r \<le> lo s"
    using sep part_atD(3) [OF inv] by (fastforce simp: scan_parts_Some [OF ps] set_part_ranges piece_of_def)
  then have comp: "compatible ps r (slice F r)" unfolding compatible_def .
  have healthy: "is_ok (snd (put d')) \<or> tmp_name (rg_offset r) (rg_length r) |\<in>| fmdom ps'
        \<and> fst (put d') = d'\<lparr>sd_parts := Some (fmdrop (tmp_name (rg_offset r) (rg_length r)) ps')\<rparr>"
    if "sd_parts d' = Some ps'" "parts_inv (piece_of F) (mf_total_size m) ps'" "compatible ps' r (slice F r)" for d' ps'
    using write_part_healthy [OF that(2,1) req] that len by (simp add: put_def)
  define ps' where "ps' = fmdrop (tmp_name (rg_offset r) (rg_length r)) ps"
  have "parts_inv (piece_of F) (mf_total_size m) ps'" "compatible ps' r (slice F r)"
    using inv comp by (simp_all add: ps'_def parts_inv_ignored compatible_def part_at_ignored)
  then have "is_ok (snd (put (d\<lparr>sd_parts := Some ps'\<rparr>)))"
    using healthy [of "d\<lparr>sd_parts := Some ps'\<rparr>" ps'] by (auto simp: ps'_def)
  then have "is_ok (snd (put d)) \<or> is_ok (snd (put (fst (put d))))"
    using healthy [OF ps inv comp] by (auto simp: ps'_def)
  then show ?thesis by (simp add: put_def Let_def)
qed

lemma part_ranges_tmp [simp]: "part_ranges (fmupd (tmp_name p n) content fmempty) = []"
  using set_part_ranges [of "fmupd (tmp_name p n) content fmempty"] by (auto simp: part_at_ignored part_at_def)

theorem chunk_retry_succeeds_witness:
  "let m = demo_manifest; F = [1, 2, 3]; es = [Crash 0 3 [9]]; sha = (\<lambda>_. ''00'');
       d = run (chunk_step sha m) (fresh_dir m) es; r = rg 0 3;
       put = (\<lambda>d. write_part disk_ok sha m d (rg_offset r) (slice F r) (sha (slice F r)))
   in admissible (sends_pieces F) (chunk_step sha m) (fresh_dir m) es \<and> on_grid (mf_total_size m) r
      \<and> scan_parts True d = Ok []
      \<and> (is_ok (snd (put d)) \<or> is_ok (snd (put (fst (put d)))))"
proof -
  let ?F = "[1, 2, 3] :: bytes" and ?sha = "\<lambda>_ :: bytes. ''00''"
  let ?d = "run (chunk_step ?sha demo_manifest) (fresh_dir demo_manifest) [Crash 0 3 [9]]"
  have grid: "on_grid (mf_total_size demo_manifest) (rg 0 3)" by (simp add: on_grid_def)
  have hex: "to_ascii_lowercase (trim ''00'') = ''00''"
    by (simp add: trim_def is_space_def to_ascii_lowercase_def ascii_lower_char_def Let_def)
  have scan: "scan_parts True ?d = Ok []"
    by (rule scan_parts_Some [where ps = "fmupd (tmp_name 0 3) [9] fmempty", THEN trans]) (simp_all add: fresh_dir_def)
  show ?thesis
    using chunk_retry_succeeds [of ?F demo_manifest ?sha "[Crash 0 3 [9]]" "rg 0 3" ?d "[]"] grid hex scan
    unfolding Let_def by simp
qed

section \<open>Tokens\<close>

lemma or_zero_u8: "(x :: u8) OR y = 0 \<longleftrightarrow> x = 0 \<and> y = 0"
  by (auto simp: bit_eq_iff bit_simps)

lemma xor_zero_u8: "(x :: u8) XOR y = 0 \<longleftrightarrow> x = y"
  by (auto simp: bit_eq_iff bit_simps)

lemma fold_diff_zero:
  "fold (\<lambda>(x, y) diff. diff OR (x XOR y)) ps acc = (0 :: u8) \<longleftrightarrow> acc = 0 \<and> (\<forall>p\<in>set ps. fst p = snd p)"
  by (induction ps arbitrary: acc) (auto simp: or_zero_u8 xor_zero_u8 case_prod_beta)

lemma zip_eq_iff: "length a = length b \<Longrightarrow> (\<forall>p\<in>set (zip a b). fst p = snd p) \<longleftrightarrow> a = b"
  by (induction a b rule: list_induct2) auto

lemma constant_time_eq_iff: "constant_time_eq a b \<longleftrightarrow> a = b"
  using zip_eq_iff [of a b] by (auto simp: constant_time_eq_def fold_diff_zero)

lemma as_bytes_inject: "as_bytes s = as_bytes t \<longleftrightarrow> s = t"
proof -
  have "inj (\<lambda>ch. of_nat (of_char ch) :: u8)"
  proof (rule injI)
    fix x y :: char assume eq: "(of_nat (of_char x) :: u8) = of_nat (of_char y)"
    have "(of_char x :: nat) < 256" "(of_char y :: nat) < 256" by simp_all
    with arg_cong [OF eq, where f = unat] have "(of_char x :: nat) = of_char y"
      by (simp add: unsigned_of_nat take_bit_nat_eq_self)
    then show "x = y" by simp
  qed
  then show ?thesis by (simp add: as_bytes_def)
qed

definition hex_id :: "nat \<Rightarrow> string \<Rightarrow> bool" where
  "hex_id n s \<longleftrightarrow> length s = n \<and> list_all is_ascii_hexdigit s"

lemma hexdigit_facts: "is_ascii_hexdigit ch \<Longrightarrow> \<not> is_space ch \<and> ch \<noteq> CHR ''.''"
  by (auto simp: is_ascii_hexdigit_def is_space_def Let_def)

lemma trim_id: "s \<noteq> [] \<Longrightarrow> \<not> is_space (hd s) \<Longrightarrow> \<not> is_space (last s) \<Longrightarrow> trim s = s"
  by (simp add: trim_def dropWhile_eq_self_iff [THEN iffD2] hd_rev)

lemma parse_token_made:
  assumes "hex_id UPLOAD_ID_HEX_LEN i" "hex_id SECRET_HEX_LEN secret"
  shows "parse_token (i @ ''.'' @ secret) = Some (i, secret)"
proof -
  have ne: "i \<noteq> []" "secret \<noteq> []"
    using assms by (auto simp: hex_id_def UPLOAD_ID_HEX_LEN_def SECRET_HEX_LEN_def)
  then have "is_ascii_hexdigit (hd i)" "is_ascii_hexdigit (last secret)"
    using assms by (auto simp: hex_id_def list_all_iff)
  then have "trim (i @ ''.'' @ secret) = i @ ''.'' @ secret"
    using ne by (intro trim_id) (auto dest: hexdigit_facts)
  moreover have "CHR ''.'' \<notin> set i" using assms(1) hexdigit_facts by (auto simp: hex_id_def list_all_iff)
  ultimately show ?thesis
    using assms by (simp add: parse_token_def split_once_first hex_id_def)
qed

text \<open>The token of a new session opens it until it expires; a token with another secret, whose
  digest differs, does not.\<close>

lemma token_opens_session:
  assumes "create_with_ids io sha now (i, secret) input root = (root', Ok (s, token, expires))"
    and ids: "hex_id UPLOAD_ID_HEX_LEN i" "hex_id SECRET_HEX_LEN secret" "hex_id SECRET_HEX_LEN other"
  shows "open_chunked True sha later root' token = (if expires < later then Err Expired else Ok s)"
    and "sha (as_bytes other) \<noteq> sha (as_bytes secret) \<Longrightarrow> open_chunked True sha later root' (i @ ''.'' @ other) = Err BadSecret"
proof -
  have s: "s = \<lparr>cs_upload_id = i, cs_manifest = manifest_of sha now secret input\<rparr>"
      "token = i @ ''.'' @ secret" "expires = mf_expires_at (manifest_of sha now secret input)"
      "\<exists>d. fmlookup (ur_dirs root') i = Some d \<and> sd_manifest d = Json (manifest_of sha now secret input)"
    using assms(1) by (auto simp: create_with_ids_def Let_def write_json_atomic_def split: if_splits)
  then show "open_chunked True sha later root' token = (if expires < later then Err Expired else Ok s)"
    by (auto simp: open_chunked_def parse_token_made [OF ids(1,2), simplified] read_json_def constant_time_eq_iff manifest_of_def)
  show "open_chunked True sha later root' (i @ ''.'' @ other) = Err BadSecret"
    if "sha (as_bytes other) \<noteq> sha (as_bytes secret)"
    using s(4) that
    by (auto simp: open_chunked_def parse_token_made [OF ids(1,3), simplified] read_json_def constant_time_eq_iff as_bytes_inject manifest_of_def)
qed

section \<open>The sweeper\<close>

definition sweepable :: "sweep_env \<Rightarrow> int \<Rightarrow> string \<Rightarrow> session_dir \<Rightarrow> bool" where
  "sweepable env now i d \<longleftrightarrow>
     (case read_json (se_read env i) (sd_manifest d) of
        Ok (Some m) \<Rightarrow> mf_expires_at m < now \<and> mf_transport m \<noteq> TRANSPORT_S3_MULTIPART_V1
      | _ \<Rightarrow> True)
     \<and> (sd_lock d \<longrightarrow> se_free env i) \<and> se_removed env i"

lemma sweep_one_spec:
  "sweep_one env now i (root, n) =
     (case fmlookup (ur_dirs root) i of
        Some d \<Rightarrow> if sweepable env now i d then (root\<lparr>ur_dirs := fmdrop i (ur_dirs root)\<rparr>, n + 1) else (root, n)
      | None \<Rightarrow> (root, n))"
  by (auto simp: sweep_one_def sweepable_def Let_def split: option.split result.split)

lemma sweep_fold:
  assumes "distinct is"
  shows "fmlookup (ur_dirs (fst (fold (sweep_one env now) is (root, n)))) i =
    (case fmlookup (ur_dirs root) i of
       Some d \<Rightarrow> if i \<in> set is \<and> sweepable env now i d then None else Some d
     | None \<Rightarrow> None)"
  using assms
proof (induction "is" arbitrary: root n)
  case (Cons j js)
  show ?case
  proof (cases "\<exists>d. fmlookup (ur_dirs root) j = Some d \<and> sweepable env now j d")
    case True
    then have "sweep_one env now j (root, n) = (root\<lparr>ur_dirs := fmdrop j (ur_dirs root)\<rparr>, n + 1)"
      by (auto simp: sweep_one_spec)
    with True Cons show ?thesis by (auto split: option.splits)
  next
    case False
    then have "sweep_one env now j (root, n) = (root, n)" by (auto simp: sweep_one_spec split: option.split)
    with False Cons show ?thesis by (auto split: option.splits)
  qed
qed (simp split: option.split)

text \<open>The hourly sweep removes exactly the sweepable directories. A directory whose manifest cannot be
  read counts as expired whatever it holds: also one that belongs to a live session and could not be
  read just now, and one of a bucket upload whose anchor is still there.\<close>

lemma sweep_expired_exact:
  "fmlookup (ur_dirs (fst (sweep_expired env now root))) i =
    (case fmlookup (ur_dirs root) i of
       Some d \<Rightarrow> if se_listed env \<and> sweepable env now i d then None else Some d
     | None \<Rightarrow> None)"
proof -
  have "i \<in> set (map fst (fm_entries (ur_dirs root))) \<longleftrightarrow> fmlookup (ur_dirs root) i \<noteq> None"
    by (force simp: set_fm_entries)
  then show ?thesis
    by (simp add: sweep_expired_def sweep_fold [OF distinct_fm_entries] split: option.split)
qed

end
