(* ===== verification/AttachmentVerify.thy ===== *)
theory AttachmentVerify
  imports ChunkedUpload
begin

text \<open>
  \<open>service/attachment_verify.rs\<close>: the check every first upload passes before it is published. The
  stored ciphertext is read as a stream, opened chunk by chunk, and the digest of the plaintext is
  compared with the identity frozen in the token. The attachment format belongs to the protocol crate
  and is a parameter (\<open>ac\<close>), like the digest. A stream delivers some bytes and then either ends or
  breaks off.

  The lemmas show that an accepted object has exactly the frozen length and plaintext digest, that
  every refusal of content is the same error, and that a stream that breaks off never turns into a
  refusal of an intact object.
\<close>

section \<open>The attachment format\<close>

record attachment_header =
  ah_encryption_key_id :: u8
  ah_chunk_plain_size :: u32
  ah_plaintext_size :: u64
  ah_chunk_count :: u64

text \<open>What the code uses of \<open>privchat_protocol::attachment_crypto\<close>; \<open>'o\<close> is the state of an
  \<open>AttachmentOpener\<close>.\<close>

record 'o attachment_crypto =
  ac_chunk_count_for :: "u64 \<Rightarrow> u32 \<Rightarrow> (u64, string) result"
  ac_sealed_len :: "u64 \<Rightarrow> u32 \<Rightarrow> (u64, string) result"
  ac_header_len :: nat
  ac_nonce_len :: nat
  ac_tag_len :: nat
  ac_format_version :: u8
  ac_parse :: "bytes \<Rightarrow> (attachment_header, string) result"
  ac_expected_chunk_len :: "attachment_header \<Rightarrow> nat \<Rightarrow> (u32, string) result"
  ac_opener :: "bytes \<Rightarrow> bytes \<Rightarrow> ('o, string) result"
  ac_open_chunk :: "'o \<Rightarrow> bytes \<Rightarrow> ('o \<times> bytes, string) result"
  ac_finish :: "'o \<Rightarrow> (unit, string) result"

record frozen_identity =
  fi_plaintext_sha256 :: string
  fi_plaintext_size :: u64
  fi_sealed_size :: u64
  fi_format_version :: u8
  fi_encryption_key_id :: u8
  fi_chunk_plain_size :: u32

text \<open>A reader: the bytes it will deliver, and whether it then ends cleanly.\<close>

record reader =
  rd_bytes :: bytes
  rd_clean :: bool

section \<open>Verification\<close>

definition REJECTION :: server_error where
  "REJECTION = Validation []"

definition IO_FAILURE :: server_error where
  "IO_FAILURE = ServiceUnavailable []"

definition read_exact :: "nat \<Rightarrow> reader \<Rightarrow> (bytes \<times> reader) option" where
  "read_exact n r =
     (if n \<le> length (rd_bytes r) then Some (take n (rd_bytes r), r\<lparr>rd_bytes := drop n (rd_bytes r)\<rparr>) else None)"

text \<open>The loop over the chunks, from \<open>index\<close> on: the final opener, the rest of the reader, the
  ciphertext and the plaintext seen so far.\<close>

fun open_chunks ::
  "'o attachment_crypto \<Rightarrow> attachment_header \<Rightarrow> nat \<Rightarrow> nat \<Rightarrow> 'o \<Rightarrow> reader \<Rightarrow> bytes \<Rightarrow> bytes
     \<Rightarrow> ('o \<times> reader \<times> bytes \<times> bytes, server_error) result" where
  "open_chunks ac header index 0 opener r sealed plain = Ok (opener, r, sealed, plain)"
| "open_chunks ac header index (Suc left) opener r sealed plain =
     (case ac_expected_chunk_len ac header index of
        Err _ \<Rightarrow> Err REJECTION
      | Ok plain_len \<Rightarrow>
          (case read_exact (ac_nonce_len ac + 4 + unat plain_len + ac_tag_len ac) r of
             None \<Rightarrow> Err IO_FAILURE
           | Some (chunk, r') \<Rightarrow>
               (case ac_open_chunk ac opener chunk of
                  Err _ \<Rightarrow> Err REJECTION
                | Ok (opener', p) \<Rightarrow>
                    open_chunks ac header (Suc index) left opener' r' (sealed @ chunk) (plain @ p))))"

definition read_trailing :: "reader \<Rightarrow> (nat, server_error) result" where
  "read_trailing r = (if rd_bytes r \<noteq> [] then Ok 1 else if rd_clean r then Ok 0 else Err IO_FAILURE)"

definition verify_attachment ::
  "'o attachment_crypto \<Rightarrow> (bytes \<Rightarrow> string) \<Rightarrow> reader \<Rightarrow> u64 \<Rightarrow> frozen_identity \<Rightarrow> bytes \<Rightarrow> (string, server_error) result" where
  "verify_attachment ac sha r observed_size frozen site_key =
     (case ac_chunk_count_for ac (fi_plaintext_size frozen) (fi_chunk_plain_size frozen) of
        Err _ \<Rightarrow> Err REJECTION
      | Ok expected_chunks \<Rightarrow>
     (case ac_sealed_len ac (fi_plaintext_size frozen) (fi_chunk_plain_size frozen) of
        Err _ \<Rightarrow> Err REJECTION
      | Ok expected_sealed \<Rightarrow>
     if expected_sealed \<noteq> fi_sealed_size frozen then Err REJECTION
     else if observed_size \<noteq> fi_sealed_size frozen then Err REJECTION
     else
     (case read_exact (ac_header_len ac) r of
        None \<Rightarrow> Err IO_FAILURE
      | Some (header_bytes, r1) \<Rightarrow>
     (case ac_parse ac header_bytes of
        Err _ \<Rightarrow> Err REJECTION
      | Ok header \<Rightarrow>
     if ah_encryption_key_id header \<noteq> fi_encryption_key_id frozen
        \<or> ah_chunk_plain_size header \<noteq> fi_chunk_plain_size frozen
        \<or> ah_plaintext_size header \<noteq> fi_plaintext_size frozen
        \<or> ah_chunk_count header \<noteq> expected_chunks
     then Err REJECTION
     else if fi_format_version frozen \<noteq> ac_format_version ac then Err REJECTION
     else
     (case ac_opener ac header_bytes site_key of
        Err _ \<Rightarrow> Err REJECTION
      | Ok opener \<Rightarrow>
     (case open_chunks ac header 0 (unat expected_chunks) opener r1 header_bytes [] of
        Err e \<Rightarrow> Err e
      | Ok (opener', r2, sealed, plain) \<Rightarrow>
     (case read_trailing r2 of
        Err e \<Rightarrow> Err e
      | Ok n \<Rightarrow>
     if n \<noteq> 0 then Err REJECTION
     else
     (case ac_finish ac opener' of
        Err _ \<Rightarrow> Err REJECTION
      | Ok _ \<Rightarrow>
          if of_nat (length plain) \<noteq> fi_plaintext_size frozen then Err REJECTION
          else if \<not> eq_ignore_ascii_case (sha plain) (fi_plaintext_sha256 frozen) then Err REJECTION
          else Ok (sha sealed)))))))))"

section \<open>What acceptance means\<close>

lemma read_exact_Some: "read_exact n r = Some (b, r') \<Longrightarrow> rd_bytes r = b @ rd_bytes r' \<and> length b = n \<and> rd_clean r' = rd_clean r"
  by (auto simp: read_exact_def split: if_splits)

lemma open_chunks_sealed:
  "open_chunks ac h i left op r sealed plain = Ok (op', r', sealed', plain') \<Longrightarrow>
     sealed' @ rd_bytes r' = sealed @ rd_bytes r \<and> rd_clean r' = rd_clean r"
proof (induction left arbitrary: i op r sealed plain)
  case (Suc left)
  then show ?case by (auto split: result.splits option.splits dest!: read_exact_Some)
qed simp

lemma open_chunks_error: "open_chunks ac h i left op r sealed plain = Err e \<Longrightarrow> e = REJECTION \<or> e = IO_FAILURE"
proof (induction left arbitrary: i op r sealed plain)
  case (Suc left)
  then show ?case by (auto split: result.splits option.splits)
qed simp

lemma verify_error: "verify_attachment ac sha r n frozen key = Err e \<Longrightarrow> e = REJECTION \<or> e = IO_FAILURE"
  by (auto simp: verify_attachment_def read_trailing_def split: result.splits option.splits if_splits prod.splits
      dest: open_chunks_error)

text \<open>An accepted object was read to its end, its ciphertext digest is reported, and the plaintext the
  chunks open to has the frozen digest.\<close>

lemma verify_sound:
  assumes "verify_attachment ac sha r observed frozen key = Ok digest"
  shows "digest = sha (rd_bytes r)" "rd_clean r" "observed = fi_sealed_size frozen"
    and "\<exists>header_bytes r1 header opener opener' r2 plain.
           read_exact (ac_header_len ac) r = Some (header_bytes, r1) \<and> ac_parse ac header_bytes = Ok header
           \<and> ah_encryption_key_id header = fi_encryption_key_id frozen \<and> ah_plaintext_size header = fi_plaintext_size frozen
           \<and> ac_opener ac header_bytes key = Ok opener
           \<and> open_chunks ac header 0 (unat (ah_chunk_count header)) opener r1 header_bytes [] = Ok (opener', r2, rd_bytes r, plain)
           \<and> of_nat (length plain) = fi_plaintext_size frozen
           \<and> eq_ignore_ascii_case (sha plain) (fi_plaintext_sha256 frozen)"
proof -
  obtain hb r1 h op op' r2 sealed plain where v:
      "read_exact (ac_header_len ac) r = Some (hb, r1)" "ac_parse ac hb = Ok h"
      "ah_encryption_key_id h = fi_encryption_key_id frozen" "ah_plaintext_size h = fi_plaintext_size frozen"
      "ac_opener ac hb key = Ok op"
      "open_chunks ac h 0 (unat (ah_chunk_count h)) op r1 hb [] = Ok (op', r2, sealed, plain)"
      "read_trailing r2 = Ok 0" "of_nat (length plain) = fi_plaintext_size frozen"
      "eq_ignore_ascii_case (sha plain) (fi_plaintext_sha256 frozen)" "digest = sha sealed"
      "observed = fi_sealed_size frozen"
    using assms by (auto simp: verify_attachment_def split: result.splits option.splits if_splits prod.splits)
  have r2: "rd_bytes r2 = []" "rd_clean r2" using v(7) by (auto simp: read_trailing_def split: if_splits)
  have "sealed = rd_bytes r" "rd_clean r"
    using open_chunks_sealed [OF v(6)] read_exact_Some [OF v(1)] r2 by simp_all
  with v show "digest = sha (rd_bytes r)" "rd_clean r" "observed = fi_sealed_size frozen"
    "\<exists>header_bytes r1 header opener opener' r2 plain.
           read_exact (ac_header_len ac) r = Some (header_bytes, r1) \<and> ac_parse ac header_bytes = Ok header
           \<and> ah_encryption_key_id header = fi_encryption_key_id frozen \<and> ah_plaintext_size header = fi_plaintext_size frozen
           \<and> ac_opener ac header_bytes key = Ok opener
           \<and> open_chunks ac header 0 (unat (ah_chunk_count header)) opener r1 header_bytes [] = Ok (opener', r2, rd_bytes r, plain)
           \<and> of_nat (length plain) = fi_plaintext_size frozen
           \<and> eq_ignore_ascii_case (sha plain) (fi_plaintext_sha256 frozen)"
    by blast+
qed

section \<open>Broken streams\<close>

definition cut :: "nat \<Rightarrow> bool \<Rightarrow> reader \<Rightarrow> reader" where
  "cut k clean r = \<lparr>rd_bytes = take k (rd_bytes r), rd_clean = clean\<rparr>"

lemma read_exact_cut:
  assumes "read_exact n r = Some (b, r')"
  shows "read_exact n (cut k c r) = (if n \<le> k then Some (b, cut (k - n) c r') else None)"
  using assms by (auto simp: read_exact_def cut_def min_def drop_take split: if_splits)

lemma open_chunks_cut:
  assumes "open_chunks ac h i left op r sealed plain = Ok (op', r', sealed', plain')"
  shows "open_chunks ac h i left op (cut k c r) sealed plain = Err IO_FAILURE
         \<or> (\<exists>k'. open_chunks ac h i left op (cut k c r) sealed plain = Ok (op', cut k' c r', sealed', plain'))"
  using assms
proof (induction left arbitrary: i op r sealed plain k)
  case 0
  then show ?case by auto
next
  case (Suc left)
  obtain n b r1 op1 p where s: "ac_expected_chunk_len ac h i = Ok n"
      "read_exact (ac_nonce_len ac + 4 + unat n + ac_tag_len ac) r = Some (b, r1)"
      "ac_open_chunk ac op b = Ok (op1, p)"
      "open_chunks ac h (Suc i) left op1 r1 (sealed @ b) (plain @ p) = Ok (op', r', sealed', plain')"
    using Suc.prems by (auto split: result.splits option.splits)
  show ?case
    using s(1,3) read_exact_cut [OF s(2), of k c] Suc.IH [OF s(4)] by simp
qed

text \<open>If an object is acceptable, reading any part of it, or all of it without a clean end, gives the
  retryable error and never a refusal.\<close>

lemma broken_stream_is_retryable:
  assumes ok: "verify_attachment ac sha r observed frozen key = Ok digest"
    and broken: "k < length (rd_bytes r) \<or> \<not> c"
  shows "verify_attachment ac sha (cut k c r) observed frozen key = Err IO_FAILURE"
proof -
  obtain hb r1 h op op' r2 sealed plain n where v:
      "ac_chunk_count_for ac (fi_plaintext_size frozen) (fi_chunk_plain_size frozen) = Ok n"
      "ac_sealed_len ac (fi_plaintext_size frozen) (fi_chunk_plain_size frozen) = Ok (fi_sealed_size frozen)"
      "observed = fi_sealed_size frozen"
      "read_exact (ac_header_len ac) r = Some (hb, r1)" "ac_parse ac hb = Ok h"
      "ah_encryption_key_id h = fi_encryption_key_id frozen" "ah_chunk_plain_size h = fi_chunk_plain_size frozen"
      "ah_plaintext_size h = fi_plaintext_size frozen" "ah_chunk_count h = n"
      "fi_format_version frozen = ac_format_version ac" "ac_opener ac hb key = Ok op"
      "open_chunks ac h 0 (unat n) op r1 hb [] = Ok (op', r2, sealed, plain)" "rd_bytes r2 = []"
    using ok by (auto simp: verify_attachment_def read_trailing_def split: result.splits option.splits if_splits prod.splits)
  have sealed: "sealed = rd_bytes r" using open_chunks_sealed [OF v(12)] read_exact_Some [OF v(4)] v(13) by simp
  show ?thesis
  proof (cases "ac_header_len ac \<le> k")
    case False
    then show ?thesis using v by (simp add: verify_attachment_def read_exact_cut [OF v(4)])
  next
    case True
    define r1' where "r1' = cut (k - ac_header_len ac) c r1"
    have re: "read_exact (ac_header_len ac) (cut k c r) = Some (hb, r1')"
      using True by (simp add: read_exact_cut [OF v(4)] r1'_def)
    consider (io) "open_chunks ac h 0 (unat n) op r1' hb [] = Err IO_FAILURE"
      | (all) k' where "open_chunks ac h 0 (unat n) op r1' hb [] = Ok (op', cut k' c r2, rd_bytes r, plain)"
      using open_chunks_cut [OF v(12)] by (auto simp: r1'_def sealed)
    then show ?thesis
    proof cases
      case io
      then show ?thesis using v re by (simp add: verify_attachment_def)
    next
      case all
      have "rd_bytes r @ rd_bytes (cut k' c r2) = hb @ rd_bytes r1'"
        using open_chunks_sealed [OF all] by simp
      also have "\<dots> = rd_bytes (cut k c r)" using read_exact_Some [OF re] by simp
      finally have "length (rd_bytes r) \<le> length (rd_bytes (cut k c r))" by (metis le_add1 length_append)
      then have "\<not> c" using broken by (simp add: cut_def)
      then have "read_trailing (cut k' c r2) = Err IO_FAILURE" using v(13) by (simp add: read_trailing_def cut_def)
      then show ?thesis using v re all by (simp add: verify_attachment_def)
    qed
  qed
qed

text \<open>C32. Verification judges the content and never the transport. When it accepts an object, the
  reported digest is that of the whole stored ciphertext, the stored length is the frozen one, and the
  chunks open to a plaintext of the frozen length and digest under the frozen key. Reading a proper
  part of an acceptable object, or all of it without a clean end, gives the retryable error, whatever
  the attachment format and the digest are.
\<close>
theorem verification_judges_content:
  assumes "verify_attachment ac sha r observed frozen key = Ok digest"
  shows "digest = sha (rd_bytes r) \<and> observed = fi_sealed_size frozen
    \<and> (\<exists>header_bytes r1 header opener opener' r2 plain.
         read_exact (ac_header_len ac) r = Some (header_bytes, r1) \<and> ac_parse ac header_bytes = Ok header
         \<and> ah_encryption_key_id header = fi_encryption_key_id frozen
         \<and> ac_opener ac header_bytes key = Ok opener
         \<and> open_chunks ac header 0 (unat (ah_chunk_count header)) opener r1 header_bytes []
             = Ok (opener', r2, rd_bytes r, plain)
         \<and> of_nat (length plain) = fi_plaintext_size frozen
         \<and> eq_ignore_ascii_case (sha plain) (fi_plaintext_sha256 frozen))
    \<and> (\<forall>k clean. k < length (rd_bytes r) \<or> \<not> clean \<longrightarrow>
         verify_attachment ac sha (cut k clean r) observed frozen key = Err IO_FAILURE)
    \<and> http_status IO_FAILURE \<noteq> http_status REJECTION"
proof -
  have "http_status IO_FAILURE \<noteq> http_status REJECTION" by (simp add: IO_FAILURE_def REJECTION_def)
  then show ?thesis
    using verify_sound [OF assms] broken_stream_is_retryable [OF assms] by blast
qed

text \<open>A format with a one-byte header and chunks of a length field and plain bytes.\<close>

definition demo_crypto :: "unit attachment_crypto" where
  "demo_crypto =
     \<lparr>ac_chunk_count_for = (\<lambda>_ _. Ok 1), ac_sealed_len = (\<lambda>n _. Ok (n + 5)), ac_header_len = 1,
      ac_nonce_len = 0, ac_tag_len = 0, ac_format_version = 1,
      ac_parse = (\<lambda>_. Ok \<lparr>ah_encryption_key_id = 0, ah_chunk_plain_size = 8, ah_plaintext_size = 2, ah_chunk_count = 1\<rparr>),
      ac_expected_chunk_len = (\<lambda>_ _. Ok 2), ac_opener = (\<lambda>_ _. Ok ()),
      ac_open_chunk = (\<lambda>_ c. Ok ((), drop 4 c)), ac_finish = (\<lambda>_. Ok ())\<rparr>"

definition demo_frozen :: frozen_identity where
  "demo_frozen =
     \<lparr>fi_plaintext_sha256 = ''P'', fi_plaintext_size = 2, fi_sealed_size = 7, fi_format_version = 1,
      fi_encryption_key_id = 0, fi_chunk_plain_size = 8\<rparr>"

definition demo_sha :: "bytes \<Rightarrow> string" where
  "demo_sha b = (if b = [7, 9] then ''p'' else ''s'')"

definition demo_reader :: reader where
  "demo_reader = \<lparr>rd_bytes = [0, 0, 0, 0, 0, 7, 9], rd_clean = True\<rparr>"

lemma demo_accepted: "verify_attachment demo_crypto demo_sha demo_reader 7 demo_frozen [] = Ok ''s''"
  by code_simp

theorem verification_judges_content_witness:
  "verify_attachment demo_crypto demo_sha demo_reader 7 demo_frozen [] = Ok ''s''
   \<and> verify_attachment demo_crypto demo_sha (cut 3 True demo_reader) 7 demo_frozen [] = Err IO_FAILURE"
  using verification_judges_content [OF demo_accepted] demo_accepted by (simp add: demo_reader_def)

end
