(* ===== verification/FileRecords.thy ===== *)
theory FileRecords
  imports AttachmentVerify
begin

text \<open>
  File records and their storage: the file types of \<open>model/file_upload.rs\<close>, the tables of attachment
  objects and file uploads with the queries of \<open>repository/file_upload_repo.rs\<close>, and from
  \<open>service/file_service.rs\<close> the access decision, the object paths, the convergence of concurrent first
  uploads, publication without overwriting, and the two ways a finished upload is recorded. A
  transaction works on a copy of the tables that replaces them at the commit. \<open>u64\<close> ids are stored
  as \<open>bigint\<close> by a cast that is undone on reading; the model keeps the \<open>u64\<close>.
\<close>

fun map_ok :: "('a \<Rightarrow> 'b) \<Rightarrow> ('a, 'e) result \<Rightarrow> ('b, 'e) result" where
  "map_ok f (Ok x) = Ok (f x)"
| "map_ok f (Err e) = Err e"

section \<open>File types and paths\<close>

datatype file_type = FtImage | FtVideo | FtVoice | FtFile | FtOther

fun file_type_str :: "file_type \<Rightarrow> string" where
  "file_type_str FtImage = ''image''"
| "file_type_str FtVideo = ''video''"
| "file_type_str FtVoice = ''voice''"
| "file_type_str FtFile = ''file''"
| "file_type_str FtOther = ''other''"

definition file_type_from_str :: "string \<Rightarrow> file_type option" where
  "file_type_from_str s =
     (if s = ''image'' then Some FtImage else if s = ''video'' then Some FtVideo
      else if s = ''voice'' then Some FtVoice else if s = ''file'' then Some FtFile
      else if s = ''other'' then Some FtOther else None)"

fun max_size_bytes :: "file_type \<Rightarrow> u64" where
  "max_size_bytes FtImage = 10 * (1024 * 1024)"
| "max_size_bytes FtVideo = 100 * (1024 * 1024)"
| "max_size_bytes FtVoice = 10 * (1024 * 1024)"
| "max_size_bytes FtFile = 50 * (1024 * 1024)"
| "max_size_bytes FtOther = 10 * (1024 * 1024)"

definition max_size_bytes_any :: u64 where
  "max_size_bytes_any =
     fold (\<lambda>t m. if m < max_size_bytes t then max_size_bytes t else m) [FtVideo, FtVoice, FtFile, FtOther]
       (max_size_bytes FtImage)"

definition http_body_limit_bytes :: u64 where
  "http_body_limit_bytes = max_size_bytes_any + 4 * 1024 * 1024"

fun subdir_of :: "file_type \<Rightarrow> string" where
  "subdir_of FtImage = ''images''"
| "subdir_of FtVideo = ''videos''"
| "subdir_of FtVoice = ''voices''"
| "subdir_of FtFile = ''files''"
| "subdir_of FtOther = ''others''"

text \<open>\<open>filename.split('.').last()\<close>: what follows the last dot, or the whole name.\<close>

definition extension_of :: "string \<Rightarrow> string" where
  "extension_of filename = rev (takeWhile (\<lambda>ch. ch \<noteq> CHR ''.'') (rev filename))"

definition generate_file_path :: "string \<Rightarrow> file_type \<Rightarrow> string \<Rightarrow> string" where
  "generate_file_path content_sha256 ft filename =
     (let extension = extension_of filename; subdir = subdir_of ft; hash = to_ascii_lowercase content_sha256
      in if length hash < 4 \<or> \<not> list_all is_ascii_hexdigit hash
         then subdir @ ''/'' @ hash @ ''.'' @ extension
         else subdir @ ''/'' @ take 2 hash @ ''/'' @ take 2 (drop 2 hash) @ ''/'' @ hash @ ''.'' @ extension)"

text \<open>\<open>S3DirectUploadWiring::object_key\<close>.\<close>

definition object_key :: "string \<Rightarrow> string \<Rightarrow> string" where
  "object_key path_prefix file_path = (if path_prefix = [] then file_path else path_prefix @ ''/'' @ file_path)"

definition strip_storage_prefix :: "string option \<Rightarrow> string \<Rightarrow> string" where
  "strip_storage_prefix pre file_path =
     (case pre of
        Some p \<Rightarrow> (case strip_prefix p file_path of
                     Some rest \<Rightarrow> dropWhile (\<lambda>ch. ch = CHR ''/'') rest
                   | None \<Rightarrow> file_path)
      | None \<Rightarrow> file_path)"

definition apply_storage_prefix :: "string option \<Rightarrow> string \<Rightarrow> string" where
  "apply_storage_prefix pre file_path =
     (case pre of
        Some p \<Rightarrow> if \<not> prefix (p @ ''/'') file_path
                  then p @ ''/'' @ dropWhile (\<lambda>ch. ch = CHR ''/'') file_path else file_path
      | None \<Rightarrow> file_path)"

section \<open>Access\<close>

record file_access_facts =
  fa_requester_id :: user_id
  fa_uploader_id :: user_id
  fa_has_any_reference :: bool
  fa_member_of_live_reference :: bool

definition authorize_file_access :: "file_access_facts \<Rightarrow> bool" where
  "authorize_file_access facts =
     (if fa_has_any_reference facts then fa_member_of_live_reference facts
      else fa_requester_id facts = fa_uploader_id facts)"

section \<open>Tables\<close>

record attachment_object =
  ao_plaintext_sha256 :: string
  ao_plaintext_size :: u64
  ao_sealed_sha256 :: string
  ao_sealed_size :: u64
  ao_file_path :: string
  ao_storage_source_id :: u32
  ao_format_version :: u8
  ao_encryption_key_id :: u8

record file_row =
  fl_original_filename :: string
  fl_file_type :: string
  fl_mime_type :: string
  fl_object_id :: u64
  fl_uploader_id :: user_id
  fl_uploader_ip :: "string option"
  fl_uploaded_at :: int
  fl_business_type :: "string option"
  fl_business_id :: "string option"
  fl_claim_key_hash :: "string option"

record file_db =
  db_objects :: "(u64, attachment_object) fmap"
  db_files :: "(u64, file_row) fmap"
  db_next_object :: u64
  db_next_file :: u64

record file_metadata =
  fm_file_id :: u64
  fm_original_filename :: string
  fm_file_type :: file_type
  fm_mime_type :: string
  fm_uploader_id :: user_id
  fm_uploader_ip :: "string option"
  fm_uploaded_at :: int
  fm_business_type :: "string option"
  fm_business_id :: "string option"
  fm_object_id :: u64
  fm_object :: attachment_object

text \<open>The statements of a recording transaction. A lock that cannot be taken may have timed out
  (\<open>de_lock_timeout\<close>); a commit whose answer is lost may have taken effect (\<open>de_committed\<close>);
  \<open>de_wait\<close> is what other transactions commit while this one waits for the object lock.\<close>

datatype db_op =
    DbBegin | DbSetTimeout | DbContentLock | DbFindObject | DbObjectLock | DbRecheck | DbInsertObject
  | DbRereadObject | DbInsertFile | DbReadBack | DbCommit | DbNextId | DbInsertRef | DbReadRef

record db_env =
  de_up :: "db_op \<Rightarrow> bool"
  de_lock_timeout :: bool
  de_committed :: bool
  de_wait :: "file_db \<Rightarrow> file_db"

definition map_lock_error :: "db_env \<Rightarrow> server_error" where
  "map_lock_error env = (if de_lock_timeout env then ServiceUnavailable [] else Database [])"

definition find_object :: "string \<Rightarrow> file_db \<Rightarrow> (u64 \<times> attachment_object) option" where
  "find_object digest db = List.find (\<lambda>(_, ob). ao_plaintext_sha256 ob = digest) (fm_entries (db_objects db))"

definition find_object_at :: "u32 \<Rightarrow> string \<Rightarrow> file_db \<Rightarrow> (u64 \<times> attachment_object) option" where
  "find_object_at src path db =
     List.find (\<lambda>(_, ob). ao_storage_source_id ob = src \<and> ao_file_path ob = path) (fm_entries (db_objects db))"

text \<open>\<open>get_by_file_id_within\<close>: the row joined with its object.\<close>

definition get_by_file_id :: "u64 \<Rightarrow> file_db \<Rightarrow> file_metadata option" where
  "get_by_file_id file_id db =
     (case fmlookup (db_files db) file_id of
        None \<Rightarrow> None
      | Some r \<Rightarrow>
          (case fmlookup (db_objects db) (fl_object_id r) of
             None \<Rightarrow> None
           | Some ob \<Rightarrow> Some
               \<lparr>fm_file_id = file_id, fm_original_filename = fl_original_filename r,
                fm_file_type = (case file_type_from_str (fl_file_type r) of Some t \<Rightarrow> t | None \<Rightarrow> FtOther),
                fm_mime_type = fl_mime_type r, fm_uploader_id = fl_uploader_id r,
                fm_uploader_ip = fl_uploader_ip r, fm_uploaded_at = fl_uploaded_at r,
                fm_business_type = fl_business_type r, fm_business_id = fl_business_id r,
                fm_object_id = fl_object_id r, fm_object = ob\<rparr>))"

definition get_file_metadata :: "bool \<Rightarrow> u64 \<Rightarrow> file_db \<Rightarrow> (file_metadata option, server_error) result" where
  "get_file_metadata up file_id db = (if up then Ok (get_by_file_id file_id db) else Err (Database []))"

definition find_claimed :: "user_id \<Rightarrow> string \<Rightarrow> file_db \<Rightarrow> u64 option" where
  "find_claimed uploader key db =
     map_option fst (List.find (\<lambda>(_, r). fl_uploader_id r = uploader \<and> fl_claim_key_hash r = Some key)
       (fm_entries (db_files db)))"

section \<open>Convergence of concurrent first uploads\<close>

record upload_placement =
  up_plaintext_sha256 :: string
  up_plaintext_size :: u64
  up_sealed_sha256 :: string
  up_sealed_size :: u64
  up_my_path :: string
  up_my_source_id :: u32
  up_format_version :: u8
  up_encryption_key_id :: u8

record resolved_placement =
  rp_object_id :: u64
  rp_file_path :: string
  rp_storage_source_id :: u32
  rp_format_version :: u8
  rp_encryption_key_id :: u8
  rp_duplicate :: bool

definition sha256_text :: "string \<Rightarrow> bool" where
  "sha256_text s \<longleftrightarrow> length s = 64 \<and> list_all (\<lambda>ch. is_ascii_hexdigit ch \<and> ascii_lower_char ch = ch) s"

definition object_of :: "upload_placement \<Rightarrow> attachment_object" where
  "object_of p =
     \<lparr>ao_plaintext_sha256 = up_plaintext_sha256 p, ao_plaintext_size = up_plaintext_size p,
      ao_sealed_sha256 = up_sealed_sha256 p, ao_sealed_size = up_sealed_size p,
      ao_file_path = up_my_path p, ao_storage_source_id = up_my_source_id p,
      ao_format_version = up_format_version p, ao_encryption_key_id = up_encryption_key_id p\<rparr>"

text \<open>The insert with its \<open>CHECK\<close> constraints and the two unique indexes, of which only the one on
  the path is covered by \<open>ON CONFLICT\<close>. The outer result is a failing statement, the inner option
  a conflicting path.\<close>

definition insert_object ::
  "upload_placement \<Rightarrow> file_db \<Rightarrow> (file_db \<times> u64 option, server_error) result" where
  "insert_object p db =
     (if \<not> (sha256_text (up_plaintext_sha256 p) \<and> sha256_text (up_sealed_sha256 p) \<and> up_format_version p = 1)
      then Err (Database [])
      else if find_object_at (up_my_source_id p) (up_my_path p) db \<noteq> None then Ok (db, None)
      else if find_object (up_plaintext_sha256 p) db \<noteq> None then Err (Database [])
      else let i = db_next_object db
           in Ok (db\<lparr>db_objects := fmupd i (object_of p) (db_objects db), db_next_object := i + 1\<rparr>, Some i))"

definition placed_at :: "u64 \<Rightarrow> attachment_object \<Rightarrow> resolved_placement" where
  "placed_at i ob =
     \<lparr>rp_object_id = i, rp_file_path = ao_file_path ob, rp_storage_source_id = ao_storage_source_id ob,
      rp_format_version = ao_format_version ob, rp_encryption_key_id = ao_encryption_key_id ob, rp_duplicate = True\<rparr>"

text \<open>Registering the upload's own object, when no other one was found.\<close>

definition register_object ::
  "db_env \<Rightarrow> upload_placement \<Rightarrow> file_db \<Rightarrow> (file_db \<times> resolved_placement, server_error) result" where
  "register_object env p db =
     (if \<not> de_up env DbInsertObject then Err (Database [])
      else case insert_object p db of
             Err e \<Rightarrow> Err e
           | Ok (db', Some i) \<Rightarrow>
               Ok (db', \<lparr>rp_object_id = i, rp_file_path = up_my_path p, rp_storage_source_id = up_my_source_id p,
                         rp_format_version = up_format_version p, rp_encryption_key_id = up_encryption_key_id p,
                         rp_duplicate = False\<rparr>)
           | Ok (db', None) \<Rightarrow>
               if \<not> de_up env DbRereadObject then Err (Database [])
               else (case find_object_at (up_my_source_id p) (up_my_path p) db' of
                       None \<Rightarrow> Err (Database [])
                     | Some (i, ob) \<Rightarrow> Ok (db', (placed_at i ob)\<lparr>rp_file_path := up_my_path p,
                                                                 rp_storage_source_id := up_my_source_id p\<rparr>)))"

text \<open>The first component is the committed state the transaction leaves when it is rolled back.\<close>

definition converge_upload ::
  "db_env \<Rightarrow> upload_placement \<Rightarrow> file_db \<Rightarrow> file_db \<times> (file_db \<times> resolved_placement, server_error) result" where
  "converge_upload env p db =
     (if \<not> de_up env DbSetTimeout then (db, Err (Database []))
      else if \<not> de_up env DbContentLock then (db, Err (map_lock_error env))
      else if \<not> de_up env DbFindObject then (db, Err (Database []))
      else case find_object (up_plaintext_sha256 p) db of
             None \<Rightarrow> (db, register_object env p db)
           | Some (i, _) \<Rightarrow>
               if \<not> de_up env DbObjectLock then (db, Err (map_lock_error env))
               else let db' = de_wait env db
                    in if \<not> de_up env DbRecheck then (db', Err (Database []))
                       else (case fmlookup (db_objects db') i of
                               Some ob \<Rightarrow> (db', Ok (db', placed_at i ob))
                             | None \<Rightarrow> (db', register_object env p db')))"

section \<open>Publication\<close>

text \<open>Stored objects by storage source and path. The staged bytes of an upload are kept apart: they
  are a file of the session directory or an object under a temporary path.\<close>

type_synonym stored = "(u32 \<times> string, bytes) fmap"

text \<open>The fields of \<open>FileStorageSourceConfig\<close> the modelled code reads; the record is stored under its id.\<close>

record storage_source =
  ss_storage_type :: string
  ss_base_url :: "string option"
  ss_endpoint :: "string option"
  ss_bucket :: "string option"
  ss_path_prefix :: "string option"
  ss_addressing_style :: "string option"

record file_service =
  fs_sources :: "(u32, storage_source) fmap"
  fs_default :: u32
  fs_operators :: "u32 fset"

definition resolve_storage_source :: "file_service \<Rightarrow> (storage_source, server_error) result" where
  "resolve_storage_source fs =
     (case fmlookup (fs_sources fs) (fs_default fs) of Some src \<Rightarrow> Ok src | None \<Rightarrow> Err (Internal []))"

text \<open>\<open>local_root_of\<close>, of which only the presence of the root is used here.\<close>

definition is_local_source :: "file_service \<Rightarrow> u32 \<Rightarrow> bool" where
  "is_local_source fs source_id =
     (case fmlookup (fs_sources fs) source_id of Some src \<Rightarrow> ss_storage_type src = ''local'' | None \<Rightarrow> False)"

definition trim_slashes :: "string \<Rightarrow> string" where
  "trim_slashes s = rev (dropWhile (\<lambda>ch. ch = CHR ''/'') (rev (dropWhile (\<lambda>ch. ch = CHR ''/'') s)))"

definition trim_end_slashes :: "string \<Rightarrow> string" where
  "trim_end_slashes s = rev (dropWhile (\<lambda>ch. ch = CHR ''/'') (rev s))"

definition path_prefix_of :: "file_service \<Rightarrow> u32 \<Rightarrow> string option" where
  "path_prefix_of fs source_id =
     (case fmlookup (fs_sources fs) source_id of
        None \<Rightarrow> None
      | Some src \<Rightarrow>
          (case ss_path_prefix src of
             None \<Rightarrow> None
           | Some raw \<Rightarrow> let p = trim_slashes (trim raw) in if p = [] then None else Some p))"

definition split_scheme :: "string \<Rightarrow> string \<times> string" where
  "split_scheme endpoint =
     (case List.find (\<lambda>i. take 3 (drop i endpoint) = ''://'') [0..<length endpoint] of
        Some i \<Rightarrow> (take i endpoint, drop (i + 3) endpoint)
      | None \<Rightarrow> (''https'', endpoint))"

definition build_access_url :: "file_service \<Rightarrow> string \<Rightarrow> u32 \<Rightarrow> string" where
  "build_access_url fs stored_path source_id =
     (let file_path = apply_storage_prefix (path_prefix_of fs source_id) stored_path
      in case fmlookup (fs_sources fs) source_id of
           None \<Rightarrow> ''{unsupported:storage_source_id='' @ show_nat (unat source_id) @ ''}''
         | Some src \<Rightarrow>
             (case ss_base_url src of
                Some base_url \<Rightarrow> trim_end_slashes base_url @ ''/'' @ file_path
              | None \<Rightarrow>
                  (case (ss_endpoint src, ss_bucket src) of
                     (Some endpoint, Some bucket) \<Rightarrow>
                       if ss_storage_type src = ''s3''
                       then let (scheme, host) = split_scheme (trim_end_slashes endpoint)
                            in if ss_addressing_style src = Some ''virtual''
                               then scheme @ ''://'' @ bucket @ ''.'' @ host @ ''/'' @ file_path
                               else scheme @ ''://'' @ host @ ''/'' @ bucket @ ''/'' @ file_path
                       else ''/'' @ file_path
                   | _ \<Rightarrow> ''/'' @ file_path)))"

datatype publish_outcome = Published | AlreadyThere

datatype pub_op =
    PbDir | PbSyncFile | PbLink | PbSyncDir | PbRemove | PbTemp | PbCopy | PbStat | PbOpen | PbWrite | PbClose
  | PbVerifyStat | PbVerifyRead

text \<open>\<open>pe_cross\<close>: linking crosses a file system boundary; \<open>pe_conditional\<close>: the backend supports
  conditional writes.\<close>

record pub_env =
  pe_up :: "pub_op \<Rightarrow> bool"
  pe_cross :: bool
  pe_conditional :: bool

text \<open>Linking the final name; the link fails when the name is taken, so nothing is overwritten.\<close>

definition link_final ::
  "pub_env \<Rightarrow> u32 \<times> string \<Rightarrow> bytes \<Rightarrow> stored \<times> bytes option \<Rightarrow> (stored \<times> bytes option) \<times> (publish_outcome, server_error) result" where
  "link_final env k content st =
     (case st of (objs, staged) \<Rightarrow>
        if \<not> pe_up env PbLink then (st, Err (Internal []))
        else if k \<in> fset (fmdom objs) then (st, Ok AlreadyThere)
        else if \<not> pe_up env PbSyncDir then ((fmupd k content objs, staged), Err (Internal []))
        else ((fmupd k content objs, if pe_up env PbRemove then None else staged), Ok Published))"

definition publish_across_filesystems ::
  "pub_env \<Rightarrow> u32 \<times> string \<Rightarrow> bytes \<Rightarrow> stored \<times> bytes option \<Rightarrow> (stored \<times> bytes option) \<times> (publish_outcome, server_error) result" where
  "publish_across_filesystems env k content st =
     (if \<not> pe_up env PbTemp \<or> \<not> pe_up env PbCopy then (st, Err (Internal [])) else link_final env k content st)"

definition publish_object_local ::
  "pub_env \<Rightarrow> u32 \<times> string \<Rightarrow> stored \<times> bytes option \<Rightarrow> (stored \<times> bytes option) \<times> (publish_outcome, server_error) result" where
  "publish_object_local env k st =
     (if \<not> pe_up env PbDir then (st, Err (Internal []))
      else case snd st of
             None \<Rightarrow> (st, Err (Internal []))
           | Some content \<Rightarrow>
               if \<not> pe_up env PbSyncFile then (st, Err (Internal []))
               else if pe_cross env then publish_across_filesystems env k content st
               else link_final env k content st)"

definition publish_object ::
  "pub_env \<Rightarrow> bool \<Rightarrow> u32 \<times> string \<Rightarrow> stored \<times> bytes option \<Rightarrow> (stored \<times> bytes option) \<times> (publish_outcome, server_error) result" where
  "publish_object env is_local k st =
     (if is_local then publish_object_local env k st
      else if \<not> pe_conditional env then (st, Err (Internal []))
      else case snd st of
             None \<Rightarrow> (st, Err (Internal []))
           | Some content \<Rightarrow>
               if \<not> pe_up env PbStat \<or> \<not> pe_up env PbOpen then (st, Err (Internal []))
               else if k \<in> fset (fmdom (fst st)) then (st, Ok AlreadyThere)
               else if \<not> pe_up env PbWrite \<or> \<not> pe_up env PbClose then (st, Err (Internal []))
               else ((fmupd k content (fst st), if pe_up env PbRemove then None else Some content), Ok Published))"

definition verify_object ::
  "pub_env \<Rightarrow> (bytes \<Rightarrow> string) \<Rightarrow> stored \<Rightarrow> u32 \<times> string \<Rightarrow> u64 \<Rightarrow> string \<Rightarrow> (bool, server_error) result" where
  "verify_object env sha objs k expect_size expect_sha256 =
     (case fmlookup objs k of
        None \<Rightarrow> Ok False
      | Some content \<Rightarrow>
          if \<not> pe_up env PbVerifyStat then Ok False
          else if of_nat (length content) \<noteq> expect_size then Ok False
          else if \<not> pe_up env PbVerifyRead then Err (Internal [])
          else Ok (eq_ignore_ascii_case (sha content) expect_sha256))"

section \<open>Recording\<close>

record staged_object =
  so_file_id :: u64
  so_file_path :: string
  so_source_id :: u32
  so_file_type :: file_type
  so_written :: u64
  so_stored_sha256 :: string

record record_fields =
  rf_filename :: string
  rf_mime_type :: string
  rf_uploader_id :: user_id
  rf_uploader_ip :: "string option"
  rf_business_type :: string
  rf_business_id :: "string option"
  rf_plaintext_sha256 :: string
  rf_plaintext_size :: u64
  rf_format_version :: u8
  rf_encryption_key_id :: u8
  rf_chunk_plain_size :: u32
  rf_sealed_size :: u64

definition frozen_of :: "record_fields \<Rightarrow> frozen_identity" where
  "frozen_of f =
     \<lparr>fi_plaintext_sha256 = rf_plaintext_sha256 f, fi_plaintext_size = rf_plaintext_size f,
      fi_sealed_size = rf_sealed_size f, fi_format_version = rf_format_version f,
      fi_encryption_key_id = rf_encryption_key_id f, fi_chunk_plain_size = rf_chunk_plain_size f\<rparr>"

definition new_metadata ::
  "int \<Rightarrow> u64 \<Rightarrow> file_type \<Rightarrow> string \<Rightarrow> u64 \<Rightarrow> record_fields \<Rightarrow> resolved_placement \<Rightarrow> file_metadata" where
  "new_metadata now file_id ft sealed_sha256 sealed_size f pl =
     \<lparr>fm_file_id = file_id, fm_original_filename = rf_filename f, fm_file_type = ft, fm_mime_type = rf_mime_type f,
      fm_uploader_id = rf_uploader_id f, fm_uploader_ip = rf_uploader_ip f, fm_uploaded_at = now,
      fm_business_type = Some (rf_business_type f), fm_business_id = rf_business_id f,
      fm_object_id = rp_object_id pl,
      fm_object = \<lparr>ao_plaintext_sha256 = rf_plaintext_sha256 f, ao_plaintext_size = rf_plaintext_size f,
        ao_sealed_sha256 = sealed_sha256, ao_sealed_size = sealed_size, ao_file_path = rp_file_path pl,
        ao_storage_source_id = rp_storage_source_id pl, ao_format_version = rp_format_version pl,
        ao_encryption_key_id = rp_encryption_key_id pl\<rparr>\<rparr>"

text \<open>\<open>insert_within\<close>: the flag says whether the row was new.\<close>

definition insert_within :: "file_metadata \<Rightarrow> file_db \<Rightarrow> file_db \<times> bool" where
  "insert_within meta db =
     (if fm_file_id meta \<in> fset (fmdom (db_files db)) then (db, False)
      else (db\<lparr>db_files := fmupd (fm_file_id meta)
                 \<lparr>fl_original_filename = fm_original_filename meta, fl_file_type = file_type_str (fm_file_type meta),
                  fl_mime_type = fm_mime_type meta, fl_object_id = fm_object_id meta,
                  fl_uploader_id = fm_uploader_id meta, fl_uploader_ip = fm_uploader_ip meta,
                  fl_uploaded_at = fm_uploaded_at meta, fl_business_type = fm_business_type meta,
                  fl_business_id = fm_business_id meta, fl_claim_key_hash = None\<rparr> (db_files db)\<rparr>, True))"

text \<open>The common end of both recording paths: insert the row, or recognise the one an earlier attempt
  inserted, and commit. The first database is the state before the transaction.\<close>

definition insert_or_recognise ::
  "db_env \<Rightarrow> file_metadata \<Rightarrow> file_db \<Rightarrow> file_db \<Rightarrow> file_db \<times> (file_metadata, server_error) result" where
  "insert_or_recognise env meta before db =
     (if \<not> de_up env DbInsertFile then (before, Err (Database []))
      else let (db', inserted) = insert_within meta db;
               res = (if inserted then Ok meta
                      else if \<not> de_up env DbReadBack then Err (Database [])
                      else (case get_by_file_id (fm_file_id meta) db' of
                              None \<Rightarrow> Err (Internal [])
                            | Some existing \<Rightarrow>
                                if fm_uploader_id existing = fm_uploader_id meta
                                   \<and> fm_object_id existing = fm_object_id meta
                                   \<and> fm_file_type existing = fm_file_type meta
                                then Ok existing else Err (Internal [])))
           in (case res of
                 Err e \<Rightarrow> (before, Err e)
               | Ok m \<Rightarrow>
                   if de_up env DbCommit then (db', Ok m)
                   else (if de_committed env then db' else before, Err (Database []))))"

definition placement_of :: "staged_object \<Rightarrow> record_fields \<Rightarrow> upload_placement" where
  "placement_of staged f =
     \<lparr>up_plaintext_sha256 = rf_plaintext_sha256 f, up_plaintext_size = rf_plaintext_size f,
      up_sealed_sha256 = so_stored_sha256 staged, up_sealed_size = so_written staged,
      up_my_path = so_file_path staged, up_my_source_id = so_source_id staged,
      up_format_version = rf_format_version f, up_encryption_key_id = rf_encryption_key_id f\<rparr>"

text \<open>Publishing the staged bytes, or recognising that an earlier attempt published them. \<open>has_op\<close>
  says that the source has an operator, \<open>rm\<close> that removing the staged bytes succeeds.\<close>

definition publish_or_recognise ::
  "pub_env \<Rightarrow> (bytes \<Rightarrow> string) \<Rightarrow> bool \<Rightarrow> bool \<Rightarrow> bool \<Rightarrow> staged_object \<Rightarrow> stored \<times> bytes option
     \<Rightarrow> (stored \<times> bytes option) \<times> (unit, server_error) result" where
  "publish_or_recognise env sha has_op rm is_local staged st =
     (if \<not> has_op then (st, Err (Internal []))
      else let k = (so_source_id staged, so_file_path staged)
           in (case publish_object env is_local k st of
                 (st', Err e) \<Rightarrow> (st', Err e)
               | (st', Ok Published) \<Rightarrow> (st', Ok ())
               | (st', Ok AlreadyThere) \<Rightarrow>
                   (case verify_object env sha (fst st') k (so_written staged) (so_stored_sha256 staged) of
                      Err e \<Rightarrow> (st', Err e)
                    | Ok False \<Rightarrow> (st', Err (Internal []))
                    | Ok True \<Rightarrow> ((fst st', if rm then None else snd st'), Ok ()))))"

definition publish_and_record ::
  "pub_env \<Rightarrow> db_env \<Rightarrow> (bytes \<Rightarrow> string) \<Rightarrow> int \<Rightarrow> bool \<Rightarrow> bool \<Rightarrow> bool \<Rightarrow> staged_object \<Rightarrow> record_fields
     \<Rightarrow> (stored \<times> bytes option) \<times> file_db \<Rightarrow> ((stored \<times> bytes option) \<times> file_db) \<times> (file_metadata, server_error) result" where
  "publish_and_record pub env sha now has_op rm is_local staged f w =
     (case w of (st, db) \<Rightarrow>
        if \<not> de_up env DbBegin then (w, Err (Database []))
        else (case converge_upload env (placement_of staged f) db of
                (base, Err e) \<Rightarrow> ((st, base), Err e)
              | (base, Ok (db1, pl)) \<Rightarrow>
                  let (st', published) =
                        (if rp_duplicate pl then ((fst st, if has_op \<and> rm then None else snd st), Ok ())
                         else publish_or_recognise pub sha has_op rm is_local staged st)
                  in (case published of
                        Err e \<Rightarrow> ((st', base), Err e)
                      | Ok _ \<Rightarrow>
                          let meta = new_metadata now (so_file_id staged) (so_file_type staged)
                                       (so_stored_sha256 staged) (so_written staged) f pl;
                              (db', r) = insert_or_recognise env meta base db1
                          in ((st', db'), r))))"

text \<open>\<open>record_s3_published\<close>: the object is already in the bucket; only the convergence and the
  row are left. A duplicate is reported back unless the caller allows it.\<close>

datatype s3_record_outcome = Recorded file_metadata | DuplicateObject

definition record_s3_published ::
  "file_service \<Rightarrow> db_env \<Rightarrow> int \<Rightarrow> chunked_session \<Rightarrow> string \<Rightarrow> record_fields \<Rightarrow> bool \<Rightarrow> file_db
     \<Rightarrow> file_db \<times> (s3_record_outcome, server_error) result" where
  "record_s3_published fs env now session stored_sha256 f allow_duplicate db =
     (let m = cs_manifest session
      in case (mf_final_key m, mf_storage_source_id m) of
           (Some final_key, Some source_id) \<Rightarrow>
             (case fmlookup (fs_sources fs) source_id of
                None \<Rightarrow> (db, Err (Internal []))
              | Some source \<Rightarrow>
                  (case mf_bucket m of
                     None \<Rightarrow> (db, Err (Internal []))
                   | Some bucket \<Rightarrow>
                       if ss_bucket source \<noteq> Some bucket then (db, Err (Internal []))
                       else if \<not> de_up env DbBegin then (db, Err (Database []))
                       else let ft = (case file_type_from_str (mf_file_type m) of Some t \<Rightarrow> t | None \<Rightarrow> FtFile);
                                p = \<lparr>up_plaintext_sha256 = rf_plaintext_sha256 f, up_plaintext_size = rf_plaintext_size f,
                                     up_sealed_sha256 = stored_sha256, up_sealed_size = mf_total_size m,
                                     up_my_path = final_key, up_my_source_id = source_id,
                                     up_format_version = rf_format_version f, up_encryption_key_id = rf_encryption_key_id f\<rparr>
                            in (case converge_upload env p db of
                                  (base, Err e) \<Rightarrow> (base, Err e)
                                | (base, Ok (db1, pl)) \<Rightarrow>
                                    if rp_duplicate pl \<and> \<not> allow_duplicate then (base, Ok DuplicateObject)
                                    else let meta = new_metadata now (mf_reserved_file_id m) ft stored_sha256 (mf_total_size m) f pl;
                                             (db', r) = insert_or_recognise env meta base db1
                                         in (db', map_ok Recorded r))))
         | _ \<Rightarrow> (db, Err (Internal [])))"

text \<open>\<open>create_reference\<close>: another reference to an object that is already stored; the key makes a
  repeated claim return the first row.\<close>

definition create_reference ::
  "db_env \<Rightarrow> int \<Rightarrow> u64 \<Rightarrow> user_id \<Rightarrow> string \<Rightarrow> file_type \<Rightarrow> string \<Rightarrow> string \<Rightarrow> string option \<Rightarrow> file_db
     \<Rightarrow> file_db \<times> (u64, server_error) result" where
  "create_reference env now object_id uploader filename ft mime btype claim_key db =
     (if \<not> de_up env DbNextId then (db, Err (Database []))
      else let file_id = db_next_file db; db0 = db\<lparr>db_next_file := file_id + 1\<rparr>
           in if \<not> de_up env DbBegin \<or> \<not> de_up env DbSetTimeout then (db0, Err (Database []))
              else if \<not> de_up env DbObjectLock then (db0, Err (map_lock_error env))
              else let db1 = de_wait env db0
                   in if \<not> de_up env DbRecheck then (db1, Err (Database []))
                      else if fmlookup (db_objects db1) object_id = None then (db1, Err (NotFound []))
                      else if \<not> de_up env DbInsertRef then (db1, Err (Database []))
                      else if file_id \<in> fset (fmdom (db_files db1)) then (db1, Err (Database []))
                      else let taken = (case claim_key of None \<Rightarrow> None | Some key \<Rightarrow> find_claimed uploader key db1);
                               db2 = (if taken \<noteq> None then db1
                                      else db1\<lparr>db_files := fmupd file_id
                                             \<lparr>fl_original_filename = filename, fl_file_type = file_type_str ft,
                                              fl_mime_type = mime, fl_object_id = object_id, fl_uploader_id = uploader,
                                              fl_uploader_ip = None, fl_uploaded_at = now, fl_business_type = Some btype,
                                              fl_business_id = None, fl_claim_key_hash = claim_key\<rparr> (db_files db1)\<rparr>);
                               r = (case claim_key of None \<Rightarrow> file_id
                                    | Some key \<Rightarrow> (case find_claimed uploader key db2 of Some i \<Rightarrow> i | None \<Rightarrow> file_id))
                           in if claim_key \<noteq> None \<and> \<not> de_up env DbReadRef then (db1, Err (Database []))
                              else if de_up env DbCommit then (db2, Ok r)
                              else (if de_committed env then db2 else db1, Err (Database [])))"

section \<open>Invariants of the tables\<close>

text \<open>The keys of the schema: rows refer to existing objects, no two objects have the same plaintext
  digest or the same place, the sequence is ahead of all object ids.\<close>

definition tables_ok :: "file_db \<Rightarrow> bool" where
  "tables_ok db \<longleftrightarrow>
     (\<forall>i r. fmlookup (db_files db) i = Some r \<longrightarrow> fl_object_id r \<in> fset (fmdom (db_objects db)))
     \<and> (\<forall>i j a b. fmlookup (db_objects db) i = Some a \<longrightarrow> fmlookup (db_objects db) j = Some b \<longrightarrow>
          ao_plaintext_sha256 a = ao_plaintext_sha256 b
          \<or> (ao_storage_source_id a = ao_storage_source_id b \<and> ao_file_path a = ao_file_path b) \<longrightarrow> i = j)
     \<and> (\<forall>i\<in>fset (fmdom (db_objects db)). i < db_next_object db)"

text \<open>Every object row points at stored bytes of the recorded size and digest.\<close>

definition backed :: "(bytes \<Rightarrow> string) \<Rightarrow> stored \<Rightarrow> attachment_object \<Rightarrow> bool" where
  "backed sha objs ob \<longleftrightarrow>
     (\<exists>content. fmlookup objs (ao_storage_source_id ob, ao_file_path ob) = Some content
        \<and> of_nat (length content) = ao_sealed_size ob \<and> eq_ignore_ascii_case (sha content) (ao_sealed_sha256 ob))"

definition all_backed :: "(bytes \<Rightarrow> string) \<Rightarrow> stored \<Rightarrow> file_db \<Rightarrow> bool" where
  "all_backed sha objs db \<longleftrightarrow> (\<forall>i ob. fmlookup (db_objects db) i = Some ob \<longrightarrow> backed sha objs ob)"

definition only_grows :: "stored \<Rightarrow> stored \<Rightarrow> bool" where
  "only_grows objs objs' \<longleftrightarrow> (\<forall>k c. fmlookup objs k = Some c \<longrightarrow> fmlookup objs' k = Some c)"

lemma only_grows_refl [simp]: "only_grows objs objs"
  by (simp add: only_grows_def)

lemma only_grows_new: "k \<notin> fset (fmdom objs) \<Longrightarrow> only_grows objs (fmupd k c objs)"
  by (auto simp: only_grows_def fmlookup_dom_iff)

lemma all_backed_grow: "all_backed sha objs db \<Longrightarrow> only_grows objs objs' \<Longrightarrow> all_backed sha objs' db"
  unfolding all_backed_def backed_def only_grows_def by blast

lemma find_SomeD: "List.find P xs = Some x \<Longrightarrow> x \<in> set xs \<and> P x"
  by (metis find_Some_iff nth_mem)

lemma find_object_Some:
  assumes "find_object digest db = Some (i, ob)"
  shows "fmlookup (db_objects db) i = Some ob" "ao_plaintext_sha256 ob = digest"
  using find_SomeD [OF assms [unfolded find_object_def]] by simp_all

lemma find_object_None: "find_object digest db = None \<longleftrightarrow> (\<forall>i ob. fmlookup (db_objects db) i = Some ob \<longrightarrow> ao_plaintext_sha256 ob \<noteq> digest)"
  by (auto simp: find_object_def find_None_iff ball_fm_entries)

lemma find_object_at_Some:
  assumes "find_object_at src path db = Some (i, ob)"
  shows "fmlookup (db_objects db) i = Some ob" "ao_storage_source_id ob = src" "ao_file_path ob = path"
  using find_SomeD [OF assms [unfolded find_object_at_def]] by simp_all

lemma find_object_at_None:
  "find_object_at src path db = None \<longleftrightarrow>
     (\<forall>i ob. fmlookup (db_objects db) i = Some ob \<longrightarrow> \<not> (ao_storage_source_id ob = src \<and> ao_file_path ob = path))"
  by (auto simp: find_object_at_def find_None_iff ball_fm_entries)

lemma tables_ok_insert:
  assumes ok: "tables_ok db" and i: "i = db_next_object db" "i < i + 1"
    and new: "find_object (ao_plaintext_sha256 ob) db = None"
      "find_object_at (ao_storage_source_id ob) (ao_file_path ob) db = None"
  shows "tables_ok (db\<lparr>db_objects := fmupd i ob (db_objects db), db_next_object := i + 1\<rparr>)"
proof -
  have below: "\<forall>j\<in>fset (fmdom (db_objects db)). j < i" using ok i(1) by (simp add: tables_ok_def)
  have keys: "i = j" if "fmlookup (fmupd i ob (db_objects db)) i' = Some a" "fmlookup (fmupd i ob (db_objects db)) j = Some b"
      "ao_plaintext_sha256 a = ao_plaintext_sha256 b
       \<or> (ao_storage_source_id a = ao_storage_source_id b \<and> ao_file_path a = ao_file_path b)" "i' = i" for i' j a b
  proof (rule ccontr)
    assume "i \<noteq> j"
    then have "fmlookup (db_objects db) j = Some b" "a = ob" using that by simp_all
    with that(3) new show False unfolding find_object_None find_object_at_None by metis
  qed
  have "i' = j" if a: "fmlookup (fmupd i ob (db_objects db)) i' = Some a" "fmlookup (fmupd i ob (db_objects db)) j = Some b"
      "ao_plaintext_sha256 a = ao_plaintext_sha256 b
       \<or> (ao_storage_source_id a = ao_storage_source_id b \<and> ao_file_path a = ao_file_path b)" for i' j a b
  proof (cases "i' = i \<or> j = i")
    case True
    then show ?thesis using keys [OF a(1,2,3)] keys [OF a(2,1)] a(3) by metis
  next
    case False
    then have "fmlookup (db_objects db) i' = Some a" "fmlookup (db_objects db) j = Some b" using a(1,2) by auto
    with a(3) ok show ?thesis unfolding tables_ok_def by blast
  qed
  moreover have "\<forall>j\<in>fset (fmdom (fmupd i ob (db_objects db))). j < i + 1"
    using below i(2) by (auto intro: less_trans)
  moreover have "\<forall>j r. fmlookup (db_files db) j = Some r \<longrightarrow> fl_object_id r \<in> fset (fmdom (fmupd i ob (db_objects db)))"
    using ok unfolding tables_ok_def by simp
  moreover define db' where "db' = db\<lparr>db_objects := fmupd i ob (db_objects db), db_next_object := i + 1\<rparr>"
  then have sel: "db_files db' = db_files db" "db_objects db' = fmupd i ob (db_objects db)" "db_next_object db' = i + 1"
    by simp_all
  ultimately have "tables_ok db'" unfolding tables_ok_def sel by blast
  then show ?thesis by (simp only: db'_def)
qed

lemma insert_object_new:
  assumes "insert_object p db = Ok (db', Some i)"
  shows "db' = db\<lparr>db_objects := fmupd i (object_of p) (db_objects db), db_next_object := i + 1\<rparr>"
    and "i = db_next_object db" "find_object_at (up_my_source_id p) (up_my_path p) db = None"
    and "find_object (up_plaintext_sha256 p) db = None"
  using assms unfolding insert_object_def Let_def by (auto split: if_split_asm simp del: not_None_eq)

lemma insert_object_conflict: "insert_object p db = Ok (db', None) \<Longrightarrow> db' = db"
  by (simp add: insert_object_def Let_def split: if_split_asm)

text \<open>What a placement resolves to: a row of the transaction's tables, either one that was there or a
  new one for the bytes of this upload.\<close>

definition resolves :: "upload_placement \<Rightarrow> file_db \<Rightarrow> file_db \<Rightarrow> resolved_placement \<Rightarrow> bool" where
  "resolves p db db' pl \<longleftrightarrow>
     tables_ok db' \<and> db_files db' = db_files db
     \<and> (\<exists>ob. fmlookup (db_objects db') (rp_object_id pl) = Some ob
          \<and> ao_file_path ob = rp_file_path pl \<and> ao_storage_source_id ob = rp_storage_source_id pl
          \<and> (if rp_duplicate pl then db' = db
             else db_objects db' = fmupd (rp_object_id pl) ob (db_objects db)
               \<and> fmlookup (db_objects db) (rp_object_id pl) = None
               \<and> ao_plaintext_sha256 ob = up_plaintext_sha256 p
               \<and> ao_file_path ob = up_my_path p \<and> ao_storage_source_id ob = up_my_source_id p
               \<and> ao_sealed_size ob = up_sealed_size p \<and> ao_sealed_sha256 ob = up_sealed_sha256 p))"

lemma register_object_resolves:
  assumes reg: "register_object env p db = Ok (db', pl)" and ok: "tables_ok db" "unat (db_next_object db) < 2 ^ 64 - 1"
  shows "resolves p db db' pl"
proof -
  obtain oi where ins: "insert_object p db = Ok (db', oi)"
    using reg by (auto simp: register_object_def split: if_split_asm result.split_asm option.split_asm)
  show ?thesis
  proof (cases oi)
    case (Some i)
    note ob = insert_object_new [OF ins [unfolded Some]]
    have pl: "rp_object_id pl = i" "rp_file_path pl = up_my_path p" "rp_storage_source_id pl = up_my_source_id p" "\<not> rp_duplicate pl"
      using reg ins Some by (auto simp: register_object_def split: if_split_asm)
    have "i < i + 1" using ok(2) ob(2) by (simp add: word_less_nat_alt unat_word_ariths)
    then have "tables_ok db'" using tables_ok_insert [OF ok(1) ob(2), of "object_of p"] ob by (simp add: object_of_def)
    moreover have "fmlookup (db_objects db) i = None"
      using ok(1) ob(2) unfolding tables_ok_def by (metis fmdom_notD less_irrefl)
    ultimately show ?thesis using pl ob(1) by (simp add: resolves_def object_of_def)
  next
    case None
    then have "db' = db" using insert_object_conflict ins by blast
    moreover obtain i ob where at: "find_object_at (up_my_source_id p) (up_my_path p) db' = Some (i, ob)"
        "rp_object_id pl = i" "rp_file_path pl = up_my_path p" "rp_storage_source_id pl = up_my_source_id p" "rp_duplicate pl"
      using reg ins None by (auto simp: register_object_def placed_at_def split: if_split_asm option.split_asm)
    ultimately show ?thesis using find_object_at_Some [OF at(1)] ok(1) by (simp add: resolves_def)
  qed
qed

lemma converge_upload_resolves:
  assumes conv: "converge_upload env p db = (base, Ok (db', pl))"
    and ok: "tables_ok db" "unat (db_next_object db) < 2 ^ 64 - 1"
    and wait: "tables_ok (de_wait env db)" "unat (db_next_object (de_wait env db)) < 2 ^ 64 - 1"
  shows "resolves p base db' pl" "base = db \<or> base = de_wait env db"
proof -
  consider (none) "base = db" "register_object env p db = Ok (db', pl)"
    | (hit) i ob where "base = de_wait env db" "db' = base" "fmlookup (db_objects base) i = Some ob" "pl = placed_at i ob"
    | (gone) "base = de_wait env db" "register_object env p base = Ok (db', pl)"
    using conv by (auto simp: converge_upload_def Let_def split: if_split_asm option.split_asm)
  then have "resolves p base db' pl \<and> (base = db \<or> base = de_wait env db)"
  proof cases
    case none
    then show ?thesis using register_object_resolves ok by auto
  next
    case hit
    then show ?thesis using wait(1) by (simp add: resolves_def placed_at_def)
  next
    case gone
    then show ?thesis using register_object_resolves wait by auto
  qed
  then show "resolves p base db' pl" "base = db \<or> base = de_wait env db" by blast+
qed

section \<open>Recording keeps records and bytes together\<close>

lemma link_final_spec:
  assumes "link_final env k content (objs, staged) = (st', r)"
  shows "only_grows objs (fst st')" "r = Ok Published \<Longrightarrow> fmlookup (fst st') k = Some content"
  using assms by (auto simp: link_final_def only_grows_new split: if_split_asm)

lemma publish_object_spec:
  assumes "publish_object env is_local k (objs, staged) = (st', r)"
  shows "only_grows objs (fst st')" "r = Ok Published \<Longrightarrow> fmlookup (fst st') k = staged \<and> staged \<noteq> None"
  using assms
  by (auto simp: publish_object_def publish_object_local_def publish_across_filesystems_def only_grows_new
      dest: link_final_spec split: if_split_asm option.split_asm)

lemma verify_object_True:
  "verify_object env sha objs k n d = Ok True \<Longrightarrow>
     \<exists>c. fmlookup objs k = Some c \<and> of_nat (length c) = n \<and> eq_ignore_ascii_case (sha c) d"
  by (auto simp: verify_object_def split: option.split_asm if_split_asm)

definition staged_matches :: "(bytes \<Rightarrow> string) \<Rightarrow> staged_object \<Rightarrow> bytes option \<Rightarrow> bool" where
  "staged_matches sha so staged \<longleftrightarrow>
     (\<forall>c. staged = Some c \<longrightarrow> of_nat (length c) = so_written so \<and> sha c = so_stored_sha256 so)"

lemma publish_or_recognise_spec:
  assumes pub: "publish_or_recognise env sha has_op rm is_local so (objs, staged) = (st', r)"
    and staged: "staged_matches sha so staged"
  shows "only_grows objs (fst st')"
    and "r = Ok () \<Longrightarrow> \<exists>c. fmlookup (fst st') (so_source_id so, so_file_path so) = Some c
           \<and> of_nat (length c) = so_written so \<and> eq_ignore_ascii_case (sha c) (so_stored_sha256 so)"
proof -
  let ?k = "(so_source_id so, so_file_path so)"
  obtain st1 r1 where p1: "publish_object env is_local ?k (objs, staged) = (st1, r1)"
    by (cases "publish_object env is_local ?k (objs, staged)")
  note p = publish_object_spec [OF p1]
  have fst: "fst st' = objs \<or> fst st' = fst st1"
    using pub p1
    by (auto simp: publish_or_recognise_def Let_def split: if_split_asm result.split_asm publish_outcome.split_asm bool.split_asm)
  then show "only_grows objs (fst st')" using p(1) by auto
  assume ok: "r = Ok ()"
  then have cases: "(r1 = Ok Published \<and> st' = st1)
      \<or> (r1 = Ok AlreadyThere \<and> verify_object env sha (fst st1) ?k (so_written so) (so_stored_sha256 so) = Ok True \<and> fst st' = fst st1)"
    using pub p1
    by (auto simp: publish_or_recognise_def Let_def split: if_split_asm result.split_asm publish_outcome.split_asm bool.split_asm)
  then show "\<exists>c. fmlookup (fst st') ?k = Some c
           \<and> of_nat (length c) = so_written so \<and> eq_ignore_ascii_case (sha c) (so_stored_sha256 so)"
  proof
    assume a: "r1 = Ok Published \<and> st' = st1"
    then obtain c where "fmlookup (fst st') ?k = Some c" "staged = Some c" using p(2) by auto
    then show ?thesis using staged by (auto simp: staged_matches_def eq_ignore_ascii_case_def)
  qed (use verify_object_True in fastforce)
qed

lemma get_by_file_id_new:
  assumes "insert_within meta db = (db', True)" "fmlookup (db_objects db) (fm_object_id meta) = Some ob"
  shows "\<exists>m. get_by_file_id (fm_file_id meta) db' = Some m \<and> fm_uploader_id m = fm_uploader_id meta
           \<and> fm_object_id m = fm_object_id meta \<and> fm_object m = ob \<and> fm_file_type m = fm_file_type meta"
proof -
  have "file_type_from_str (file_type_str t) = Some t" for t by (cases t) (simp_all add: file_type_from_str_def)
  then show ?thesis
    using assms by (auto simp: insert_within_def get_by_file_id_def split: if_split_asm)
qed

text \<open>The end of a recording: either the tables are those of the rollback, or they are the
  transaction's with a row for the file; an answer is given only in the second case.\<close>

lemma insert_or_recognise_spec:
  assumes "insert_or_recognise env meta base db = (db', r)"
  shows "db' = base \<or> db' = fst (insert_within meta db)"
    and "r = Ok m \<Longrightarrow> db' = fst (insert_within meta db)
           \<and> (snd (insert_within meta db) \<and> m = meta
              \<or> \<not> snd (insert_within meta db) \<and> get_by_file_id (fm_file_id meta) db = Some m
                \<and> fm_uploader_id m = fm_uploader_id meta \<and> fm_object_id m = fm_object_id meta
                \<and> fm_file_type m = fm_file_type meta)"
proof -
  obtain db1 ins where i: "insert_within meta db = (db1, ins)" by (cases "insert_within meta db")
  have same: "\<not> ins \<Longrightarrow> db1 = db" using i by (auto simp: insert_within_def split: if_split_asm)
  show "db' = base \<or> db' = fst (insert_within meta db)"
    using assms i
    by (auto simp: insert_or_recognise_def Let_def split: if_split_asm result.split_asm option.split_asm)
  show "db' = fst (insert_within meta db)
           \<and> (snd (insert_within meta db) \<and> m = meta
              \<or> \<not> snd (insert_within meta db) \<and> get_by_file_id (fm_file_id meta) db = Some m
                \<and> fm_uploader_id m = fm_uploader_id meta \<and> fm_object_id m = fm_object_id meta
                \<and> fm_file_type m = fm_file_type meta)" if "r = Ok m"
    using assms i that same
    by (auto simp: insert_or_recognise_def Let_def split: if_split_asm result.split_asm option.split_asm)
qed

lemma tables_ok_insert_row:
  assumes "tables_ok db" "fm_object_id meta \<in> fset (fmdom (db_objects db))"
  shows "tables_ok (fst (insert_within meta db))" "db_objects (fst (insert_within meta db)) = db_objects db"
  using assms by (auto simp: insert_within_def tables_ok_def)

definition db_ready :: "(bytes \<Rightarrow> string) \<Rightarrow> stored \<Rightarrow> file_db \<Rightarrow> bool" where
  "db_ready sha objs db \<longleftrightarrow> tables_ok db \<and> all_backed sha objs db \<and> unat (db_next_object db) < 2 ^ 64 - 1"

lemma resolves_backed:
  assumes "resolves p db db' pl" "all_backed sha objs db"
    and "\<not> rp_duplicate pl \<Longrightarrow> \<exists>c. fmlookup objs (up_my_source_id p, up_my_path p) = Some c
           \<and> of_nat (length c) = up_sealed_size p \<and> eq_ignore_ascii_case (sha c) (up_sealed_sha256 p)"
  shows "all_backed sha objs db'"
proof (cases "rp_duplicate pl")
  case True
  then show ?thesis using assms(1,2) by (auto simp: resolves_def)
next
  case False
  then obtain ob where ob: "db_objects db' = fmupd (rp_object_id pl) ob (db_objects db)"
      "ao_file_path ob = up_my_path p" "ao_storage_source_id ob = up_my_source_id p"
      "ao_sealed_size ob = up_sealed_size p" "ao_sealed_sha256 ob = up_sealed_sha256 p"
    using assms(1) by (auto simp: resolves_def)
  then have "backed sha objs ob" using assms(3) False by (simp add: backed_def)
  then show ?thesis using assms(2) ob(1) by (auto simp: all_backed_def split: if_split_asm)
qed

lemma record_row:
  assumes res: "resolves p base db1 pl"
    and b: "all_backed sha objs base" "all_backed sha objs db1" "tables_ok base"
    and ins: "insert_or_recognise env (new_metadata now fid ft s w f pl) base db1 = (db', r)"
  shows "tables_ok db'" "all_backed sha objs db'"
    and "r = Ok m \<Longrightarrow> fm_file_id m = fid \<and> fm_uploader_id m = rf_uploader_id f
           \<and> (\<exists>m'. get_by_file_id fid db' = Some m' \<and> fm_object_id m' = fm_object_id m)"
proof -
  define meta where "meta = new_metadata now fid ft s w f pl"
  note ins' = ins [folded meta_def]
  obtain ob where ob: "fmlookup (db_objects db1) (rp_object_id pl) = Some ob" and tok: "tables_ok db1"
    using res by (auto simp: resolves_def)
  have ids: "fm_object_id meta = rp_object_id pl" "fm_file_id meta = fid" "fm_uploader_id meta = rf_uploader_id f"
    by (simp_all add: meta_def new_metadata_def)
  have row: "tables_ok (fst (insert_within meta db1))" "all_backed sha objs (fst (insert_within meta db1))"
    using tables_ok_insert_row [of db1 meta] ob tok ids(1) b(2) by (auto simp: fmdomI all_backed_def)
  show "tables_ok db'" "all_backed sha objs db'"
    using insert_or_recognise_spec(1) [OF ins'] row b by auto
  assume r: "r = Ok m"
  note i = insert_or_recognise_spec(2) [OF ins', of m]
  show "fm_file_id m = fid \<and> fm_uploader_id m = rf_uploader_id f
           \<and> (\<exists>m'. get_by_file_id fid db' = Some m' \<and> fm_object_id m' = fm_object_id m)"
  proof (cases "snd (insert_within meta db1)")
    case True
    then have "insert_within meta db1 = (db', True)" "m = meta" using i r by (auto simp: prod_eq_iff)
    then show ?thesis using get_by_file_id_new [of meta db1 db' ob] ob ids by auto
  next
    case False
    then have "db' = db1" using i r by (auto simp: insert_within_def split: if_split_asm)
    then show ?thesis using False i r ids by (auto simp: get_by_file_id_def split: option.split_asm)
  qed
qed

lemma publish_and_record_cases:
  assumes "publish_and_record pub env sha now has_op rm is_local so f ((objs, staged), db) = ((st', db'), r)"
  obtains (unavailable) e where "st' = (objs, staged)" "db' = db" "r = Err e"
  | (unplaced) e where "converge_upload env (placement_of so f) db = (db', Err e)" "st' = (objs, staged)" "r = Err e"
  | (unpublished) base db1 pl e where "converge_upload env (placement_of so f) db = (base, Ok (db1, pl))"
      "publish_or_recognise pub sha has_op rm is_local so (objs, staged) = (st', Err e)" "db' = base" "r = Err e"
  | (recorded) base db1 pl where "converge_upload env (placement_of so f) db = (base, Ok (db1, pl))"
      "if rp_duplicate pl then fst st' = objs
       else publish_or_recognise pub sha has_op rm is_local so (objs, staged) = (st', Ok ())"
      "insert_or_recognise env (new_metadata now (so_file_id so) (so_file_type so) (so_stored_sha256 so)
         (so_written so) f pl) base db1 = (db', r)"
  using assms unfolding publish_and_record_def Let_def
  by (auto split: if_split_asm prod.split_asm result.split_asm)

lemma publish_and_record_spec:
  assumes rec: "publish_and_record pub env sha now has_op rm is_local so f ((objs, staged), db) = ((st', db'), r)"
    and ready: "db_ready sha objs db" "db_ready sha objs (de_wait env db)"
    and staged: "staged_matches sha so staged"
  shows "only_grows objs (fst st') \<and> tables_ok db' \<and> all_backed sha (fst st') db'
      \<and> (\<forall>m. r = Ok m \<longrightarrow> fm_file_id m = so_file_id so \<and> fm_uploader_id m = rf_uploader_id f
           \<and> (\<exists>m'. get_by_file_id (so_file_id so) db' = Some m' \<and> fm_object_id m' = fm_object_id m))"
proof -
  let ?p = "placement_of so f"
  have base: "tables_ok base \<and> all_backed sha objs base"
    if "converge_upload env ?p db = (base, conv)" for base conv
    using that ready by (auto simp: converge_upload_def Let_def db_ready_def split: if_split_asm option.split_asm)
  from rec show ?thesis
  proof (cases rule: publish_and_record_cases)
    case (unavailable e)
    then show ?thesis using ready by (simp add: db_ready_def)
  next
    case (unplaced e)
    then show ?thesis using base by auto
  next
    case (unpublished bs db1 pl e)
    then show ?thesis
      using base all_backed_grow publish_or_recognise_spec(1) [OF unpublished(2) staged] by blast
  next
    case (recorded bs db1 pl)
    have res: "resolves ?p bs db1 pl"
      using converge_upload_resolves(1) [OF recorded(1)] ready by (simp add: db_ready_def)
    have grow: "only_grows objs (fst st')"
      using recorded(2) publish_or_recognise_spec(1) [OF _ staged] by (auto split: if_split_asm)
    have bs: "tables_ok bs" "all_backed sha (fst st') bs"
      using base [OF recorded(1)] all_backed_grow [OF _ grow] by blast+
    have "all_backed sha (fst st') db1"
    proof (rule resolves_backed [OF res bs(2)])
      assume "\<not> rp_duplicate pl"
      then show "\<exists>c. fmlookup (fst st') (up_my_source_id ?p, up_my_path ?p) = Some c
            \<and> of_nat (length c) = up_sealed_size ?p \<and> eq_ignore_ascii_case (sha c) (up_sealed_sha256 ?p)"
        using recorded(2) publish_or_recognise_spec(2) [OF _ staged] by (auto simp: placement_of_def)
    qed
    then show ?thesis using record_row [OF res bs(2) _ bs(1) recorded(3)] grow by blast
  qed
qed

end
