(* ===== verification/UploadRoutes.thy ===== *)
theory UploadRoutes
  imports FileRecords
begin

text \<open>
  The upload endpoints of \<open>http/routes/upload.rs\<close> for the proxy transport, from the request
  headers to the answer: receiving a chunk, reporting what is missing, completing and aborting, with
  \<open>commit_chunked_upload\<close> of \<open>service/file_service.rs\<close> behind the completion. The state is
  the session root on disk, the stored objects and the tables. A request carries an environment that
  says which of its system calls and statements succeed; the bodies of the S3 branches are in
  \<open>S3Upload\<close>.

  The lemmas show that records and stored bytes stay together along every run of requests with
  arbitrary failures, that a completed upload keeps its file id, and that waiting for a session lock
  ends.
\<close>

section \<open>State, environment, request headers\<close>

record upload_state =
  us_root :: upload_root
  us_objects :: stored
  us_db :: file_db

datatype route_op =
    RtManifest | RtLock | RtTombstone | RtScan | RtRow | RtRowAgain | RtTombWrite | RtTombSync
  | RtDropParts | RtDropBody | RtStat | RtOpenStream | RtUnstage | RtDiscard | RtDigestWrite | RtDigestSync

text \<open>\<open>re_busy\<close>: the session lock is held by another request when the wait for it ends;
  \<open>re_breaks\<close>: the number of bytes after which reading the staged file fails, if it does.\<close>

record 'o route_env =
  re_now :: int
  re_now_millis :: int
  re_sha :: "bytes \<Rightarrow> string"
  re_ac :: "'o attachment_crypto"
  re_keys :: "u8 \<Rightarrow> bytes option"
  re_fs :: file_service
  re_up :: "route_op \<Rightarrow> bool"
  re_busy :: bool
  re_disk :: disk
  re_pub :: pub_env
  re_dbe :: db_env
  re_breaks :: "nat option"

record headers =
  hd_upload_token :: "string option"
  hd_chunk_sha256 :: "string option"
  hd_forwarded_for :: "string option"
  hd_real_ip :: "string option"

definition coded :: "protocol_code \<Rightarrow> nat \<Rightarrow> server_error" where
  "coded code status = Coded code status []"

definition client_ip_from_headers :: "headers \<Rightarrow> string option" where
  "client_ip_from_headers h =
     (let real = (case hd_real_ip h of
                    Some v \<Rightarrow> if trim v \<noteq> [] then Some (trim v) else None
                  | None \<Rightarrow> None)
      in case hd_forwarded_for h of
           Some v \<Rightarrow> (let ip = trim (takeWhile (\<lambda>ch. ch \<noteq> CHR '','') v) in if ip \<noteq> [] then Some ip else real)
         | None \<Rightarrow> real)"

definition site_key_of :: "'o route_env \<Rightarrow> u8 \<Rightarrow> (bytes, server_error) result" where
  "site_key_of env key_id = (case re_keys env key_id of Some k \<Rightarrow> Ok k | None \<Rightarrow> Err (ServiceUnavailable []))"

text \<open>\<open>open_session\<close>: a missing, expired or wrongly keyed session are one and the same answer.\<close>

definition open_session ::
  "'o route_env \<Rightarrow> headers \<Rightarrow> 'z upload_state_scheme \<Rightarrow> (chunked_session, server_error) result" where
  "open_session env h st =
     (case hd_upload_token h of
        None \<Rightarrow> Err (Validation [])
      | Some raw \<Rightarrow>
          (case resolve_storage_source (re_fs env) of
             Err e \<Rightarrow> Err e
           | Ok _ \<Rightarrow>
               (case open_chunked (re_up env RtManifest) (re_sha env) (re_now env) (us_root st) raw of
                  Ok s \<Rightarrow> Ok s
                | Err Malformed \<Rightarrow> Err (Validation [])
                | Err Gone \<Rightarrow> Err (coded UploadSessionGone 410)
                | Err BadSecret \<Rightarrow> Err (coded UploadSessionGone 410)
                | Err Expired \<Rightarrow> Err (coded UploadSessionGone 410)
                | Err (OpenIo e) \<Rightarrow> Err e)))"

definition dir_of :: "chunked_session \<Rightarrow> 'z upload_state_scheme \<Rightarrow> session_dir option" where
  "dir_of s st = fmlookup (ur_dirs (us_root st)) (cs_upload_id s)"

definition put_dir :: "chunked_session \<Rightarrow> session_dir \<Rightarrow> 'z upload_state_scheme \<Rightarrow> 'z upload_state_scheme" where
  "put_dir s d st = st\<lparr>us_root := (us_root st)\<lparr>ur_dirs := fmupd (cs_upload_id s) d (ur_dirs (us_root st))\<rparr>\<rparr>"

section \<open>Waiting for the session lock\<close>

text \<open>\<open>ChunkedSession::lock\<close>: try, look at the clock, sleep, try again. \<open>attempt k\<close> is the answer of
  the \<open>k\<close>-th \<open>try_lock\<close>, \<open>clock k\<close> the time read after it.\<close>

partial_function (option) lock_loop ::
  "(nat \<Rightarrow> (unit option, server_error) result) \<Rightarrow> (nat \<Rightarrow> int) \<Rightarrow> int \<Rightarrow> nat
     \<Rightarrow> (unit option, server_error) result option" where
  "lock_loop attempt clock deadline k =
     (case attempt k of
        Err e \<Rightarrow> Some (Err e)
      | Ok (Some l) \<Rightarrow> Some (Ok (Some l))
      | Ok None \<Rightarrow> if deadline \<le> clock k then Some (Ok None) else lock_loop attempt clock deadline (Suc k))"

definition lock_session ::
  "(nat \<Rightarrow> (unit option, server_error) result) \<Rightarrow> (nat \<Rightarrow> int) \<Rightarrow> int \<Rightarrow> int
     \<Rightarrow> (unit option, server_error) result option" where
  "lock_session attempt clock start wait = lock_loop attempt clock (start + wait) 0"

text \<open>\<open>lock_or_busy\<close> on the outcome of that wait: \<open>RtLock\<close> and \<open>re_busy\<close> describe its last attempt.\<close>

definition lock_or_busy :: "'o route_env \<Rightarrow> chunked_session \<Rightarrow> 'z upload_state_scheme \<Rightarrow> (session_dir, server_error) result" where
  "lock_or_busy env s st =
     (case dir_of s st of
        None \<Rightarrow> Err (Internal [])
      | Some d \<Rightarrow>
          (case try_lock (re_up env RtLock) (re_busy env) d of
             Err e \<Rightarrow> Err e
           | Ok None \<Rightarrow> Err (coded UploadSessionBusy 409)
           | Ok (Some _) \<Rightarrow> Ok d))"

section \<open>Chunks and status\<close>

definition declared_chunk_digest :: "headers \<Rightarrow> (string, server_error) result" where
  "declared_chunk_digest h =
     (case hd_chunk_sha256 h of
        None \<Rightarrow> Err (coded UploadChunkChecksumMismatch 400)
      | Some v \<Rightarrow>
          let d = to_ascii_lowercase (trim v)
          in if length d = 64 \<and> list_all is_ascii_hexdigit d then Ok d
             else Err (coded UploadChunkChecksumMismatch 400))"

record chunk_response =
  cr_outcome :: part_outcome
  cr_received_bytes :: u64
  cr_total_size :: u64
  cr_complete :: bool

fun chunk_error_response :: "chunk_error \<Rightarrow> server_error" where
  "chunk_error_response OutOfRange = coded UploadChunkNotAligned 400"
| "chunk_error_response NotAligned = coded UploadChunkNotAligned 400"
| "chunk_error_response Digest = coded UploadChunkChecksumMismatch 422"
| "chunk_error_response Overlap = coded UploadRangeOverlap 409"
| "chunk_error_response (ChunkIo e) = e"

definition put_chunk ::
  "'o route_env \<Rightarrow> headers \<Rightarrow> u64 \<Rightarrow> bytes \<Rightarrow> 'z upload_state_scheme \<Rightarrow> 'z upload_state_scheme \<times> (chunk_response, server_error) result" where
  "put_chunk env h offset body st =
     (case open_session env h st of
        Err e \<Rightarrow> (st, Err e)
      | Ok s \<Rightarrow>
          if mf_transport (cs_manifest s) \<noteq> TRANSPORT_PROXY_OFFSET_V1 then (st, Err (coded UploadModeConflict 409))
          else (case declared_chunk_digest h of
             Err e \<Rightarrow> (st, Err e)
           | Ok declared \<Rightarrow>
          (case lock_or_busy env s st of
             Err e \<Rightarrow> (st, Err e)
           | Ok d \<Rightarrow>
          (case completed_file_id (re_up env RtTombstone) d of
             Err e \<Rightarrow> (st, Err e)
           | Ok (Some _) \<Rightarrow> (st, Err (coded UploadSessionCompleted 409))
           | Ok None \<Rightarrow>
               let (d', r) = write_part (re_disk env) (re_sha env) (cs_manifest s) d offset body declared;
                   st' = put_dir s d' st
               in (case r of
                     Err e \<Rightarrow> (st', Err (chunk_error_response e))
                   | Ok outcome \<Rightarrow>
                       (case session_status (re_up env RtScan) (cs_manifest s) d' of
                          Err e \<Rightarrow> (st', Err e)
                        | Ok (_, missing, received_bytes) \<Rightarrow>
                            (st', Ok \<lparr>cr_outcome = outcome, cr_received_bytes = received_bytes,
                                      cr_total_size = mf_total_size (cs_manifest s), cr_complete = (missing = [])\<rparr>)))))))"

record status_response =
  sr_received :: "range list"
  sr_missing :: "range list"
  sr_received_bytes :: u64
  sr_total_size :: u64
  sr_completed :: bool

text \<open>\<open>upload_status\<close> after the dispatch on the transport; it takes no lock.\<close>

definition proxy_status ::
  "'o route_env \<Rightarrow> chunked_session \<Rightarrow> 'z upload_state_scheme \<Rightarrow> (status_response, server_error) result" where
  "proxy_status env s st =
     (let d = (case dir_of s st of Some d \<Rightarrow> d
               | None \<Rightarrow> \<lparr>sd_manifest = NoFile, sd_lock = False, sd_parts = None, sd_body = None, sd_completed = NoFile\<rparr>)
      in case completed_file_id (re_up env RtTombstone) d of
           Err e \<Rightarrow> Err e
         | Ok done_id \<Rightarrow>
             (case session_status (re_up env RtScan) (cs_manifest s) d of
                Err e \<Rightarrow> Err e
              | Ok (received, missing, received_bytes) \<Rightarrow>
                  Ok \<lparr>sr_received = received, sr_missing = missing, sr_received_bytes = received_bytes,
                      sr_total_size = mf_total_size (cs_manifest s), sr_completed = (done_id \<noteq> None)\<rparr>))"

section \<open>Completion\<close>

record upload_response =
  rsp_file_id :: u64
  rsp_file_url :: string
  rsp_file_size :: u64
  rsp_storage_source_id :: u32
  rsp_mime_type :: string
  rsp_uploaded_at :: int

definition upload_response_of :: "'o route_env \<Rightarrow> file_metadata \<Rightarrow> upload_response" where
  "upload_response_of env meta =
     \<lparr>rsp_file_id = fm_file_id meta,
      rsp_file_url = build_access_url (re_fs env) (ao_file_path (fm_object meta)) (ao_storage_source_id (fm_object meta)),
      rsp_file_size = ao_plaintext_size (fm_object meta),
      rsp_storage_source_id = ao_storage_source_id (fm_object meta),
      rsp_mime_type = fm_mime_type meta, rsp_uploaded_at = fm_uploaded_at meta\<rparr>"

definition manifest_matches :: "manifest \<Rightarrow> file_metadata \<Rightarrow> bool" where
  "manifest_matches m meta \<longleftrightarrow>
     fm_uploader_id meta = mf_uploader_id m \<and> file_type_str (fm_file_type meta) = mf_file_type m
     \<and> ao_plaintext_size (fm_object meta) = mf_plaintext_size m
     \<and> eq_ignore_ascii_case (ao_plaintext_sha256 (fm_object meta)) (mf_plaintext_sha256 m)"

definition chunked_completed_response ::
  "'o route_env \<Rightarrow> chunked_session \<Rightarrow> u64 \<Rightarrow> 'z upload_state_scheme \<Rightarrow> (upload_response, server_error) result" where
  "chunked_completed_response env s file_id st =
     (case get_file_metadata (re_up env RtRowAgain) file_id (us_db st) of
        Err e \<Rightarrow> Err e
      | Ok None \<Rightarrow> Err (Internal [])
      | Ok (Some meta) \<Rightarrow>
          if manifest_matches (cs_manifest s) meta then Ok (upload_response_of env meta) else Err (Internal []))"

definition fields_of :: "headers \<Rightarrow> string option \<Rightarrow> manifest \<Rightarrow> record_fields" where
  "fields_of h business_id m =
     \<lparr>rf_filename = mf_filename m, rf_mime_type = mf_mime_type m, rf_uploader_id = mf_uploader_id m,
      rf_uploader_ip = client_ip_from_headers h, rf_business_type = mf_business_type m,
      rf_business_id = business_id, rf_plaintext_sha256 = mf_plaintext_sha256 m,
      rf_plaintext_size = mf_plaintext_size m, rf_format_version = mf_format_version m,
      rf_encryption_key_id = mf_encryption_key_id m, rf_chunk_plain_size = mf_chunk_plain_size m,
      rf_sealed_size = mf_total_size m\<rparr>"

definition staging_path_of :: "chunked_session \<Rightarrow> string" where
  "staging_path_of s = ''tmp/uploads/chunked/'' @ cs_upload_id s @ ''/body.complete.tmp''"

text \<open>Where the operator of the default source finds the staged bytes: in the session directory when
  the source is local, because the session root is then below its root, otherwise among its own objects.\<close>

definition staged_bytes :: "file_service \<Rightarrow> chunked_session \<Rightarrow> 'z upload_state_scheme \<Rightarrow> bytes option" where
  "staged_bytes fs s st =
     (if is_local_source fs (fs_default fs)
      then (case dir_of s st of Some d \<Rightarrow> sd_body d | None \<Rightarrow> None)
      else fmlookup (us_objects st) (fs_default fs, staging_path_of s))"

definition put_staged ::
  "file_service \<Rightarrow> chunked_session \<Rightarrow> bytes option \<Rightarrow> 'z upload_state_scheme \<Rightarrow> 'z upload_state_scheme" where
  "put_staged fs s staged st =
     (if is_local_source fs (fs_default fs)
      then (case dir_of s st of Some d \<Rightarrow> put_dir s (d\<lparr>sd_body := staged\<rparr>) st | None \<Rightarrow> st)
      else (case staged of None \<Rightarrow> st\<lparr>us_objects := fmdrop (fs_default fs, staging_path_of s) (us_objects st)\<rparr>
            | Some _ \<Rightarrow> st))"

definition stream_of :: "nat option \<Rightarrow> bytes \<Rightarrow> reader" where
  "stream_of breaks content =
     (case breaks of
        None \<Rightarrow> \<lparr>rd_bytes = content, rd_clean = True\<rparr>
      | Some k \<Rightarrow> \<lparr>rd_bytes = take k content, rd_clean = False\<rparr>)"

definition verify_staged_object ::
  "'o route_env \<Rightarrow> bytes option \<Rightarrow> frozen_identity \<Rightarrow> bytes \<Rightarrow> (string, server_error) result" where
  "verify_staged_object env staged frozen site_key =
     (case staged of
        None \<Rightarrow> Err (ServiceUnavailable [])
      | Some content \<Rightarrow>
          if \<not> re_up env RtStat \<or> \<not> re_up env RtOpenStream then Err (ServiceUnavailable [])
          else verify_attachment (re_ac env) (re_sha env) (stream_of (re_breaks env) content)
                 (of_nat (length content)) frozen site_key)"

definition commit_chunked_upload ::
  "'o route_env \<Rightarrow> chunked_session \<Rightarrow> u64 \<Rightarrow> record_fields \<Rightarrow> bytes \<Rightarrow> 'z upload_state_scheme
     \<Rightarrow> 'z upload_state_scheme \<times> (file_metadata, server_error) result" where
  "commit_chunked_upload env s written flds site_key st =
     (let fs = re_fs env; m = cs_manifest s; src = fs_default fs;
          ft = (case file_type_from_str (mf_file_type m) of Some t \<Rightarrow> t | None \<Rightarrow> FtFile)
      in case resolve_storage_source fs of
           Err e \<Rightarrow> (st, Err e)
         | Ok _ \<Rightarrow>
             if src |\<notin>| fs_operators fs then (st, Err (Internal []))
             else (case verify_staged_object env (staged_bytes fs s st) (frozen_of flds) site_key of
                     Err e \<Rightarrow> (st, Err e)
                   | Ok stored_sha256 \<Rightarrow>
                       let so = \<lparr>so_file_id = mf_reserved_file_id m,
                                 so_file_path = generate_file_path stored_sha256 ft (rf_filename flds),
                                 so_source_id = src, so_file_type = ft, so_written = written,
                                 so_stored_sha256 = stored_sha256\<rparr>;
                           (w, r) = publish_and_record (re_pub env) (re_dbe env) (re_sha env) (re_now_millis env) True
                                      (re_up env RtUnstage) (is_local_source fs src) so flds
                                      ((us_objects st, staged_bytes fs s st), us_db st);
                           ((objs, staged), db) = w
                       in (put_staged fs s staged (st\<lparr>us_objects := objs, us_db := db\<rparr>), r)))"

text \<open>The tombstone and the removal of the payload after it. Failing to write the tombstone is only
  logged; the reserved id covers the next attempt.\<close>

definition finish_session :: "'o route_env \<Rightarrow> chunked_session \<Rightarrow> u64 \<Rightarrow> 'z upload_state_scheme \<Rightarrow> 'z upload_state_scheme \<times> (unit, server_error) result" where
  "finish_session env s file_id st =
     (case dir_of s st of
        None \<Rightarrow> (st, Err (Internal []))
      | Some d \<Rightarrow>
          (case write_completed (re_up env RtTombWrite) (re_up env RtTombSync) file_id d of
             (d', Err e) \<Rightarrow> (put_dir s d' st, Err e)
           | (d', Ok _) \<Rightarrow> (put_dir s (drop_payload (re_up env RtDropParts) (re_up env RtDropBody) d') st, Ok ())))"

fun assemble_error_response :: "assemble_error \<Rightarrow> server_error" where
  "assemble_error_response (Missing _) = coded UploadMissingRanges 409"
| "assemble_error_response AsmOverlap = coded UploadRangeOverlap 409"
| "assemble_error_response (AsmIo e) = e"

text \<open>Steps 1 and 2 of a completion, which both transports share: the tombstone, then the row with the
  reserved id that an attempt left which crashed before its tombstone. \<open>None\<close> means that the upload is
  not complete yet.\<close>

definition recover_completed ::
  "'o route_env \<Rightarrow> chunked_session \<Rightarrow> session_dir \<Rightarrow> 'z upload_state_scheme
     \<Rightarrow> 'z upload_state_scheme \<times> (upload_response, server_error) result option" where
  "recover_completed env s d st =
     (let m = cs_manifest s; reserved = mf_reserved_file_id m
      in case completed_file_id (re_up env RtTombstone) d of
           Err e \<Rightarrow> (st, Some (Err e))
         | Ok (Some existing) \<Rightarrow> (st, Some (chunked_completed_response env s existing st))
         | Ok None \<Rightarrow>
             (case get_file_metadata (re_up env RtRow) reserved (us_db st) of
                Err e \<Rightarrow> (st, Some (Err e))
              | Ok (Some meta) \<Rightarrow>
                  if \<not> manifest_matches m meta then (st, Some (Err (Internal [])))
                  else (case finish_session env s reserved st of
                          (st', Err e) \<Rightarrow> (st', Some (Err e))
                        | (st', Ok _) \<Rightarrow> (st', Some (chunked_completed_response env s reserved st')))
              | Ok None \<Rightarrow> (st, None)))"

text \<open>Steps 3 to 6: assemble, verify and publish, record, tombstone, clean up.\<close>

definition proxy_publish ::
  "'o route_env \<Rightarrow> headers \<Rightarrow> string option \<Rightarrow> chunked_session \<Rightarrow> session_dir \<Rightarrow> 'z upload_state_scheme
     \<Rightarrow> 'z upload_state_scheme \<times> (upload_response, server_error) result" where
  "proxy_publish env h business_id s d st =
     (let m = cs_manifest s
      in case site_key_of env (mf_encryption_key_id m) of
           Err e \<Rightarrow> (st, Err e)
         | Ok site_key \<Rightarrow>
             (case assemble (re_disk env) (re_sha env) m d of
                (d', Err e) \<Rightarrow> (put_dir s d' st, Err (assemble_error_response e))
              | (d', Ok (written, _)) \<Rightarrow>
                  (case commit_chunked_upload env s written (fields_of h business_id m) site_key (put_dir s d' st) of
                     (st', Err e) \<Rightarrow> (st', Err e)
                   | (st', Ok meta) \<Rightarrow> (fst (finish_session env s (fm_file_id meta) st'), Ok (upload_response_of env meta)))))"

text \<open>The three handlers that dispatch on the transport of the session; the S3 branch is an argument.\<close>

definition upload_status ::
  "(chunked_session \<Rightarrow> 'z upload_state_scheme \<Rightarrow> 'z upload_state_scheme \<times> (status_response, server_error) result)
     \<Rightarrow> 'o route_env \<Rightarrow> headers \<Rightarrow> 'z upload_state_scheme \<Rightarrow> 'z upload_state_scheme \<times> (status_response, server_error) result" where
  "upload_status s3 env h st =
     (case open_session env h st of
        Err e \<Rightarrow> (st, Err e)
      | Ok s \<Rightarrow> if mf_transport (cs_manifest s) = TRANSPORT_S3_MULTIPART_V1 then s3 s st else (st, proxy_status env s st))"

definition complete_upload ::
  "(chunked_session \<Rightarrow> session_dir \<Rightarrow> 'z upload_state_scheme \<Rightarrow> 'z upload_state_scheme \<times> (upload_response, server_error) result)
     \<Rightarrow> 'o route_env \<Rightarrow> headers \<Rightarrow> string option \<Rightarrow> 'z upload_state_scheme \<Rightarrow> 'z upload_state_scheme \<times> (upload_response, server_error) result" where
  "complete_upload s3 env h business_id st =
     (case open_session env h st of
        Err e \<Rightarrow> (st, Err e)
      | Ok s \<Rightarrow>
          (case lock_or_busy env s st of
             Err e \<Rightarrow> (st, Err e)
           | Ok d \<Rightarrow>
               if mf_transport (cs_manifest s) = TRANSPORT_S3_MULTIPART_V1 then s3 s d st
               else (case recover_completed env s d st of
                       (st', Some r) \<Rightarrow> (st', r)
                     | (st', None) \<Rightarrow> proxy_publish env h business_id s d st')))"

definition abort_upload ::
  "(chunked_session \<Rightarrow> 'z upload_state_scheme \<Rightarrow> 'z upload_state_scheme \<times> (unit, server_error) result)
     \<Rightarrow> 'o route_env \<Rightarrow> headers \<Rightarrow> 'z upload_state_scheme \<Rightarrow> 'z upload_state_scheme \<times> (unit, server_error) result" where
  "abort_upload s3 env h st =
     (case open_session env h st of
        Err e \<Rightarrow> (st, if protocol_code_of e = UploadSessionGone then Ok () else Err e)
      | Ok s \<Rightarrow>
          (case lock_or_busy env s st of
             Err e \<Rightarrow> (st, Err e)
           | Ok d \<Rightarrow>
               (case completed_file_id (re_up env RtTombstone) d of
                  Err e \<Rightarrow> (st, Err e)
                | Ok (Some _) \<Rightarrow> (st, Err (coded UploadSessionCompleted 409))
                | Ok None \<Rightarrow>
                    if mf_transport (cs_manifest s) = TRANSPORT_S3_MULTIPART_V1 then s3 s st
                    else (let (root, r) = discard (re_up env RtDiscard) (cs_upload_id s) (us_root st)
                          in (st\<lparr>us_root := root\<rparr>, r)))))"

section \<open>The wait for the lock ends\<close>

lemma lock_loop_returns:
  assumes sleep: "\<forall>k. clock k + 25 \<le> clock (Suc k)" and "deadline - clock k \<le> 25 * int n"
  shows "\<exists>j\<le>n. lock_loop attempt clock deadline k = Some (attempt (k + j))
           \<and> (\<forall>i<j. attempt (k + i) = Ok None) \<and> (attempt (k + j) = Ok None \<longrightarrow> deadline \<le> clock (k + j))"
  using assms(2)
proof (induction n arbitrary: k)
  case 0
  then show ?case by (subst lock_loop.simps) (auto split: result.split option.split)
next
  case (Suc n)
  show ?case
  proof (cases "attempt k = Ok None \<and> clock k < deadline")
    case False
    then show ?thesis by (intro exI [of _ 0]) (subst lock_loop.simps, auto split: result.split option.split)
  next
    case True
    then have "deadline - clock (Suc k) \<le> 25 * int n" using Suc.prems sleep [rule_format, of k] by simp
    from Suc.IH [OF this] obtain j where j: "j \<le> n" "lock_loop attempt clock deadline (Suc k) = Some (attempt (Suc k + j))"
        "\<forall>i<j. attempt (Suc k + i) = Ok None" "attempt (Suc k + j) = Ok None \<longrightarrow> deadline \<le> clock (Suc k + j)" by blast
    have "lock_loop attempt clock deadline k = lock_loop attempt clock deadline (Suc k)"
      using True by (subst lock_loop.simps) simp
    moreover have "\<forall>i<Suc j. attempt (k + i) = Ok None"
      using True j(3) by (auto simp: less_Suc_eq_0_disj)
    ultimately show ?thesis using j by (intro exI [of _ "Suc j"]) auto
  qed
qed



section \<open>What the requests leave alone\<close>

lemma open_session_Ok:
  assumes "open_session env h st = Ok s"
  shows "\<exists>d. dir_of s st = Some d \<and> sd_manifest d = Json (cs_manifest s)"
  using assms
  by (auto simp: open_session_def open_chunked_def dir_of_def read_json_def
      split: option.split_asm result.split_asm open_error.split_asm prod.split_asm jfile.split_asm if_split_asm)

lemma lock_or_busy_Ok: "lock_or_busy env s st = Ok d \<Longrightarrow> dir_of s st = Some d"
  by (auto simp: lock_or_busy_def split: option.split_asm result.split_asm)

lemma put_dir_simps [simp]:
  "us_objects (put_dir s d st) = us_objects st" "us_db (put_dir s d st) = us_db st"
  "dir_of s (put_dir s d st) = Some d"
  "ur_dirs (us_root (put_dir s d st)) = fmupd (cs_upload_id s) d (ur_dirs (us_root st))"
  by (simp_all add: put_dir_def dir_of_def)

lemma write_part_frame [simp]:
  "sd_manifest (fst (write_part io sha m d offset content declared)) = sd_manifest d"
  "sd_completed (fst (write_part io sha m d offset content declared)) = sd_completed d"
  by (simp_all add: write_part_def Let_def split: result.split option.split prod.split)

lemma assemble_frame [simp]:
  "sd_manifest (fst (assemble io sha m d)) = sd_manifest d"
  "sd_completed (fst (assemble io sha m d)) = sd_completed d"
  by (simp_all add: assemble_def Let_def split: result.split prod.split)

lemma assemble_total: "assemble io sha m d = (d', Ok (written, digest)) \<Longrightarrow> written = mf_total_size m"
  by (auto simp: assemble_def Let_def split: result.split_asm prod.split_asm if_split_asm)

text \<open>A session directory as the invariant sees it: what its manifest promises and its tombstone says.\<close>

definition dir_ok :: "session_dir \<Rightarrow> bool" where
  "dir_ok d \<longleftrightarrow>
     (\<forall>m. sd_manifest d = Json m \<longrightarrow> mf_transport m = TRANSPORT_PROXY_OFFSET_V1
        \<and> (\<forall>f. sd_completed d = Json f \<longrightarrow> f = mf_reserved_file_id m))"

definition dirs_ok :: "upload_root \<Rightarrow> bool" where
  "dirs_ok root \<longleftrightarrow> (\<forall>i d. fmlookup (ur_dirs root) i = Some d \<longrightarrow> dir_ok d)"

lemma dirs_ok_put: "dirs_ok (us_root st) \<Longrightarrow> dir_ok d \<Longrightarrow> dirs_ok (us_root (put_dir s d st))"
  by (auto simp: dirs_ok_def split: if_split_asm)

lemma dirs_ok_dir: "dirs_ok (us_root st) \<Longrightarrow> dir_of s st = Some d \<Longrightarrow> dir_ok d"
  by (auto simp: dirs_ok_def dir_of_def)

lemma dir_ok_same:
  "dir_ok d \<Longrightarrow> sd_manifest d' = sd_manifest d \<Longrightarrow> sd_completed d' = sd_completed d \<Longrightarrow> dir_ok d'"
  by (simp add: dir_ok_def)

lemma transports_differ [simp]: "TRANSPORT_S3_MULTIPART_V1 \<noteq> TRANSPORT_PROXY_OFFSET_V1"
  "TRANSPORT_PROXY_OFFSET_V1 \<noteq> TRANSPORT_S3_MULTIPART_V1"
  by (simp_all add: TRANSPORT_S3_MULTIPART_V1_def TRANSPORT_PROXY_OFFSET_V1_def)

section \<open>Records and bytes along a run\<close>

definition no_staging :: "stored \<Rightarrow> bool" where
  "no_staging objs \<longleftrightarrow> (\<forall>k\<in>fset (fmdom objs). \<not> prefix ''tmp'' (snd k))"

definition upload_inv :: "(bytes \<Rightarrow> string) \<Rightarrow> upload_state \<Rightarrow> bool" where
  "upload_inv sha st \<longleftrightarrow>
     tables_ok (us_db st) \<and> all_backed sha (us_objects st) (us_db st) \<and> no_staging (us_objects st) \<and> dirs_ok (us_root st)"

definition rows_grow :: "file_db \<Rightarrow> file_db \<Rightarrow> bool" where
  "rows_grow db db' \<longleftrightarrow> (\<forall>i r. fmlookup (db_files db) i = Some r \<longrightarrow> fmlookup (db_files db') i = Some r)"

lemma rows_grow_refl [simp]: "rows_grow db db"
  by (simp add: rows_grow_def)

lemma rows_grow_trans: "rows_grow a b \<Longrightarrow> rows_grow b c \<Longrightarrow> rows_grow a c"
  by (simp add: rows_grow_def)

lemma row_is_readable: "tables_ok db \<Longrightarrow> i \<in> fset (fmdom (db_files db)) \<Longrightarrow> get_by_file_id i db \<noteq> None"
  unfolding tables_ok_def get_by_file_id_def fmlookup_dom_iff by (fastforce split: option.split)

lemma readable_is_row: "get_by_file_id i db = Some m \<Longrightarrow> i \<in> fset (fmdom (db_files db))"
  by (auto simp: get_by_file_id_def fmlookup_dom_iff split: option.split_asm)

lemma rows_grow_dom: "rows_grow db db' \<Longrightarrow> i \<in> fset (fmdom (db_files db)) \<Longrightarrow> i \<in> fset (fmdom (db_files db'))"
  by (auto simp: rows_grow_def fmlookup_dom_iff)

lemma published_paths_not_staging: "\<not> prefix ''tmp'' (generate_file_path digest ft name)"
  by (cases ft) (simp_all add: generate_file_path_def Let_def)

lemma publish_or_recognise_dom:
  assumes "publish_or_recognise env sha has_op rm is_local so (objs, staged) = (st', r)"
  shows "fst st' = objs \<or> (\<exists>c. fst st' = fmupd (so_source_id so, so_file_path so) c objs)"
  using assms
  by (auto simp: publish_or_recognise_def publish_object_def publish_object_local_def publish_across_filesystems_def
      link_final_def Let_def split: if_split_asm option.split_asm result.split_asm publish_outcome.split_asm bool.split_asm)

lemma publish_and_record_frame:
  assumes "publish_and_record pub env sha now has_op rm is_local so f ((objs, staged), db) = ((st', db'), r)"
    and "rows_grow db (de_wait env db)"
  shows "fst st' = objs \<or> (\<exists>c. fst st' = fmupd (so_source_id so, so_file_path so) c objs)"
    and "tables_ok db \<Longrightarrow> tables_ok (de_wait env db) \<Longrightarrow> unat (db_next_object db) < 2 ^ 64 - 1 \<Longrightarrow>
         unat (db_next_object (de_wait env db)) < 2 ^ 64 - 1 \<Longrightarrow> rows_grow db db'"
proof -
  have base: "base = db \<or> base = de_wait env db" if "converge_upload env (placement_of so f) db = (base, c)" for base c
    using that by (auto simp: converge_upload_def Let_def split: if_split_asm option.split_asm)
  have "(fst st' = objs \<or> (\<exists>c. fst st' = fmupd (so_source_id so, so_file_path so) c objs))
    \<and> (tables_ok db \<longrightarrow> tables_ok (de_wait env db) \<longrightarrow> unat (db_next_object db) < 2 ^ 64 - 1 \<longrightarrow>
         unat (db_next_object (de_wait env db)) < 2 ^ 64 - 1 \<longrightarrow> rows_grow db db')"
    using assms(1)
  proof (cases rule: publish_and_record_cases)
    case unavailable
    then show ?thesis by simp
  next
    case unplaced
    then show ?thesis using base [OF unplaced(1)] assms(2) by auto
  next
    case unpublished
    then show ?thesis using base [OF unpublished(1)] assms(2) publish_or_recognise_dom by fastforce
  next
    case (recorded bs db1 pl)
    have "fst st' = objs \<or> (\<exists>c. fst st' = fmupd (so_source_id so, so_file_path so) c objs)"
      using recorded(2) publish_or_recognise_dom by (auto split: if_split_asm)
    moreover have "rows_grow db db'" if "tables_ok db" "tables_ok (de_wait env db)"
        "unat (db_next_object db) < 2 ^ 64 - 1" "unat (db_next_object (de_wait env db)) < 2 ^ 64 - 1"
    proof -
      have "db_files db1 = db_files bs"
        using converge_upload_resolves(1) [OF recorded(1)] that by (simp add: resolves_def)
      then have "rows_grow bs db'"
        using insert_or_recognise_spec(1) [OF recorded(3)]
        by (auto simp: rows_grow_def insert_within_def fmlookup_dom_iff split: if_split_asm)
      then show ?thesis using base [OF recorded(1)] assms(2) rows_grow_trans by auto
    qed
    ultimately show ?thesis by blast
  qed
  then show "fst st' = objs \<or> (\<exists>c. fst st' = fmupd (so_source_id so, so_file_path so) c objs)"
    "tables_ok db \<Longrightarrow> tables_ok (de_wait env db) \<Longrightarrow> unat (db_next_object db) < 2 ^ 64 - 1 \<Longrightarrow>
         unat (db_next_object (de_wait env db)) < 2 ^ 64 - 1 \<Longrightarrow> rows_grow db db'" by blast+
qed

text \<open>The environment of a request that records: the object sequence is not exhausted, and what other
  transactions commit meanwhile is well-formed, backed and removes no row.\<close>

definition env_ok :: "(bytes \<Rightarrow> string) \<Rightarrow> 'o route_env \<Rightarrow> upload_state \<Rightarrow> bool" where
  "env_ok sha env st \<longleftrightarrow>
     re_sha env = sha
     \<and> unat (db_next_object (us_db st)) < 2 ^ 64 - 1
     \<and> db_ready sha (us_objects st) (de_wait (re_dbe env) (us_db st))
     \<and> rows_grow (us_db st) (de_wait (re_dbe env) (us_db st))"

lemma verified_staged_bytes:
  assumes "verify_staged_object env staged frozen key = Ok digest"
  shows "\<exists>c. staged = Some c \<and> digest = re_sha env c \<and> of_nat (length c) = fi_sealed_size frozen"
proof -
  obtain c where c: "staged = Some c"
      "verify_attachment (re_ac env) (re_sha env) (stream_of (re_breaks env) c) (of_nat (length c)) frozen key = Ok digest"
    using assms by (auto simp: verify_staged_object_def split: option.split_asm if_split_asm)
  note v = verify_sound(1,2,3) [OF c(2)]
  then have "re_breaks env = None" by (auto simp: stream_of_def split: option.split_asm)
  then show ?thesis using c(1) v by (simp add: stream_of_def)
qed

lemma no_staging_lookup: "no_staging objs \<Longrightarrow> fmlookup objs (src, staging_path_of s) = None"
  unfolding no_staging_def staging_path_of_def
  by (rule fmdom_notD) (metis append_Cons append_Nil prefixI snd_conv)

lemma commit_spec:
  assumes commit: "commit_chunked_upload env s written f key st = (st', r)"
    and inv: "upload_inv sha st" and env: "env_ok sha env st" and written: "written = rf_sealed_size f"
    and d: "dir_of s st = Some d"
  shows "upload_inv sha st'" "rows_grow (us_db st) (us_db st')"
    and "\<exists>body. dir_of s st' = Some (d\<lparr>sd_body := body\<rparr>)"
    and "r = Ok m \<Longrightarrow> fm_file_id m = mf_reserved_file_id (cs_manifest s)
           \<and> mf_reserved_file_id (cs_manifest s) \<in> fset (fmdom (db_files (us_db st')))"
proof -
  have "upload_inv sha st' \<and> rows_grow (us_db st) (us_db st') \<and> (\<exists>body. dir_of s st' = Some (d\<lparr>sd_body := body\<rparr>))
    \<and> (\<forall>m. r = Ok m \<longrightarrow> fm_file_id m = mf_reserved_file_id (cs_manifest s)
           \<and> mf_reserved_file_id (cs_manifest s) \<in> fset (fmdom (db_files (us_db st'))))"
  proof (cases "\<exists>src digest. resolve_storage_source (re_fs env) = Ok src \<and> fs_default (re_fs env) |\<in>| fs_operators (re_fs env)
      \<and> verify_staged_object env (staged_bytes (re_fs env) s st) (frozen_of f) key = Ok digest")
    case False
    then have "st' = st" "\<forall>m. r \<noteq> Ok m"
      using commit by (auto simp: commit_chunked_upload_def Let_def split: result.split_asm if_split_asm)
    then show ?thesis using inv d by (auto intro!: exI [of _ "sd_body d"])
  next
    case True
    let ?fs = "re_fs env" let ?src = "fs_default (re_fs env)"
    obtain src digest where v: "resolve_storage_source ?fs = Ok src" "?src |\<in>| fs_operators ?fs"
        "verify_staged_object env (staged_bytes ?fs s st) (frozen_of f) key = Ok digest" using True by blast
    obtain c where c: "staged_bytes ?fs s st = Some c" "digest = sha c" "of_nat (length c) = rf_sealed_size f"
      using verified_staged_bytes [OF v(3)] env by (auto simp: env_ok_def frozen_of_def)
    have loc: "is_local_source ?fs ?src"
      using c(1) inv no_staging_lookup [of "us_objects st" ?src s] by (auto simp: staged_bytes_def upload_inv_def split: if_split_asm)
    define so where "so = (let ft = (case file_type_from_str (mf_file_type (cs_manifest s)) of Some t \<Rightarrow> t | None \<Rightarrow> FtFile)
      in \<lparr>so_file_id = mf_reserved_file_id (cs_manifest s), so_file_path = generate_file_path digest ft (rf_filename f),
          so_source_id = ?src, so_file_type = ft, so_written = written, so_stored_sha256 = digest\<rparr>)"
    have so: "so_file_id so = mf_reserved_file_id (cs_manifest s)" "so_written so = written" "so_stored_sha256 so = digest"
        "\<not> prefix ''tmp'' (so_file_path so)"
      by (simp_all add: so_def Let_def published_paths_not_staging)
    obtain objs staged db where pr: "publish_and_record (re_pub env) (re_dbe env) sha (re_now_millis env) True
        (re_up env RtUnstage) True so f ((us_objects st, Some c), us_db st) = (((objs, staged), db), r)"
        "st' = put_staged ?fs s staged (st\<lparr>us_objects := objs, us_db := db\<rparr>)"
      using commit v c(1) loc env
      by (auto simp: commit_chunked_upload_def Let_def so_def env_ok_def split: prod.split_asm)
    have ready: "db_ready sha (us_objects st) (us_db st)" "db_ready sha (us_objects st) (de_wait (re_dbe env) (us_db st))"
        "rows_grow (us_db st) (de_wait (re_dbe env) (us_db st))"
      using inv env by (auto simp: upload_inv_def env_ok_def db_ready_def)
    have "staged_matches sha so (Some c)" using c so written by (simp add: staged_matches_def)
    note spec = publish_and_record_spec [OF pr(1) ready(1,2) this, simplified]
    note frame = publish_and_record_frame [OF pr(1) ready(3), simplified]
    have st': "us_objects st' = objs" "us_db st' = db" "dir_of s st' = Some (d\<lparr>sd_body := staged\<rparr>)"
        "us_root st' = us_root (put_dir s (d\<lparr>sd_body := staged\<rparr>) st)"
      using pr(2) loc d by (simp_all add: put_staged_def dir_of_def put_dir_def)
    have "no_staging objs"
      using frame(1) inv so(4) by (auto simp: no_staging_def upload_inv_def)
    moreover have "dirs_ok (us_root st')"
      using inv d dirs_ok_put [of st "d\<lparr>sd_body := staged\<rparr>" s] dirs_ok_dir [of st s d] dir_ok_same [of d "d\<lparr>sd_body := staged\<rparr>"]
      by (simp add: st' upload_inv_def)
    moreover have "rows_grow (us_db st) db" using frame(2) ready by (simp add: db_ready_def)
    ultimately show ?thesis
      using spec st' so(1) readable_is_row by (fastforce simp: upload_inv_def)
  qed
  then show "upload_inv sha st'" "rows_grow (us_db st) (us_db st')" "\<exists>body. dir_of s st' = Some (d\<lparr>sd_body := body\<rparr>)"
    "r = Ok m \<Longrightarrow> fm_file_id m = mf_reserved_file_id (cs_manifest s)
           \<and> mf_reserved_file_id (cs_manifest s) \<in> fset (fmdom (db_files (us_db st')))" by blast+
qed

lemma get_by_file_id_id: "get_by_file_id i db = Some m \<Longrightarrow> fm_file_id m = i"
  by (auto simp: get_by_file_id_def split: option.split_asm)

lemma finish_session_spec:
  assumes "finish_session env s f st = (st', r)" "upload_inv sha st" "dir_of s st = Some d"
    and "\<And>m. sd_manifest d = Json m \<Longrightarrow> f = mf_reserved_file_id m"
  shows "upload_inv sha st'" "us_db st' = us_db st" "us_objects st' = us_objects st"
proof -
  have d: "dir_ok d" using assms(2,3) dirs_ok_dir by (auto simp: upload_inv_def)
  obtain d' where st': "st' = put_dir s d' st" "sd_manifest d' = sd_manifest d"
      "sd_completed d' = sd_completed d \<or> sd_completed d' = Json f"
    using assms(1,3)
    by (auto simp: finish_session_def write_completed_def write_json_atomic_def drop_payload_def split: if_split_asm)
  then have "dir_ok d'" using d assms(4) by (auto simp: dir_ok_def)
  then show "upload_inv sha st'" "us_db st' = us_db st" "us_objects st' = us_objects st"
    using st'(1) assms(2) dirs_ok_put [of st d' s] by (simp_all add: upload_inv_def)
qed

lemma completed_response_id:
  "chunked_completed_response env s f st = Ok rsp \<Longrightarrow> rsp_file_id rsp = f \<and> f \<in> fset (fmdom (db_files (us_db st)))"
  by (auto simp: chunked_completed_response_def get_file_metadata_def upload_response_of_def
      dest: get_by_file_id_id readable_is_row split: result.split_asm option.split_asm if_split_asm)

lemma recover_completed_spec:
  assumes rec: "recover_completed env s d st = (st', r)" and inv: "upload_inv sha st"
    and d: "dir_of s st = Some d" "sd_manifest d = Json (cs_manifest s)"
  shows "upload_inv sha st'" "us_db st' = us_db st" "us_objects st' = us_objects st"
    and "r = Some (Ok rsp) \<Longrightarrow> rsp_file_id rsp = mf_reserved_file_id (cs_manifest s)
           \<and> mf_reserved_file_id (cs_manifest s) \<in> fset (fmdom (db_files (us_db st')))"
    and "r = None \<Longrightarrow> st' = st \<and> get_by_file_id (mf_reserved_file_id (cs_manifest s)) (us_db st) = None"
proof -
  let ?f = "mf_reserved_file_id (cs_manifest s)"
  have tomb: "f = ?f" if "completed_file_id up d = Ok (Some f)" for f up
    using that inv dirs_ok_dir [of st s d] d
    by (auto simp: upload_inv_def dir_ok_def completed_file_id_def read_json_def split: jfile.split_asm if_split_asm)
  have fin: "upload_inv sha st1" "us_db st1 = us_db st" "us_objects st1 = us_objects st" if "finish_session env s ?f st = (st1, x)" for st1 x
    using finish_session_spec [OF that inv d(1)] d(2) by simp_all
  consider (err) e where "st' = st" "r = Some (Err e)"
    | (completed) "st' = st" "r = Some (chunked_completed_response env s ?f st)"
    | (torn) e where "finish_session env s ?f st = (st', Err e)" "r = Some (Err e)"
    | (row) "finish_session env s ?f st = (st', Ok ())" "r = Some (chunked_completed_response env s ?f st')"
    | (none) "st' = st" "r = None" "get_by_file_id ?f (us_db st) = None"
    using rec
    by (auto simp: recover_completed_def Let_def get_file_metadata_def dest!: tomb split: result.split_asm option.split_asm if_split_asm prod.split_asm)
  then have "upload_inv sha st' \<and> us_db st' = us_db st \<and> us_objects st' = us_objects st
    \<and> (\<forall>rsp. r = Some (Ok rsp) \<longrightarrow> rsp_file_id rsp = ?f \<and> ?f \<in> fset (fmdom (db_files (us_db st'))))
    \<and> (r = None \<longrightarrow> st' = st \<and> get_by_file_id ?f (us_db st) = None)"
  proof cases
    case row
    then show ?thesis using fin [OF row(1)] completed_response_id [of env s ?f st'] by auto
  qed (use inv fin completed_response_id [of env s ?f st] in auto)
  then show "upload_inv sha st'" "us_db st' = us_db st" "us_objects st' = us_objects st"
    "r = Some (Ok rsp) \<Longrightarrow> rsp_file_id rsp = ?f \<and> ?f \<in> fset (fmdom (db_files (us_db st')))"
    "r = None \<Longrightarrow> st' = st \<and> get_by_file_id ?f (us_db st) = None" by blast+
qed

lemma proxy_publish_spec:
  assumes pub: "proxy_publish env h bid s d st = (st', r)" and inv: "upload_inv sha st" and env: "env_ok sha env st"
    and d: "dir_of s st = Some d" "sd_manifest d = Json (cs_manifest s)"
  shows "upload_inv sha st' \<and> rows_grow (us_db st) (us_db st')
    \<and> (\<forall>rsp. r = Ok rsp \<longrightarrow> rsp_file_id rsp = mf_reserved_file_id (cs_manifest s)
         \<and> mf_reserved_file_id (cs_manifest s) \<in> fset (fmdom (db_files (us_db st'))))"
proof -
  let ?m = "cs_manifest s"
  have put: "upload_inv sha (put_dir s d' st)" if "assemble io sha' m d = (d', x)" for io sha' m d' x
    using inv d(1) dirs_ok_put dirs_ok_dir dir_ok_same assemble_frame [of io sha' m d] that
    by (fastforce simp: upload_inv_def)
  have env': "env_ok sha env (put_dir s d' st)" for d' using env by (simp add: env_ok_def)
  consider (no_key) e where "st' = st" "r = Err e"
    | (parts) d' e where "assemble (re_disk env) (re_sha env) ?m d = (d', Err e)" "st' = put_dir s d' st" "\<exists>e'. r = Err e'"
    | (assembled) d' digest key w r1 where "assemble (re_disk env) (re_sha env) ?m d = (d', Ok (w, digest))"
        "commit_chunked_upload env s w (fields_of h bid ?m) key (put_dir s d' st) = r1"
        "(st', r) = (case r1 of (st1, Err e) \<Rightarrow> (st1, Err e)
           | (st1, Ok meta) \<Rightarrow> (fst (finish_session env s (fm_file_id meta) st1), Ok (upload_response_of env meta)))"
    using pub by (auto simp: proxy_publish_def Let_def split: result.split_asm prod.split_asm)
  then show ?thesis
  proof cases
    case no_key
    then show ?thesis using inv by simp
  next
    case parts
    then show ?thesis using put by auto
  next
    case (assembled d' digest key w r1)
    obtain st1 x where r1: "r1 = (st1, x)" by (cases r1)
    have m': "sd_manifest d' = Json ?m" using assemble_frame(1) [of "re_disk env" "re_sha env" ?m d] assembled(1) d(2) by simp
    have w: "w = rf_sealed_size (fields_of h bid ?m)" using assemble_total [OF assembled(1)] by (simp add: fields_of_def)
    have d': "dir_of s (put_dir s d' st) = Some d'" by simp
    note c = commit_spec [OF assembled(2) [unfolded r1] put [OF assembled(1)] env' w d', simplified]
    obtain body where b: "dir_of s st1 = Some (d'\<lparr>sd_body := body\<rparr>)" using c(3) by blast
    show ?thesis
    proof (cases x)
      case (Err e)
      then show ?thesis using assembled(3) r1 c by simp
    next
      case (Ok meta)
      obtain st2 y where f: "finish_session env s (fm_file_id meta) st1 = (st2, y)" by (cases "finish_session env s (fm_file_id meta) st1")
      have "st' = st2" "r = Ok (upload_response_of env meta)" using assembled(3) r1 Ok f by simp_all
      then show ?thesis
        using finish_session_spec [OF f c(1) b] c(2) c(4) [OF Ok] m' by (simp add: upload_response_of_def)
    qed
  qed
qed

lemma complete_upload_spec:
  assumes c: "complete_upload s3 env h bid st = (st', r)" and inv: "upload_inv sha st" and env: "env_ok sha env st"
  shows "upload_inv sha st'" "rows_grow (us_db st) (us_db st')"
    and "r = Ok rsp \<Longrightarrow> \<exists>s. open_session env h st = Ok s \<and> rsp_file_id rsp = mf_reserved_file_id (cs_manifest s)
           \<and> mf_reserved_file_id (cs_manifest s) \<in> fset (fmdom (db_files (us_db st')))"
    and "open_session env h st = Ok s \<Longrightarrow> mf_reserved_file_id (cs_manifest s) \<in> fset (fmdom (db_files (us_db st)))
           \<Longrightarrow> us_db st' = us_db st \<and> us_objects st' = us_objects st"
proof -
  have all: "upload_inv sha st' \<and> rows_grow (us_db st) (us_db st')
    \<and> (\<forall>rsp. r = Ok rsp \<longrightarrow> (\<exists>s. open_session env h st = Ok s \<and> rsp_file_id rsp = mf_reserved_file_id (cs_manifest s)
           \<and> mf_reserved_file_id (cs_manifest s) \<in> fset (fmdom (db_files (us_db st')))))
    \<and> (\<forall>s. open_session env h st = Ok s \<longrightarrow> mf_reserved_file_id (cs_manifest s) \<in> fset (fmdom (db_files (us_db st)))
           \<longrightarrow> us_db st' = us_db st \<and> us_objects st' = us_objects st)"
  proof (cases "\<exists>s d. open_session env h st = Ok s \<and> lock_or_busy env s st = Ok d")
    case False
    then have "st' = st" "\<forall>rsp. r \<noteq> Ok rsp"
      using c by (auto simp: complete_upload_def split: result.split_asm)
    then show ?thesis using inv by simp
  next
    case True
    then obtain s d where o: "open_session env h st = Ok s" "lock_or_busy env s st = Ok d" by blast
    have d: "dir_of s st = Some d" "sd_manifest d = Json (cs_manifest s)"
      using open_session_Ok [OF o(1)] lock_or_busy_Ok [OF o(2)] by auto
    then have proxy: "mf_transport (cs_manifest s) = TRANSPORT_PROXY_OFFSET_V1"
      using inv dirs_ok_dir [of st s d] by (simp add: upload_inv_def dir_ok_def)
    obtain st1 x where rc: "recover_completed env s d st = (st1, x)" by (cases "recover_completed env s d st")
    note rcs = recover_completed_spec [OF rc inv d]
    show ?thesis
    proof (cases x)
      case (Some y)
      then have "st' = st1" "r = y" using c o proxy rc by (simp_all add: complete_upload_def)
      then show ?thesis using rcs Some o(1) by auto
    next
      case None
      then have pp: "proxy_publish env h bid s d st = (st', r)" and new: "get_by_file_id (mf_reserved_file_id (cs_manifest s)) (us_db st) = None"
        using c o proxy rc rcs(5) by (simp_all add: complete_upload_def)
      then have "mf_reserved_file_id (cs_manifest s) \<notin> fset (fmdom (db_files (us_db st)))"
        using row_is_readable [of "us_db st"] inv unfolding upload_inv_def by blast
      then show ?thesis using proxy_publish_spec [OF pp inv env d] o(1) by auto
    qed
  qed
  then show "upload_inv sha st'" "rows_grow (us_db st) (us_db st')"
    "r = Ok rsp \<Longrightarrow> \<exists>s. open_session env h st = Ok s \<and> rsp_file_id rsp = mf_reserved_file_id (cs_manifest s)
           \<and> mf_reserved_file_id (cs_manifest s) \<in> fset (fmdom (db_files (us_db st')))"
    "open_session env h st = Ok s \<Longrightarrow> mf_reserved_file_id (cs_manifest s) \<in> fset (fmdom (db_files (us_db st)))
           \<Longrightarrow> us_db st' = us_db st \<and> us_objects st' = us_objects st" by blast+
qed

text \<open>The requests of a server whose sessions use the proxy transport, with the issue of a token and the
  hourly sweep. The S3 branch of the handlers is never reached.\<close>

datatype 'o upload_event =
    IssueSession "nat \<Rightarrow> bool" int "string \<times> string" new_session
  | PutChunk "'o route_env" headers u64 bytes
  | Complete "'o route_env" headers "string option"
  | Abort "'o route_env" headers
  | SweepExpired sweep_env int

fun upload_step :: "(bytes \<Rightarrow> string) \<Rightarrow> upload_state \<Rightarrow> 'o upload_event \<Rightarrow> upload_state" where
  "upload_step sha st (IssueSession io now ids input) =
     st\<lparr>us_root := fst (create_with_ids io sha now ids input (us_root st))\<rparr>"
| "upload_step sha st (PutChunk env h offset body) = fst (put_chunk env h offset body st)"
| "upload_step sha st (Complete env h bid) = fst (complete_upload (\<lambda>_ _ st. (st, Err (Internal []))) env h bid st)"
| "upload_step sha st (Abort env h) = fst (abort_upload (\<lambda>_ st. (st, Err (Internal []))) env h st)"
| "upload_step sha st (SweepExpired env now) = st\<lparr>us_root := fst (sweep_expired env now (us_root st))\<rparr>"

fun upload_ok :: "(bytes \<Rightarrow> string) \<Rightarrow> upload_state \<Rightarrow> 'o upload_event \<Rightarrow> bool" where
  "upload_ok sha st (IssueSession io now ids input) \<longleftrightarrow> ns_transport input = TRANSPORT_PROXY_OFFSET_V1"
| "upload_ok sha st (PutChunk env h offset body) \<longleftrightarrow> True"
| "upload_ok sha st (Complete env h bid) \<longleftrightarrow> env_ok sha env st"
| "upload_ok sha st (Abort env h) \<longleftrightarrow> True"
| "upload_ok sha st (SweepExpired env now) \<longleftrightarrow> True"

definition fresh_server :: upload_state where
  "fresh_server =
     \<lparr>us_root = \<lparr>ur_dirs = fmempty, ur_anchors = fmempty\<rparr>, us_objects = fmempty,
      us_db = \<lparr>db_objects = fmempty, db_files = fmempty, db_next_object = 1, db_next_file = 1\<rparr>\<rparr>"

lemma issue_dirs_ok:
  assumes "dirs_ok root" "ns_transport input = TRANSPORT_PROXY_OFFSET_V1"
  shows "dirs_ok (fst (create_with_ids io sha now ids input root))"
proof -
  have "dir_ok d" if "sd_completed d = NoFile" "sd_manifest d = NoFile \<or> sd_manifest d = Json (manifest_of sha now secret input)" for d secret
    using that assms(2) by (auto simp: dir_ok_def manifest_of_def)
  then show ?thesis
    using assms(1)
    by (auto simp: create_with_ids_def Let_def dirs_ok_def write_json_atomic_def split: prod.split if_split_asm)
qed

lemma put_chunk_spec:
  assumes "upload_inv sha st"
  shows "upload_inv sha (fst (put_chunk env h offset body st))" "us_db (fst (put_chunk env h offset body st)) = us_db st"
proof -
  have "fst (put_chunk env h offset body st) = st
    \<or> (\<exists>s d io sha' m declared. dir_of s st = Some d
        \<and> fst (put_chunk env h offset body st) = put_dir s (fst (write_part io sha' m d offset body declared)) st)"
    unfolding put_chunk_def Let_def
    by (auto split: result.split option.split prod.split dest!: lock_or_busy_Ok) (metis fst_conv)+
  then have "upload_inv sha (fst (put_chunk env h offset body st)) \<and> us_db (fst (put_chunk env h offset body st)) = us_db st"
  proof (elim disjE exE conjE)
    fix s d io sha' m declared
    assume d: "dir_of s st = Some d"
      and eq: "fst (put_chunk env h offset body st) = put_dir s (fst (write_part io sha' m d offset body declared)) st"
    have "dir_ok (fst (write_part io sha' m d offset body declared))"
      using assms d by (auto simp: upload_inv_def intro: dir_ok_same dirs_ok_dir)
    then show ?thesis using assms eq by (simp add: upload_inv_def dirs_ok_put)
  qed (use assms in simp)
  then show "upload_inv sha (fst (put_chunk env h offset body st))" "us_db (fst (put_chunk env h offset body st)) = us_db st" by blast+
qed

lemma abort_spec:
  assumes "upload_inv sha st"
  shows "upload_inv sha (fst (abort_upload (\<lambda>_ st. (st, Err (Internal []))) env h st))"
    "us_db (fst (abort_upload (\<lambda>_ st. (st, Err (Internal []))) env h st)) = us_db st"
  using assms
  by (auto simp: abort_upload_def discard_def upload_inv_def dirs_ok_def split: result.split option.split)

interpretation upload_run: invariant_system fresh_server "upload_step sha" "upload_ok sha" "upload_inv sha"
proof
  show "upload_inv sha fresh_server"
    by (simp add: upload_inv_def fresh_server_def tables_ok_def all_backed_def no_staging_def dirs_ok_def)
next
  fix st e assume inv: "upload_inv sha st" and ok: "upload_ok sha st e"
  show "upload_inv sha (upload_step sha st e)"
  proof (cases e)
    case (IssueSession io now ids input)
    then show ?thesis using inv ok issue_dirs_ok by (auto simp: upload_inv_def)
  next
    case (Complete env h bid)
    then show ?thesis using complete_upload_spec(1) [OF prod.collapse [symmetric]] inv ok by auto
  next
    case (SweepExpired env now)
    then show ?thesis using inv
      by (auto simp: upload_inv_def dirs_ok_def sweep_expired_exact split: option.split_asm if_split_asm)
  qed (use inv put_chunk_spec(1) abort_spec(1) in auto)
qed

lemma upload_step_rows:
  assumes "upload_inv sha st" "upload_ok sha st e"
  shows "rows_grow (us_db st) (us_db (upload_step sha st e))"
proof (cases e)
  case (Complete env h bid)
  then show ?thesis using complete_upload_spec(2) [OF prod.collapse [symmetric]] assms by auto
qed (simp_all add: put_chunk_spec(2) [OF assms(1)] abort_spec(2) [OF assms(1)])

lemma upload_run_rows:
  assumes "upload_inv sha st" "admissible (upload_ok sha) (upload_step sha) st es"
  shows "rows_grow (us_db st) (us_db (run (upload_step sha) st es))"
  using assms
proof (induction es arbitrary: st)
  case (Cons e es)
  then show ?case
    using upload_step_rows [of sha st e] upload_run.step_inv [of sha st e] rows_grow_trans by fastforce
qed simp



section \<open>A sample upload\<close>

text \<open>One session, one chunk, one completion, with a digest that tells the sample plaintext from everything
  else and the sample attachment format of \<open>AttachmentVerify\<close>.\<close>

definition sha64 :: "bytes \<Rightarrow> string" where
  "sha64 b = replicate 64 (if b = [7, 9] then CHR ''a'' else CHR ''b'')"

definition demo_id :: string where "demo_id = replicate 32 (CHR ''0'')"
definition demo_secret :: string where "demo_secret = replicate 64 (CHR ''1'')"

definition demo_input :: new_session where
  "demo_input =
     \<lparr>ns_uploader_id = 1, ns_plaintext_sha256 = replicate 64 (CHR ''a''), ns_plaintext_size = 2, ns_format_version = 1,
      ns_encryption_key_id = 0, ns_chunk_plain_size = 8, ns_total_size = 7, ns_file_type = ''image'',
      ns_business_type = ''m'', ns_filename = ''a.png'', ns_mime_type = ''image/png'', ns_reserved_file_id = 7,
      ns_transport = TRANSPORT_PROXY_OFFSET_V1, ns_s3 = None\<rparr>"

definition demo_env :: "unit route_env" where
  "demo_env =
     \<lparr>re_now = 0, re_now_millis = 0, re_sha = sha64, re_ac = demo_crypto, re_keys = (\<lambda>_. Some []),
      re_fs = \<lparr>fs_sources = fmupd 0 \<lparr>ss_storage_type = ''local'', ss_base_url = None, ss_endpoint = None, ss_bucket = None,
                 ss_path_prefix = None, ss_addressing_style = None\<rparr> fmempty,
               fs_default = 0, fs_operators = {|0|}\<rparr>,
      re_up = (\<lambda>_. True), re_busy = False, re_disk = disk_ok,
      re_pub = \<lparr>pe_up = (\<lambda>_. True), pe_cross = False, pe_conditional = True\<rparr>,
      re_dbe = \<lparr>de_up = (\<lambda>_. True), de_lock_timeout = False, de_committed = False, de_wait = (\<lambda>db. db)\<rparr>,
      re_breaks = None\<rparr>"

definition demo_headers :: headers where
  "demo_headers = \<lparr>hd_upload_token = Some (demo_id @ ''.'' @ demo_secret), hd_chunk_sha256 = Some (replicate 64 (CHR ''b'')),
     hd_forwarded_for = None, hd_real_ip = None\<rparr>"

definition demo_file :: bytes where "demo_file = [0, 0, 0, 0, 0, 7, 9]"

definition demo_session :: chunked_session where
  "demo_session = \<lparr>cs_upload_id = demo_id, cs_manifest = manifest_of sha64 0 demo_secret demo_input\<rparr>"

abbreviation demo_events :: "unit upload_event list" where
  "demo_events \<equiv> [IssueSession (\<lambda>_. True) 0 (demo_id, demo_secret) demo_input, PutChunk demo_env demo_headers 0 demo_file]"

lemma demo_env_simps [simp]:
  "re_now demo_env = 0" "re_now_millis demo_env = 0" "re_sha demo_env = sha64" "re_ac demo_env = demo_crypto"
  "re_keys demo_env k = Some []" "re_up demo_env x = True" "re_busy demo_env = False" "re_disk demo_env = disk_ok"
  "re_breaks demo_env = None" "fs_default (re_fs demo_env) = 0" "fs_operators (re_fs demo_env) = {|0|}"
  "is_local_source (re_fs demo_env) 0" "\<exists>src. resolve_storage_source (re_fs demo_env) = Ok src"
  "pe_up (re_pub demo_env) y = True" "pe_cross (re_pub demo_env) = False"
  "de_up (re_dbe demo_env) z = True" "de_wait (re_dbe demo_env) db = db"
  by (simp_all add: demo_env_def is_local_source_def resolve_storage_source_def)

lemma demo_ids: "hex_id UPLOAD_ID_HEX_LEN demo_id" "hex_id SECRET_HEX_LEN demo_secret"
  by (auto simp: hex_id_def demo_id_def demo_secret_def UPLOAD_ID_HEX_LEN_def SECRET_HEX_LEN_def is_ascii_hexdigit_def list_all_iff Let_def)

lemma demo_open:
  assumes "fmlookup (ur_dirs (us_root st)) demo_id = Some d" "sd_manifest d = Json (manifest_of sha64 0 demo_secret demo_input)"
  shows "open_session demo_env demo_headers st = Ok demo_session"
proof -
  have p: "parse_token (demo_id @ CHR ''.'' # demo_secret) = Some (demo_id, demo_secret)" using parse_token_made [OF demo_ids] by simp
  show ?thesis
    using assms
    by (simp add: open_session_def demo_headers_def demo_env_def resolve_storage_source_def open_chunked_def p
        read_json_def constant_time_eq_iff manifest_of_def demo_session_def TOKEN_TTL_SECS_def)
qed

lemma demo_issue:
  "upload_step sha64 fresh_server (IssueSession (\<lambda>_. True) 0 (demo_id, demo_secret) demo_input) =
     fresh_server\<lparr>us_root := \<lparr>ur_dirs = fmupd demo_id (fresh_dir (cs_manifest demo_session)) fmempty, ur_anchors = fmempty\<rparr>\<rparr>"
  by (simp add: create_with_ids_def write_json_atomic_def fresh_server_def fresh_dir_def demo_session_def Let_def)

definition demo_parts :: "(string, bytes) fmap" where
  "demo_parts = fmupd (part_name 0 7) demo_file fmempty"

lemma digest_text: "to_ascii_lowercase (trim (replicate 64 (CHR ''b''))) = replicate 64 (CHR ''b'')"
proof -
  have "trim (replicate 64 (CHR ''b'')) = replicate 64 (CHR ''b'')"
    by (rule trim_id) (simp_all add: is_space_def)
  then show ?thesis by (simp add: to_ascii_lowercase_def ascii_lower_char_def)
qed

lemma demo_check: "check_part_request sha64 7 0 demo_file (replicate 64 (CHR ''b'')) = Ok 7"
  by (simp add: check_part_request_def demo_file_def checked_add_def digest_text sha64_def Let_def)

lemma demo_digest: "declared_chunk_digest demo_headers = Ok (replicate 64 (CHR ''b''))"
  by (simp add: declared_chunk_digest_def demo_headers_def digest_text is_ascii_hexdigit_def list_all_iff Let_def)

lemma fm_entries_single [simp]: "fm_entries (fmupd k v fmempty) = [(k, v)]"
  by (simp add: fm_entries_def sorted_list_of_fset.rep_eq)

lemma part_ranges_empty: "part_ranges fmempty = []"
  by (simp add: part_ranges_def)

lemma part_ranges_single: "part_ranges (fmupd (part_name p n) c fmempty) = [rg p n]"
  by (simp add: part_ranges_def)

lemma demo_put:
  assumes "fmlookup (ur_dirs (us_root st)) demo_id = Some (fresh_dir (cs_manifest demo_session))"
  shows "fst (put_chunk demo_env demo_headers 0 demo_file st) =
    put_dir demo_session ((fresh_dir (cs_manifest demo_session))\<lparr>sd_parts := Some demo_parts\<rparr>) st"
proof -
  let ?d = "fresh_dir (cs_manifest demo_session)"
  have o: "open_session demo_env demo_headers st = Ok demo_session"
    by (rule demo_open [OF assms]) (simp add: fresh_dir_def demo_session_def)
  have l: "lock_or_busy demo_env demo_session st = Ok ?d"
    using assms by (simp add: lock_or_busy_def dir_of_def demo_session_def try_lock_def fresh_dir_def demo_env_def)
  have m: "mf_total_size (cs_manifest demo_session) = 7" "mf_transport (cs_manifest demo_session) = TRANSPORT_PROXY_OFFSET_V1"
    by (simp_all add: demo_session_def manifest_of_def demo_input_def)
  have len: "length demo_file = 7" by (simp add: demo_file_def)
  have w: "write_part disk_ok sha64 (cs_manifest demo_session) ?d 0 demo_file (replicate 64 (CHR ''b''))
      = (?d\<lparr>sd_parts := Some demo_parts\<rparr>, Ok Written)"
    unfolding write_part_def m demo_check len
    by (simp add: scan_parts_def part_ranges_empty disk_ok_def fresh_dir_def store_part_def demo_parts_def)
  have c: "sd_completed ?d = NoFile" by (simp add: fresh_dir_def)
  show ?thesis
    by (simp add: put_chunk_def o l demo_digest m w c completed_file_id_def read_json_def Let_def split: result.split prod.split)
qed

lemma demo_assemble:
  "assemble disk_ok sha64 (cs_manifest demo_session) ((fresh_dir (cs_manifest demo_session))\<lparr>sd_parts := Some demo_parts\<rparr>)
   = ((fresh_dir (cs_manifest demo_session))\<lparr>sd_parts := Some demo_parts, sd_body := Some demo_file\<rparr>, Ok (7, sha64 demo_file))"
proof -
  let ?d = "(fresh_dir (cs_manifest demo_session))\<lparr>sd_parts := Some demo_parts\<rparr>"
  have m: "mf_total_size (cs_manifest demo_session) = 7" by (simp add: demo_session_def manifest_of_def demo_input_def)
  have p: "scan_parts True ?d = Ok [rg 0 7]" by (simp add: scan_parts_Some demo_parts_def part_ranges_single)
  have l: "fmlookup demo_parts (part_name 0 7) = Some demo_file" by (simp add: demo_parts_def)
  show ?thesis
    unfolding assemble_def session_status_def m disk_ok_def
    by (simp add: p l status_of_def merge_adjacent_def push_part_def missing_complement_def Let_def)
qed

lemma sha64_file: "sha64 demo_file = replicate 64 (CHR ''b'')"
  by (simp add: sha64_def demo_file_def)

lemma demo_fields: "frozen_of (fields_of demo_headers None (cs_manifest demo_session)) =
  \<lparr>fi_plaintext_sha256 = replicate 64 (CHR ''a''), fi_plaintext_size = 2, fi_sealed_size = 7, fi_format_version = 1,
   fi_encryption_key_id = 0, fi_chunk_plain_size = 8\<rparr>"
  by (simp add: frozen_of_def fields_of_def demo_session_def manifest_of_def demo_input_def to_ascii_lowercase_def ascii_lower_char_def)

lemma demo_verify:
  "verify_attachment demo_crypto sha64 \<lparr>rd_bytes = demo_file, rd_clean = True\<rparr> 7
    \<lparr>fi_plaintext_sha256 = replicate 64 (CHR ''a''), fi_plaintext_size = 2, fi_sealed_size = 7, fi_format_version = 1,
     fi_encryption_key_id = 0, fi_chunk_plain_size = 8\<rparr> [] = Ok (sha64 demo_file)"
  by code_simp

lemma sha_texts: "sha256_text (replicate 64 (CHR ''a''))" "sha256_text (replicate 64 (CHR ''b''))"
  by (simp_all add: sha256_text_def list_all_iff is_ascii_hexdigit_def ascii_lower_char_def Let_def)

definition demo_tables :: file_db where
  "demo_tables = \<lparr>db_objects = fmempty, db_files = fmempty, db_next_object = 1, db_next_file = 1\<rparr>"

lemma demo_publish:
  "\<exists>staged db' m. publish_and_record (re_pub demo_env) (re_dbe demo_env) sha64 0 True True True
      \<lparr>so_file_id = 7, so_file_path = generate_file_path (sha64 demo_file) FtImage ''a.png'', so_source_id = 0,
       so_file_type = FtImage, so_written = 7, so_stored_sha256 = sha64 demo_file\<rparr>
      (fields_of demo_headers None (cs_manifest demo_session)) ((fmempty, Some demo_file), demo_tables) = ((staged, db'), Ok m)
     \<and> db_next_object db' = 2"
proof -
  let ?f = "fields_of demo_headers None (cs_manifest demo_session)"
  have f: "rf_plaintext_sha256 ?f = replicate 64 (CHR ''a'')" "rf_format_version ?f = 1"
    by (simp_all add: fields_of_def demo_session_def manifest_of_def demo_input_def to_ascii_lowercase_def ascii_lower_char_def)
  show ?thesis
    by (simp add: publish_and_record_def converge_upload_def register_object_def insert_object_def placement_of_def
        find_object_def find_object_at_def demo_tables_def sha64_file sha_texts f Let_def
        publish_or_recognise_def publish_object_def publish_object_local_def link_final_def
        insert_or_recognise_def insert_within_def new_metadata_def)
qed

definition demo_ready :: upload_state where
  "demo_ready = put_dir demo_session ((fresh_dir (cs_manifest demo_session))\<lparr>sd_parts := Some demo_parts\<rparr>) fresh_server"

lemma demo_run: "run (upload_step sha64) fresh_server demo_events = demo_ready"
  unfolding run.simps demo_issue
  by (simp add: demo_put demo_ready_def put_dir_def demo_session_def fresh_server_def)

lemma demo_complete:
  "\<exists>st rsp. complete_upload s3 demo_env demo_headers None demo_ready = (st, Ok rsp)
     \<and> db_next_object (us_db st) = 2 \<and> open_session demo_env demo_headers st = Ok demo_session"
proof -
  let ?m = "cs_manifest demo_session" let ?d = "(fresh_dir ?m)\<lparr>sd_parts := Some demo_parts\<rparr>"
  have o: "open_session demo_env demo_headers demo_ready = Ok demo_session"
    by (rule demo_open [where d = ?d]) (simp_all add: demo_ready_def demo_session_def put_dir_def fresh_dir_def)
  have d: "dir_of demo_session demo_ready = Some ?d" by (simp add: demo_ready_def)
  then have l: "lock_or_busy demo_env demo_session demo_ready = Ok ?d"
    by (simp add: lock_or_busy_def try_lock_def fresh_dir_def)
  have m: "mf_transport ?m = TRANSPORT_PROXY_OFFSET_V1" "mf_reserved_file_id ?m = 7" "mf_file_type ?m = ''image''" "mf_filename ?m = ''a.png''"
    by (simp_all add: demo_session_def manifest_of_def demo_input_def)
  have db: "us_db demo_ready = demo_tables" "us_objects demo_ready = fmempty"
    by (simp_all add: demo_ready_def fresh_server_def demo_tables_def)
  have r: "recover_completed demo_env demo_session ?d demo_ready = (demo_ready, None)"
    by (simp add: recover_completed_def completed_file_id_def read_json_def fresh_dir_def get_file_metadata_def db demo_tables_def get_by_file_id_def)
  let ?d2 = "?d\<lparr>sd_body := Some demo_file\<rparr>"
  define st2 where "st2 = put_dir demo_session ?d2 demo_ready"
  have st2: "us_objects st2 = fmempty" "us_db st2 = demo_tables" "dir_of demo_session st2 = Some ?d2"
    by (simp_all add: st2_def db)
  then have staged: "staged_bytes (re_fs demo_env) demo_session st2 = Some demo_file" by (simp add: staged_bytes_def)
  have v: "verify_staged_object demo_env (Some demo_file) (frozen_of (fields_of demo_headers None ?m)) [] = Ok (sha64 demo_file)"
    using demo_verify by (simp add: verify_staged_object_def demo_fields stream_of_def) (simp add: demo_file_def)
  obtain src where src: "resolve_storage_source (re_fs demo_env) = Ok src" using demo_env_simps(13) by blast
  have ft: "file_type_from_str ''image'' = Some FtImage" by (simp add: file_type_from_str_def)
  have rf: "rf_filename (fields_of demo_headers None ?m) = ''a.png''" by (simp add: fields_of_def m)
  obtain staged db' meta where pub: "publish_and_record (re_pub demo_env) (re_dbe demo_env) sha64 0 True True True
      \<lparr>so_file_id = 7, so_file_path = generate_file_path (sha64 demo_file) FtImage ''a.png'', so_source_id = 0,
       so_file_type = FtImage, so_written = 7, so_stored_sha256 = sha64 demo_file\<rparr>
      (fields_of demo_headers None ?m) ((fmempty, Some demo_file), demo_tables) = ((staged, db'), Ok meta)"
      "db_next_object db' = 2" using demo_publish by blast
  define st3 where "st3 = put_staged (re_fs demo_env) demo_session (snd staged) (st2\<lparr>us_objects := fst staged, us_db := db'\<rparr>)"
  have c: "commit_chunked_upload demo_env demo_session 7 (fields_of demo_headers None ?m) [] st2 = (st3, Ok meta)"
    by (cases staged) (use pub in \<open>simp add: commit_chunked_upload_def src staged v m ft rf st2 st3_def Let_def\<close>)
  have st3: "dir_of demo_session st3 = Some (?d2\<lparr>sd_body := snd staged\<rparr>)" "us_db st3 = db'"
    using st2(3) by (simp_all add: st3_def put_staged_def dir_of_def put_dir_def)
  have f: "fst (finish_session demo_env demo_session (fm_file_id meta) st3) =
      put_dir demo_session (?d2\<lparr>sd_parts := None, sd_body := None, sd_completed := Json (fm_file_id meta)\<rparr>) st3"
    by (simp add: finish_session_def st3 fresh_dir_def write_completed_def write_json_atomic_def drop_payload_def)
  have "open_session demo_env demo_headers (fst (finish_session demo_env demo_session (fm_file_id meta) st3)) = Ok demo_session"
    unfolding f by (rule demo_open [where d = "?d2\<lparr>sd_parts := None, sd_body := None, sd_completed := Json (fm_file_id meta)\<rparr>"])
      (simp_all add: demo_session_def fresh_dir_def)
  moreover have "db_next_object (us_db (fst (finish_session demo_env demo_session (fm_file_id meta) st3))) = 2"
    unfolding f by (simp add: st3 pub(2))
  ultimately show ?thesis
    using demo_assemble c by (simp add: complete_upload_def o l m r proxy_publish_def site_key_of_def st2_def)
qed

lemma demo_admissible:
  "admissible (upload_ok sha64) (upload_step sha64) fresh_server (demo_events @ [Complete demo_env demo_headers None])"
proof -
  have "env_ok sha64 demo_env demo_ready"
    by (simp add: env_ok_def demo_ready_def fresh_server_def db_ready_def tables_ok_def all_backed_def)
  then show ?thesis
    unfolding admissible_append demo_run by (simp add: demo_input_def)
qed

lemma env_ok_demo: "upload_inv sha64 st \<Longrightarrow> db_next_object (us_db st) = 2 \<Longrightarrow> env_ok sha64 demo_env st"
  by (simp add: env_ok_def db_ready_def upload_inv_def)




end
