(* ===== verification/S3Upload.thy ===== *)
theory S3Upload
  imports UploadRoutes
begin

text \<open>
  Uploads that go straight to an S3 bucket: the S3 branches of \<open>http/routes/upload_s3.rs\<close> and the part
  URLs of \<open>http/routes/upload.rs\<close>. The bucket is behind the two traits \<open>NumberedPartBackend\<close> and
  \<open>FinalObjectProbe\<close>; they are records of functions on a world of arbitrary type, so that everything
  proved here holds for whatever the bucket answers.

  The lemmas show that an object is deleted only after a look at it that proves it belongs to the
  session, that no completion is answered without bytes verified in the same request, that the status is
  exact, and where concurrent requests lose data.
\<close>

section \<open>The bucket\<close>

record upload_reference =
  mr_bucket :: string
  mr_final_key :: string
  mr_provider_upload_id :: string

datatype numbered_part_error = NoSuchUpload | Conflict | PreconditionFailed | Backend

record completed_part =
  cp_number :: u32
  cp_etag :: string
  cp_checksum :: string

record final_object_head =
  fo_content_length :: u64
  fo_upload_id :: "string option"
  fo_etag :: string

record 'w numbered_parts =
  np_create :: "string \<Rightarrow> string \<Rightarrow> string \<Rightarrow> u64 \<Rightarrow> 'w \<Rightarrow> 'w \<times> (upload_reference, numbered_part_error) result"
  np_sign_part_url :: "upload_reference \<Rightarrow> u32 \<Rightarrow> u64 \<Rightarrow> string \<Rightarrow> u64 \<Rightarrow> 'w \<Rightarrow> 'w \<times> (string, numbered_part_error) result"
  np_list_parts :: "upload_reference \<Rightarrow> 'w \<Rightarrow> 'w \<times> (listed_part list, numbered_part_error) result"
  np_complete :: "upload_reference \<Rightarrow> completed_part list \<Rightarrow> 'w \<Rightarrow> 'w \<times> (unit, numbered_part_error) result"
  np_abort :: "upload_reference \<Rightarrow> 'w \<Rightarrow> 'w \<times> (unit, numbered_part_error) result"

record 'w object_probe =
  op_head :: "upload_reference \<Rightarrow> 'w \<Rightarrow> 'w \<times> (final_object_head option, unit) result"
  op_open_stream :: "upload_reference \<Rightarrow> 'w \<Rightarrow> 'w \<times> (u64 \<times> reader, unit) result"
  op_delete_if_match :: "upload_reference \<Rightarrow> string \<Rightarrow> 'w \<Rightarrow> 'w \<times> (bool, unit) result"

text \<open>The state of the server with the world of the bucket, and what a request finds wired: the two
  traits, which are absent when direct uploads are not configured, and the environment of the second
  recording that a duplicate needs.\<close>

record 'w s3_state = upload_state +
  s3_world :: 'w

record 'w s3_ports =
  sp_backend :: "'w numbered_parts option"
  sp_probe :: "'w object_probe option"
  sp_again :: db_env

definition in_bucket :: "('w \<Rightarrow> 'w \<times> 'r) \<Rightarrow> 'w s3_state \<Rightarrow> 'w s3_state \<times> 'r" where
  "in_bucket f st = (let (w, r) = f (s3_world st) in (st\<lparr>s3_world := w\<rparr>, r))"

section \<open>Shared steps\<close>

definition restart_required :: server_error where
  "restart_required = coded UploadRestartRequired 422"

datatype complete_recovery = RestartUpload | VerifyExistingObject

fun complete_recovery_for :: "numbered_part_error \<Rightarrow> complete_recovery option" where
  "complete_recovery_for Conflict = Some RestartUpload"
| "complete_recovery_for PreconditionFailed = Some VerifyExistingObject"
| "complete_recovery_for NoSuchUpload = None"
| "complete_recovery_for Backend = None"

definition s3_reference_of :: "manifest \<Rightarrow> (u64 \<times> u32 \<times> upload_reference, server_error) result" where
  "s3_reference_of m =
     (case (mf_part_size m, mf_total_parts m, mf_bucket m, mf_final_key m, mf_provider_upload_id m) of
        (Some part_size, Some total_parts, Some bucket, Some final_key, Some pid) \<Rightarrow>
          Ok (part_size, total_parts,
              \<lparr>mr_bucket = bucket, mr_final_key = final_key, mr_provider_upload_id = pid\<rparr>)
      | _ \<Rightarrow> Err (Internal []))"

definition is_ours :: "chunked_session \<Rightarrow> final_object_head \<Rightarrow> bool" where
  "is_ours s head \<longleftrightarrow> fo_upload_id head = Some (cs_upload_id s)"

definition must_abort ::
  "'w numbered_parts \<Rightarrow> upload_reference \<Rightarrow> 'w s3_state \<Rightarrow> 'w s3_state \<times> (unit, server_error) result" where
  "must_abort be ref st =
     (case in_bucket (np_abort be ref) st of
        (st', Ok _) \<Rightarrow> (st', Ok ())
      | (st', Err NoSuchUpload) \<Rightarrow> (st', Ok ())
      | (st', Err _) \<Rightarrow> (st', Err (Internal [])))"

definition manifest_identity :: "manifest \<Rightarrow> frozen_identity" where
  "manifest_identity m =
     \<lparr>fi_plaintext_sha256 = mf_plaintext_sha256 m, fi_plaintext_size = mf_plaintext_size m,
      fi_sealed_size = mf_total_size m, fi_format_version = mf_format_version m,
      fi_encryption_key_id = mf_encryption_key_id m, fi_chunk_plain_size = mf_chunk_plain_size m\<rparr>"

definition verify_final_object ::
  "'o route_env \<Rightarrow> 'w object_probe \<Rightarrow> upload_reference \<Rightarrow> manifest \<Rightarrow> 'w s3_state
     \<Rightarrow> 'w s3_state \<times> (string, server_error) result" where
  "verify_final_object env pr ref m st =
     (case site_key_of env (mf_encryption_key_id m) of
        Err e \<Rightarrow> (st, Err e)
      | Ok site_key \<Rightarrow>
          (case in_bucket (op_open_stream pr ref) st of
             (st', Err _) \<Rightarrow> (st', Err (ServiceUnavailable []))
           | (st', Ok (observed_size, stream)) \<Rightarrow>
               (st', verify_attachment (re_ac env) (re_sha env) stream observed_size (manifest_identity m) site_key)))"

definition delete_then_restart_or_retry ::
  "'w object_probe \<Rightarrow> upload_reference \<Rightarrow> string \<Rightarrow> 'w s3_state \<Rightarrow> 'w s3_state \<times> (upload_response, server_error) result" where
  "delete_then_restart_or_retry pr ref etag st =
     (case in_bucket (op_delete_if_match pr ref etag) st of
        (st', Ok True) \<Rightarrow> (st', Err restart_required)
      | (st', Ok False) \<Rightarrow> (st', Err (Internal []))
      | (st', Err _) \<Rightarrow> (st', Err (Internal [])))"

section \<open>Status\<close>

definition whole_file_status :: "u64 \<Rightarrow> bool \<Rightarrow> status_response" where
  "whole_file_status total_size completed =
     \<lparr>sr_received = [rg 0 total_size], sr_missing = [], sr_received_bytes = total_size, sr_total_size = total_size,
      sr_completed = completed\<rparr>"

definition s3_status ::
  "'o route_env \<Rightarrow> 'w s3_ports \<Rightarrow> chunked_session \<Rightarrow> 'w s3_state \<Rightarrow> 'w s3_state \<times> (status_response, server_error) result" where
  "s3_status env ports s st =
     (case lock_or_busy env s st of
        Err e \<Rightarrow> (st, Err e)
      | Ok d \<Rightarrow>
     let total_size = mf_total_size (cs_manifest s) in
     (case completed_file_id (re_up env RtTombstone) d of
        Err e \<Rightarrow> (st, Err e)
      | Ok (Some _) \<Rightarrow> (st, Ok (whole_file_status total_size True))
      | Ok None \<Rightarrow>
     (case s3_reference_of (cs_manifest s) of
        Err e \<Rightarrow> (st, Err e)
      | Ok (part_size, total_parts, ref) \<Rightarrow>
     (case sp_backend ports of
        None \<Rightarrow> (st, Err (Internal []))
      | Some be \<Rightarrow>
     (case in_bucket (np_list_parts be ref) st of
        (st1, Ok parts) \<Rightarrow>
          let received = ranges_from_parts parts part_size total_parts total_size
          in (st1, Ok \<lparr>sr_received = received, sr_missing = missing_complement received total_size,
                       sr_received_bytes = (\<Sum>r\<leftarrow>received. rg_length r), sr_total_size = total_size,
                       sr_completed = False\<rparr>)
      | (st1, Err NoSuchUpload) \<Rightarrow>
          (case sp_probe ports of
             None \<Rightarrow> (st1, Err (Internal []))
           | Some pr \<Rightarrow>
               (case in_bucket (op_head pr ref) st1 of
                  (st2, Err _) \<Rightarrow> (st2, Err (Internal []))
                | (st2, Ok None) \<Rightarrow> (st2, Err (coded UploadSessionGone 410))
                | (st2, Ok (Some head)) \<Rightarrow>
                    if \<not> is_ours s head then (st2, Err (Internal []))
                    else if fo_content_length head = total_size then (st2, Ok (whole_file_status total_size False))
                    else (st2, Err (Internal []))))
      | (st1, Err _) \<Rightarrow> (st1, Err (Internal [])))))))"

section \<open>Completion\<close>

text \<open>\<open>record_and_finish\<close>: the row, if need be a second time after the redundant object was deleted,
  then the tombstone.\<close>

definition drop_redundant ::
  "'w object_probe \<Rightarrow> upload_reference \<Rightarrow> chunked_session \<Rightarrow> 'w s3_state \<Rightarrow> 'w s3_state \<times> (unit, server_error) result" where
  "drop_redundant pr ref s st =
     (case in_bucket (op_head pr ref) st of
        (st1, Err _) \<Rightarrow> (st1, Err (Internal []))
      | (st1, Ok None) \<Rightarrow> (st1, Err (Internal []))
      | (st1, Ok (Some head)) \<Rightarrow>
          if \<not> is_ours s head then (st1, Err (Internal []))
          else (case in_bucket (op_delete_if_match pr ref (fo_etag head)) st1 of
                  (st2, Ok True) \<Rightarrow> (st2, Ok ())
                | (st2, Ok False) \<Rightarrow> (st2, Err (Internal []))
                | (st2, Err _) \<Rightarrow> (st2, Err (Internal []))))"

definition record_row_s3 ::
  "'o route_env \<Rightarrow> db_env \<Rightarrow> headers \<Rightarrow> string option \<Rightarrow> chunked_session \<Rightarrow> string \<Rightarrow> bool \<Rightarrow> 'w s3_state
     \<Rightarrow> 'w s3_state \<times> (s3_record_outcome, server_error) result" where
  "record_row_s3 env dbe h business_id s stored_sha256 allow_duplicate st =
     (let (db, r) = record_s3_published (re_fs env) dbe (re_now_millis env) s stored_sha256
                      (fields_of h business_id (cs_manifest s)) allow_duplicate (us_db st)
      in (st\<lparr>us_db := db\<rparr>, r))"

definition record_and_finish ::
  "'o route_env \<Rightarrow> 'w s3_ports \<Rightarrow> headers \<Rightarrow> string option \<Rightarrow> 'w object_probe \<Rightarrow> upload_reference \<Rightarrow> chunked_session
     \<Rightarrow> string \<Rightarrow> 'w s3_state \<Rightarrow> 'w s3_state \<times> (file_metadata, server_error) result" where
  "record_and_finish env ports h business_id pr ref s stored_sha256 st =
     (let finish = (\<lambda>st meta. (fst (finish_session env s (fm_file_id meta) st), Ok meta))
      in case record_row_s3 env (re_dbe env) h business_id s stored_sha256 False st of
           (st1, Err e) \<Rightarrow> (st1, Err e)
         | (st1, Ok (Recorded meta)) \<Rightarrow> finish st1 meta
         | (st1, Ok DuplicateObject) \<Rightarrow>
             (case drop_redundant pr ref s st1 of
                (st2, Err e) \<Rightarrow> (st2, Err e)
              | (st2, Ok _) \<Rightarrow>
                  (case record_row_s3 env (sp_again ports) h business_id s stored_sha256 True st2 of
                     (st3, Err e) \<Rightarrow> (st3, Err e)
                   | (st3, Ok (Recorded meta)) \<Rightarrow> finish st3 meta
                   | (st3, Ok DuplicateObject) \<Rightarrow> (st3, Err (Internal [])))))"

text \<open>The end shared by the two recoveries: no upload may survive the row.\<close>

definition abort_and_record ::
  "'o route_env \<Rightarrow> 'w s3_ports \<Rightarrow> headers \<Rightarrow> string option \<Rightarrow> 'w numbered_parts \<Rightarrow> 'w object_probe \<Rightarrow> upload_reference
     \<Rightarrow> chunked_session \<Rightarrow> string \<Rightarrow> 'w s3_state \<Rightarrow> 'w s3_state \<times> (upload_response, server_error) result" where
  "abort_and_record env ports h business_id be pr ref s stored_sha256 st =
     (case must_abort be ref st of
        (st1, Err e) \<Rightarrow> (st1, Err e)
      | (st1, Ok _) \<Rightarrow>
          (case record_and_finish env ports h business_id pr ref s stored_sha256 st1 of
             (st2, Err e) \<Rightarrow> (st2, Err e)
           | (st2, Ok meta) \<Rightarrow> (st2, Ok (upload_response_of env meta))))"

definition abort_and_refuse ::
  "'w numbered_parts \<Rightarrow> upload_reference \<Rightarrow> 'w s3_state \<Rightarrow> 'w s3_state \<times> (upload_response, server_error) result" where
  "abort_and_refuse be ref st =
     (case must_abort be ref st of
        (st1, Err e) \<Rightarrow> (st1, Err e)
      | (st1, Ok _) \<Rightarrow> (st1, Err (Internal [])))"

definition recover_from_existing_object ::
  "'o route_env \<Rightarrow> 'w s3_ports \<Rightarrow> headers \<Rightarrow> string option \<Rightarrow> 'w numbered_parts \<Rightarrow> 'w object_probe \<Rightarrow> upload_reference
     \<Rightarrow> chunked_session \<Rightarrow> final_object_head \<Rightarrow> 'w s3_state \<Rightarrow> 'w s3_state \<times> (upload_response, server_error) result" where
  "recover_from_existing_object env ports h business_id be pr ref s head st =
     (if \<not> is_ours s head then abort_and_refuse be ref st
      else (case verify_final_object env pr ref (cs_manifest s) st of
              (st1, Ok stored_sha256) \<Rightarrow> abort_and_record env ports h business_id be pr ref s stored_sha256 st1
            | (st1, Err (Validation _)) \<Rightarrow> delete_then_restart_or_retry pr ref (fo_etag head) st1
            | (st1, Err e) \<Rightarrow> (st1, Err e)))"

definition verify_precondition_failed ::
  "'o route_env \<Rightarrow> 'w s3_ports \<Rightarrow> headers \<Rightarrow> string option \<Rightarrow> 'w numbered_parts \<Rightarrow> 'w object_probe \<Rightarrow> upload_reference
     \<Rightarrow> chunked_session \<Rightarrow> 'w s3_state \<Rightarrow> 'w s3_state \<times> (upload_response, server_error) result" where
  "verify_precondition_failed env ports h business_id be pr ref s st =
     (case in_bucket (op_head pr ref) st of
        (st1, Err _) \<Rightarrow> (st1, Err (Internal []))
      | (st1, Ok None) \<Rightarrow> (st1, Err (Internal []))
      | (st1, Ok (Some head)) \<Rightarrow>
          if \<not> is_ours s head then abort_and_refuse be ref st1
          else (case verify_final_object env pr ref (cs_manifest s) st1 of
                  (st2, Ok stored_sha256) \<Rightarrow> abort_and_record env ports h business_id be pr ref s stored_sha256 st2
                | (st2, Err (Validation _)) \<Rightarrow> abort_and_refuse be ref st2
                | (st2, Err e) \<Rightarrow> (st2, Err e)))"

text \<open>After \<open>NoSuchUpload\<close>, from listing or from completing: a published object may be there.\<close>

definition recover_closed_upload ::
  "'o route_env \<Rightarrow> 'w s3_ports \<Rightarrow> headers \<Rightarrow> string option \<Rightarrow> 'w numbered_parts \<Rightarrow> 'w object_probe \<Rightarrow> upload_reference
     \<Rightarrow> chunked_session \<Rightarrow> 'w s3_state \<Rightarrow> 'w s3_state \<times> (upload_response, server_error) result" where
  "recover_closed_upload env ports h business_id be pr ref s st =
     (case in_bucket (op_head pr ref) st of
        (st1, Err _) \<Rightarrow> (st1, Err (Internal []))
      | (st1, Ok (Some head)) \<Rightarrow> recover_from_existing_object env ports h business_id be pr ref s head st1
      | (st1, Ok None) \<Rightarrow> (st1, Err restart_required))"

text \<open>Step 4: the listed parts that fit the geometry and have a declared digest, each number once.\<close>

fun collect_parts :: "manifest \<Rightarrow> u64 \<Rightarrow> u32 \<Rightarrow> completed_part list \<Rightarrow> listed_part list \<Rightarrow> completed_part list" where
  "collect_parts m part_size total_parts acc [] = acc"
| "collect_parts m part_size total_parts acc (p # ps) =
     (let geometry_ok = is_ok (check_part_geometry (lp_number p) (lp_size p) total_parts part_size (mf_total_size m));
          acc' = (case fmlookup (mf_part_digests m) (lp_number p) of
                    None \<Rightarrow> acc
                  | Some checksum \<Rightarrow>
                      if geometry_ok \<and> \<not> list_ex (\<lambda>c. cp_number c = lp_number p) acc
                      then acc @ [\<lparr>cp_number = lp_number p, cp_etag = lp_etag p, cp_checksum = checksum\<rparr>]
                      else acc)
      in collect_parts m part_size total_parts acc' ps)"

text \<open>Steps 6 and 7: read the object back, verify it, record it.\<close>

definition verify_and_record ::
  "'o route_env \<Rightarrow> 'w s3_ports \<Rightarrow> headers \<Rightarrow> string option \<Rightarrow> 'w numbered_parts \<Rightarrow> 'w object_probe \<Rightarrow> upload_reference
     \<Rightarrow> chunked_session \<Rightarrow> 'w s3_state \<Rightarrow> 'w s3_state \<times> (upload_response, server_error) result" where
  "verify_and_record env ports h business_id be pr ref s st =
     (case verify_final_object env pr ref (cs_manifest s) st of
        (st1, Ok stored_sha256) \<Rightarrow>
          (case record_and_finish env ports h business_id pr ref s stored_sha256 st1 of
             (st2, Err e) \<Rightarrow> (st2, Err e)
           | (st2, Ok meta) \<Rightarrow> (st2, Ok (upload_response_of env meta)))
      | (st1, Err (Validation _)) \<Rightarrow>
          (case in_bucket (op_head pr ref) st1 of
             (st2, Err _) \<Rightarrow> (st2, Err (Internal []))
           | (st2, Ok None) \<Rightarrow> (st2, Err restart_required)
           | (st2, Ok (Some head)) \<Rightarrow>
               if is_ours s head then delete_then_restart_or_retry pr ref (fo_etag head) st2
               else abort_and_refuse be ref st2)
      | (st1, Err e) \<Rightarrow> (st1, Err e))"

text \<open>Steps 4 to 7, from the list of parts on.\<close>

definition assemble_parts ::
  "'o route_env \<Rightarrow> 'w s3_ports \<Rightarrow> headers \<Rightarrow> string option \<Rightarrow> 'w numbered_parts \<Rightarrow> 'w object_probe \<Rightarrow> u64 \<Rightarrow> u32 \<Rightarrow> upload_reference
     \<Rightarrow> chunked_session \<Rightarrow> listed_part list \<Rightarrow> 'w s3_state \<Rightarrow> 'w s3_state \<times> (upload_response, server_error) result" where
  "assemble_parts env ports h business_id be pr part_size total_parts ref s snapshot st =
     (let completed_parts = collect_parts (cs_manifest s) part_size total_parts [] snapshot
      in if length completed_parts \<noteq> unat total_parts then (st, Err (coded UploadMissingRanges 409))
         else (case in_bucket (np_complete be ref (sort_key cp_number completed_parts)) st of
                 (st1, Ok _) \<Rightarrow> verify_and_record env ports h business_id be pr ref s st1
               | (st1, Err e) \<Rightarrow>
                   (case complete_recovery_for e of
                      Some RestartUpload \<Rightarrow> (st1, Err restart_required)
                    | Some VerifyExistingObject \<Rightarrow> verify_precondition_failed env ports h business_id be pr ref s st1
                    | None \<Rightarrow>
                        if e = NoSuchUpload then recover_closed_upload env ports h business_id be pr ref s st1
                        else (st1, Err (Internal [])))))"

definition s3_complete ::
  "'o route_env \<Rightarrow> 'w s3_ports \<Rightarrow> headers \<Rightarrow> string option \<Rightarrow> chunked_session \<Rightarrow> session_dir \<Rightarrow> 'w s3_state
     \<Rightarrow> 'w s3_state \<times> (upload_response, server_error) result" where
  "s3_complete env ports h business_id s d st =
     (case recover_completed env s d st of
        (st1, Some r) \<Rightarrow> (st1, r)
      | (st1, None) \<Rightarrow>
     (case s3_reference_of (cs_manifest s) of
        Err e \<Rightarrow> (st1, Err e)
      | Ok (part_size, total_parts, ref) \<Rightarrow>
     (case (sp_backend ports, sp_probe ports) of
        (Some be, Some pr) \<Rightarrow>
          (case in_bucket (op_head pr ref) st1 of
             (st2, Err _) \<Rightarrow> (st2, Err (Internal []))
           | (st2, Ok (Some head)) \<Rightarrow> recover_from_existing_object env ports h business_id be pr ref s head st2
           | (st2, Ok None) \<Rightarrow>
               (case in_bucket (np_list_parts be ref) st2 of
                  (st3, Ok snapshot) \<Rightarrow> assemble_parts env ports h business_id be pr part_size total_parts ref s snapshot st3
                | (st3, Err NoSuchUpload) \<Rightarrow> recover_closed_upload env ports h business_id be pr ref s st3
                | (st3, Err _) \<Rightarrow> (st3, Err (Internal []))))
      | _ \<Rightarrow> (st1, Err (Internal [])))))"

section \<open>Abort\<close>

text \<open>The loop of \<open>s3_abort\<close>: \<open>first\<close> is the round before which the abort already happened.\<close>

fun confirm_rounds ::
  "'w numbered_parts \<Rightarrow> upload_reference \<Rightarrow> bool \<Rightarrow> nat \<Rightarrow> 'w s3_state \<Rightarrow> 'w s3_state \<times> (bool, server_error) result" where
  "confirm_rounds be ref first 0 st = (st, Ok False)"
| "confirm_rounds be ref first (Suc left) st =
     (case (if first then (st, Ok ()) else must_abort be ref st) of
        (st1, Err e) \<Rightarrow> (st1, Err e)
      | (st1, Ok _) \<Rightarrow>
          (case in_bucket (np_list_parts be ref) st1 of
             (st2, Ok parts) \<Rightarrow> if parts = [] then (st2, Ok True) else confirm_rounds be ref False left st2
           | (st2, Err NoSuchUpload) \<Rightarrow> (st2, Ok True)
           | (st2, Err _) \<Rightarrow> (st2, Err (Internal []))))"

definition s3_abort ::
  "'o route_env \<Rightarrow> 'w s3_ports \<Rightarrow> chunked_session \<Rightarrow> 'w s3_state \<Rightarrow> 'w s3_state \<times> (unit, server_error) result" where
  "s3_abort env ports s st =
     (case s3_reference_of (cs_manifest s) of
        Err e \<Rightarrow> (st, Err e)
      | Ok (_, _, ref) \<Rightarrow>
     (case sp_backend ports of
        None \<Rightarrow> (st, Err (Internal []))
      | Some be \<Rightarrow>
     (case must_abort be ref st of
        (st1, Err e) \<Rightarrow> (st1, Err e)
      | (st1, Ok _) \<Rightarrow>
     (case confirm_rounds be ref True 3 st1 of
        (st2, Err e) \<Rightarrow> (st2, Err e)
      | (st2, Ok False) \<Rightarrow> (st2, Err (Internal []))
      | (st2, Ok True) \<Rightarrow>
          let (root, r) = discard (re_up env RtDiscard) (cs_upload_id s) (us_root st2)
          in (st2\<lparr>us_root := root\<rparr>, r)))))"

section \<open>Part URLs\<close>

definition MAX_PARTS_PER_REQUEST :: nat where
  "MAX_PARTS_PER_REQUEST = 100"

definition PART_URL_TTL_SECS :: u64 where
  "PART_URL_TTL_SECS = 15 * 60"

record part_url_item =
  pu_part_number :: u32
  pu_content_length :: u64
  pu_checksum_sha256_hex :: string

record signed_part =
  sg_part_number :: u32
  sg_url :: string
  sg_checksum :: string

text \<open>\<open>encode\<close>: the Base64 text of the bytes a string of hexadecimal digits stands for.\<close>

definition checksum_b64_from_hex :: "(string \<Rightarrow> string) \<Rightarrow> string \<Rightarrow> (string, string) result" where
  "checksum_b64_from_hex encode hex_str =
     (let s = trim hex_str
      in if length s \<noteq> 64 \<or> \<not> list_all is_ascii_hexdigit s then Err [] else Ok (encode s))"

fun sign_error :: "numbered_part_error \<Rightarrow> server_error" where
  "sign_error NoSuchUpload = coded UploadSessionGone 410"
| "sign_error Conflict = Internal []"
| "sign_error PreconditionFailed = Internal []"
| "sign_error Backend = Internal []"

fun sign_parts ::
  "(string \<Rightarrow> string) \<Rightarrow> 'w numbered_parts \<Rightarrow> upload_reference \<Rightarrow> u64 \<Rightarrow> u32 \<Rightarrow> u64 \<Rightarrow> signed_part list \<Rightarrow> part_url_item list
     \<Rightarrow> 'w s3_state \<Rightarrow> 'w s3_state \<times> (signed_part list, server_error) result" where
  "sign_parts encode be ref part_size total_parts total_size out [] st = (st, Ok out)"
| "sign_parts encode be ref part_size total_parts total_size out (item # items) st =
     (case check_part_geometry (pu_part_number item) (pu_content_length item) total_parts part_size total_size of
        Err _ \<Rightarrow> (st, Err (coded UploadChunkNotAligned 400))
      | Ok _ \<Rightarrow>
     (case checksum_b64_from_hex encode (pu_checksum_sha256_hex item) of
        Err _ \<Rightarrow> (st, Err (coded InvalidParams 400))
      | Ok b64 \<Rightarrow>
     (case in_bucket (np_sign_part_url be ref (pu_part_number item) (pu_content_length item) b64 PART_URL_TTL_SECS) st of
        (st1, Err e) \<Rightarrow> (st1, Err (sign_error e))
      | (st1, Ok url) \<Rightarrow>
          sign_parts encode be ref part_size total_parts total_size
            (out @ [\<lparr>sg_part_number = pu_part_number item, sg_url = url, sg_checksum = b64\<rparr>]) items st1)))"

text \<open>\<open>part_urls\<close> from the lock on; \<open>s\<close> is the session as it was opened before the lock was taken.\<close>

definition part_urls_locked ::
  "(string \<Rightarrow> string) \<Rightarrow> 'o route_env \<Rightarrow> 'w s3_ports \<Rightarrow> chunked_session \<Rightarrow> part_url_item list \<Rightarrow> 'w s3_state
     \<Rightarrow> 'w s3_state \<times> (signed_part list, server_error) result" where
  "part_urls_locked encode env ports s items st =
     (let m = cs_manifest s in
      if mf_transport m \<noteq> TRANSPORT_S3_MULTIPART_V1 then (st, Err (coded UploadModeConflict 409))
      else (case lock_or_busy env s st of
        Err e \<Rightarrow> (st, Err e)
      | Ok d \<Rightarrow>
     (case completed_file_id (re_up env RtTombstone) d of
        Err e \<Rightarrow> (st, Err e)
      | Ok (Some _) \<Rightarrow> (st, Err (coded UploadSessionCompleted 409))
      | Ok None \<Rightarrow>
     (case s3_reference_of m of
        Err e \<Rightarrow> (st, Err e)
      | Ok (part_size, total_parts, ref) \<Rightarrow>
     if items = [] \<or> MAX_PARTS_PER_REQUEST < length items then (st, Err (coded InvalidParams 400))
     else (case sp_backend ports of
        None \<Rightarrow> (st, Err (Internal []))
      | Some be \<Rightarrow>
     (case sign_parts encode be ref part_size total_parts (mf_total_size m) [] items st of
        (st1, Err e) \<Rightarrow> (st1, Err e)
      | (st1, Ok out) \<Rightarrow>
          (case record_part_digests (re_up env RtDigestWrite) (re_up env RtDigestSync)
                  (map (\<lambda>p. (sg_part_number p, sg_checksum p)) out) m d of
             (d', Err _) \<Rightarrow> (put_dir s d' st1, Err (Internal []))
           | (d', Ok _) \<Rightarrow> (put_dir s d' st1, Ok out)))))))) "

definition part_urls ::
  "(string \<Rightarrow> string) \<Rightarrow> 'o route_env \<Rightarrow> 'w s3_ports \<Rightarrow> headers \<Rightarrow> part_url_item list \<Rightarrow> 'w s3_state
     \<Rightarrow> 'w s3_state \<times> (signed_part list, server_error) result" where
  "part_urls encode env ports h items st =
     (case open_session env h st of
        Err e \<Rightarrow> (st, Err e)
      | Ok s \<Rightarrow> part_urls_locked encode env ports s items st)"

section \<open>A bucket that keeps a log\<close>

text \<open>Any bucket, with a log of the calls it got and what it answered. What a handler does to a bucket
  is read off this log.\<close>

datatype bucket_call =
    Headed upload_reference "(final_object_head option, unit) result"
  | Opened upload_reference "(u64 \<times> reader, unit) result"
  | DeleteAsked upload_reference string "(bool, unit) result"
  | Created upload_reference
  | Signed upload_reference u32 string
  | Listed upload_reference "(listed_part list, numbered_part_error) result"
  | CompleteAsked upload_reference "completed_part list" "(unit, numbered_part_error) result"
  | AbortAsked upload_reference "(unit, numbered_part_error) result"
  | OtherCall

definition logged :: "('w \<Rightarrow> 'w \<times> 'r) \<Rightarrow> ('r \<Rightarrow> bucket_call) \<Rightarrow> 'w \<times> bucket_call list \<Rightarrow> ('w \<times> bucket_call list) \<times> 'r" where
  "logged f ev wl = (let (w, r) = f (fst wl) in ((w, snd wl @ [ev r]), r))"

definition logged_probe :: "'w object_probe \<Rightarrow> ('w \<times> bucket_call list) object_probe" where
  "logged_probe pr =
     \<lparr>op_head = (\<lambda>ref. logged (op_head pr ref) (Headed ref)),
      op_open_stream = (\<lambda>ref. logged (op_open_stream pr ref) (Opened ref)),
      op_delete_if_match = (\<lambda>ref etag. logged (op_delete_if_match pr ref etag) (DeleteAsked ref etag))\<rparr>"

definition logged_parts :: "'w numbered_parts \<Rightarrow> ('w \<times> bucket_call list) numbered_parts" where
  "logged_parts be =
     \<lparr>np_create = (\<lambda>i b k n. logged (np_create be i b k n) (\<lambda>r. case r of Ok ref \<Rightarrow> Created ref | Err _ \<Rightarrow> OtherCall)),
      np_sign_part_url = (\<lambda>ref n len b64 ttl. logged (np_sign_part_url be ref n len b64 ttl)
         (\<lambda>r. if is_ok r then Signed ref n b64 else OtherCall)),
      np_list_parts = (\<lambda>ref. logged (np_list_parts be ref) (Listed ref)),
      np_complete = (\<lambda>ref parts. logged (np_complete be ref parts) (CompleteAsked ref parts)),
      np_abort = (\<lambda>ref. logged (np_abort be ref) (AbortAsked ref))\<rparr>"

definition logged_ports :: "'w s3_ports \<Rightarrow> ('w \<times> bucket_call list) s3_ports" where
  "logged_ports ports =
     \<lparr>sp_backend = map_option logged_parts (sp_backend ports), sp_probe = map_option logged_probe (sp_probe ports),
      sp_again = sp_again ports\<rparr>"

abbreviation call_log :: "('w \<times> bucket_call list) s3_state \<Rightarrow> bucket_call list" where
  "call_log st \<equiv> snd (s3_world st)"

text \<open>Every delete happens on evidence in the calls before it.\<close>

definition deletes_after :: "(bucket_call set \<Rightarrow> upload_reference \<Rightarrow> string \<Rightarrow> bool) \<Rightarrow> bucket_call list \<Rightarrow> bool" where
  "deletes_after P calls \<longleftrightarrow>
     (\<forall>pre ref etag r post. calls = pre @ DeleteAsked ref etag r # post \<longrightarrow> P (set pre) ref etag)"

text \<open>Every delete is for the object that an earlier look at the same key reported with the id of this
  session, and is conditional on the tag reported there.\<close>

definition own_deletes :: "string \<Rightarrow> bucket_call list \<Rightarrow> bool" where
  "own_deletes sid = deletes_after
     (\<lambda>seen ref etag. \<exists>head. Headed ref (Ok (Some head)) \<in> seen \<and> fo_upload_id head = Some sid \<and> fo_etag head = etag)"

definition grows :: "string \<Rightarrow> ('w \<times> bucket_call list) s3_state \<Rightarrow> ('w \<times> bucket_call list) s3_state \<Rightarrow> bool" where
  "grows sid st st' \<longleftrightarrow>
     (\<exists>more. call_log st' = call_log st @ more) \<and> (own_deletes sid (call_log st) \<longrightarrow> own_deletes sid (call_log st'))"

lemma grows_refl [simp]: "grows sid st st"
  by (simp add: grows_def)

lemma grows_trans [trans]: "grows sid a b \<Longrightarrow> grows sid b c \<Longrightarrow> grows sid a c"
  by (auto simp: grows_def)

lemma grows_same: "call_log st' = call_log st \<Longrightarrow> grows sid st st'"
  by (simp add: grows_def)

lemma grows_subset: "grows sid st st' \<Longrightarrow> set (call_log st) \<subseteq> set (call_log st')"
  by (auto simp: grows_def)

lemma deletes_after_Nil [simp]: "deletes_after P []"
  by (simp add: deletes_after_def)

lemma deletes_after_snoc:
  assumes "deletes_after P calls" "\<And>ref etag r. c = DeleteAsked ref etag r \<Longrightarrow> P (set calls) ref etag"
  shows "deletes_after P (calls @ [c])"
  unfolding deletes_after_def
proof (intro allI impI)
  fix pre ref etag r post
  assume eq: "calls @ [c] = pre @ DeleteAsked ref etag r # post"
  show "P (set pre) ref etag"
  proof (cases post rule: rev_exhaust)
    case Nil
    then show ?thesis using eq assms(2) [of ref etag r] by simp
  next
    case (snoc post' x)
    then have "calls = pre @ DeleteAsked ref etag r # post'" using eq by simp
    then show ?thesis using assms(1) unfolding deletes_after_def by blast
  qed
qed

lemma own_deletes_Nil [simp]: "own_deletes sid []"
  by (simp add: own_deletes_def)

lemma own_deletes_snoc:
  assumes "own_deletes sid calls"
    and "\<And>ref etag r. c = DeleteAsked ref etag r \<Longrightarrow>
       \<exists>head. Headed ref (Ok (Some head)) \<in> set calls \<and> fo_upload_id head = Some sid \<and> fo_etag head = etag"
  shows "own_deletes sid (calls @ [c])"
  using assms unfolding own_deletes_def by (rule deletes_after_snoc)

lemma in_bucket_logged:
  assumes "in_bucket (logged f ev) st = (st', r)"
  shows "call_log st' = call_log st @ [ev r]" "us_db st' = us_db st" "us_root st' = us_root st" "us_objects st' = us_objects st"
  using assms by (auto simp: in_bucket_def logged_def Let_def split: prod.split_asm)

lemma logged_grows:
  assumes "in_bucket (logged f ev) st = (st', r)" "\<And>ref etag x. ev r \<noteq> DeleteAsked ref etag x"
  shows "grows sid st st'"
  using in_bucket_logged(1) [OF assms(1)] assms(2) by (auto simp: grows_def intro!: own_deletes_snoc)

lemma head_grows:
  assumes "in_bucket (op_head (logged_probe pr) ref) st = (st', r)"
  shows "grows sid st st'" "Headed ref r \<in> set (call_log st')"
  using assms logged_grows in_bucket_logged(1) by (fastforce simp: logged_probe_def)+

lemma open_grows:
  assumes "in_bucket (op_open_stream (logged_probe pr) ref) st = (st', r)"
  shows "grows sid st st'" "Opened ref r \<in> set (call_log st')"
  using assms logged_grows in_bucket_logged(1) by (fastforce simp: logged_probe_def)+

lemma delete_grows:
  assumes "in_bucket (op_delete_if_match (logged_probe pr) ref (fo_etag head)) st = (st', r)"
    and "Headed ref (Ok (Some head)) \<in> set (call_log st)" "fo_upload_id head = Some sid"
  shows "grows sid st st'"
  using in_bucket_logged(1) [of "op_delete_if_match pr ref (fo_etag head)"] assms
  by (auto simp: grows_def logged_probe_def intro!: own_deletes_snoc)

lemma backend_grows:
  "in_bucket (np_list_parts (logged_parts be) ref) st = (st', parts) \<Longrightarrow> grows sid st st'"
  "in_bucket (np_complete (logged_parts be) ref cps) st = (st', done_r) \<Longrightarrow> grows sid st st'"
  "in_bucket (np_abort (logged_parts be) ref) st = (st', gone) \<Longrightarrow> grows sid st st'"
  by (auto simp: logged_parts_def intro!: logged_grows)

section \<open>Completion is guarded\<close>

definition verified :: "'o route_env \<Rightarrow> manifest \<Rightarrow> bucket_call list \<Rightarrow> bool" where
  "verified env m calls \<longleftrightarrow>
     (\<exists>part_size total_parts ref n stream key digest.
        s3_reference_of m = Ok (part_size, total_parts, ref) \<and> Opened ref (Ok (n, stream)) \<in> set calls
        \<and> site_key_of env (mf_encryption_key_id m) = Ok key
        \<and> verify_attachment (re_ac env) (re_sha env) stream n (manifest_identity m) key = Ok digest)"

lemma verified_mono: "verified env m calls \<Longrightarrow> set calls \<subseteq> set calls' \<Longrightarrow> verified env m calls'"
  unfolding verified_def by blast

lemma must_abort_grows: "must_abort (logged_parts be) ref st = (st', r) \<Longrightarrow> grows sid st st'"
  by (auto simp: must_abort_def dest: backend_grows(3)
      split: prod.split_asm result.split_asm numbered_part_error.split_asm)

lemma abort_and_refuse_grows:
  "abort_and_refuse (logged_parts be) ref st = (st', r) \<Longrightarrow> grows sid st st' \<and> \<not> is_ok r"
  by (auto simp: abort_and_refuse_def dest: must_abort_grows split: prod.split_asm result.split_asm)

lemma verify_final_object_grows:
  assumes "verify_final_object env (logged_probe pr) ref m st = (st', r)"
    and "s3_reference_of m = Ok (part_size, total_parts, ref)"
  shows "grows sid st st'" "r = Ok digest \<Longrightarrow> verified env m (call_log st')" "us_db st' = us_db st"
  using assms open_grows [of pr ref st] in_bucket_logged(2) [of "op_open_stream pr ref" "Opened ref" st]
  by (fastforce simp: verify_final_object_def verified_def logged_probe_def split: prod.split_asm result.split_asm)+

lemma delete_then_restart_grows:
  assumes "delete_then_restart_or_retry (logged_probe pr) ref (fo_etag head) st = (st', r)"
    and "Headed ref (Ok (Some head)) \<in> set (call_log st)" "fo_upload_id head = Some sid"
  shows "grows sid st st' \<and> \<not> is_ok r"
  using assms
  by (auto simp: delete_then_restart_or_retry_def dest: delete_grows split: prod.split_asm result.split_asm bool.split_asm)

lemma drop_redundant_grows:
  assumes "drop_redundant (logged_probe pr) ref s st = (st', r)"
  shows "grows (cs_upload_id s) st st'"
proof -
  obtain st1 q where q: "in_bucket (op_head (logged_probe pr) ref) st = (st1, q)" by fastforce
  note h = head_grows [OF q]
  show ?thesis
  proof (cases "\<exists>head. q = Ok (Some head) \<and> is_ours s head")
    case False
    then show ?thesis using assms q h(1)
      by (auto simp: drop_redundant_def split: result.split_asm option.split_asm if_split_asm)
  next
    case True
    then obtain head where head: "q = Ok (Some head)" "is_ours s head" by blast
    obtain st2 e where e: "in_bucket (op_delete_if_match (logged_probe pr) ref (fo_etag head)) st1 = (st2, e)" by fastforce
    have "grows (cs_upload_id s) st1 st2"
      using delete_grows [OF e] h(2) head by (simp add: is_ours_def)
    moreover have "st' = st2" using assms q e head
      by (auto simp: drop_redundant_def split: result.split_asm bool.split_asm)
    ultimately show ?thesis using h(1) grows_trans by blast
  qed
qed

lemma map_ok_Ok: "map_ok f r = Ok y \<longleftrightarrow> (\<exists>x. r = Ok x \<and> y = f x)"
  by (cases r) auto

lemma record_row_s3_log:
  assumes "record_row_s3 env dbe h bid s digest allow st = (st', r)"
  shows "s3_world st' = s3_world st" "r = Ok (Recorded meta) \<Longrightarrow> fm_file_id meta = mf_reserved_file_id (cs_manifest s)"
proof -
  show "s3_world st' = s3_world st" using assms by (auto simp: record_row_s3_def split: prod.split_asm)
  assume "r = Ok (Recorded meta)"
  then obtain db where "record_s3_published (re_fs env) dbe (re_now_millis env) s digest (fields_of h bid (cs_manifest s)) allow (us_db st)
      = (db, Ok (Recorded meta))"
    using assms by (auto simp: record_row_s3_def split: prod.split_asm)
  then obtain m0 base db1 db' q where i: "insert_or_recognise dbe m0 base db1 = (db', q)"
      "fm_file_id m0 = mf_reserved_file_id (cs_manifest s)" "q = Ok meta"
    by (auto simp: record_s3_published_def Let_def new_metadata_def map_ok_Ok
        split: option.split_asm if_split_asm prod.split_asm result.split_asm)
  show "fm_file_id meta = mf_reserved_file_id (cs_manifest s)"
    using insert_or_recognise_spec(2) [OF i(1,3)] i(2) get_by_file_id_id by auto
qed

lemma s3_world_put_dir [simp]: "s3_world (put_dir s d st) = s3_world st"
  by (simp add: put_dir_def)

lemma s3_world_finish [simp]: "s3_world (fst (finish_session env s i st)) = s3_world st"
  by (auto simp: finish_session_def split: option.split prod.split result.split)

lemma record_and_finish_grows:
  assumes "record_and_finish env ports h bid (logged_probe pr) ref s digest st = (st', r)"
  shows "grows (cs_upload_id s) st st'" "r = Ok meta \<Longrightarrow> fm_file_id meta = mf_reserved_file_id (cs_manifest s)"
proof -
  obtain st1 q1 where q1: "record_row_s3 env (re_dbe env) h bid s digest False st = (st1, q1)" by fastforce
  obtain st2 q2 where q2: "drop_redundant (logged_probe pr) ref s st1 = (st2, q2)" by fastforce
  obtain st3 q3 where q3: "record_row_s3 env (sp_again ports) h bid s digest True st2 = (st3, q3)" by fastforce
  note rows = record_row_s3_log [OF q1] record_row_s3_log [OF q3]
  have st1: "grows (cs_upload_id s) st st1" using rows(1) by (simp add: grows_same)
  have st2: "grows (cs_upload_id s) st st2" using grows_trans [OF st1 drop_redundant_grows [OF q2]] .
  then have st3: "grows (cs_upload_id s) st st3" using rows(3) grows_trans grows_same by metis
  have fin: "grows (cs_upload_id s) st (fst (finish_session env s i x))" if "grows (cs_upload_id s) st x" for x i
    using that grows_trans grows_same [of "fst (finish_session env s i x)" x] by (metis s3_world_finish)
  show "grows (cs_upload_id s) st st'" using assms q1 q2 q3 st1 st2 st3 fin
    by (auto simp: record_and_finish_def Let_def split: result.split_asm s3_record_outcome.split_asm)
  show "fm_file_id meta = mf_reserved_file_id (cs_manifest s)" if "r = Ok meta"
    using assms q1 q2 q3 rows(2,4) that
    by (auto simp: record_and_finish_def Let_def split: result.split_asm s3_record_outcome.split_asm)
qed

text \<open>A completion step: the log grows by own deletes only, and an answer names the reserved id and rests
  on a verification.\<close>

definition guarded ::
  "'o route_env \<Rightarrow> chunked_session \<Rightarrow> ('w \<times> bucket_call list) s3_state
     \<Rightarrow> ('w \<times> bucket_call list) s3_state \<times> (upload_response, server_error) result \<Rightarrow> bool" where
  "guarded env s st res \<longleftrightarrow>
     grows (cs_upload_id s) st (fst res)
     \<and> (\<forall>rsp. snd res = Ok rsp \<longrightarrow>
          rsp_file_id rsp = mf_reserved_file_id (cs_manifest s) \<and> verified env (cs_manifest s) (call_log (fst res)))"

lemma guarded_from: "grows (cs_upload_id s) st st1 \<Longrightarrow> guarded env s st1 res \<Longrightarrow> guarded env s st res"
  unfolding guarded_def using grows_trans by blast

lemma guarded_refused: "grows (cs_upload_id s) st st1 \<Longrightarrow> guarded env s st (st1, Err e)"
  by (simp add: guarded_def)

lemma guarded_not_ok: "grows (cs_upload_id s) st (fst res) \<and> \<not> is_ok (snd res) \<Longrightarrow> guarded env s st res"
  by (cases res; cases "snd res") (auto simp: guarded_def)

lemma record_guarded:
  assumes "verified env (cs_manifest s) (call_log st)"
  shows "guarded env s st
    (case record_and_finish env ports h bid (logged_probe pr) ref s digest st of
       (st2, Err e) \<Rightarrow> (st2, Err e) | (st2, Ok meta) \<Rightarrow> (st2, Ok (upload_response_of env meta)))"
proof -
  obtain st2 q where q: "record_and_finish env ports h bid (logged_probe pr) ref s digest st = (st2, q)" by fastforce
  note r = record_and_finish_grows [OF q]
  have "verified env (cs_manifest s) (call_log st2)" using verified_mono [OF assms grows_subset [OF r(1)]] .
  then show ?thesis using q r by (auto simp: guarded_def upload_response_of_def split: result.split)
qed

lemma abort_and_record_guarded:
  assumes "verified env (cs_manifest s) (call_log st)"
  shows "guarded env s st (abort_and_record env ports h bid (logged_parts be) (logged_probe pr) ref s digest st)"
proof -
  obtain st1 q where q: "must_abort (logged_parts be) ref st = (st1, q)" by fastforce
  note g = must_abort_grows [OF q, of "cs_upload_id s"]
  show ?thesis
  proof (cases q)
    case (Ok u)
    have "verified env (cs_manifest s) (call_log st1)" using verified_mono [OF assms grows_subset [OF g]] .
    from guarded_from [OF g record_guarded [OF this]] show ?thesis
      using q Ok by (simp add: abort_and_record_def)
  next
    case (Err e)
    then show ?thesis using q g by (simp add: abort_and_record_def guarded_refused)
  qed
qed

lemma recover_existing_guarded:
  assumes ref: "s3_reference_of (cs_manifest s) = Ok (part_size, total_parts, ref)"
    and head: "Headed ref (Ok (Some head)) \<in> set (call_log st)"
  shows "guarded env s st (recover_from_existing_object env ports h bid (logged_parts be) (logged_probe pr) ref s head st)"
proof (cases "is_ours s head")
  case False
  then show ?thesis
    using abort_and_refuse_grows [OF prod.collapse [symmetric]]
    by (auto simp: recover_from_existing_object_def intro!: guarded_not_ok)
next
  case True
  obtain st1 q where q: "verify_final_object env (logged_probe pr) ref (cs_manifest s) st = (st1, q)" by fastforce
  note v = verify_final_object_grows [OF q ref]
  show ?thesis
  proof (cases q)
    case (Ok digest)
    have "guarded env s st (abort_and_record env ports h bid (logged_parts be) (logged_probe pr) ref s digest st1)"
      by (rule guarded_from [OF v(1) abort_and_record_guarded [OF v(2) [OF Ok]]])
    then show ?thesis using True q Ok by (simp add: recover_from_existing_object_def)
  next
    case (Err e)
    have "Headed ref (Ok (Some head)) \<in> set (call_log st1)" using head grows_subset [OF v(1)] by blast
    then have "guarded env s st1 (delete_then_restart_or_retry (logged_probe pr) ref (fo_etag head) st1)"
      using True delete_then_restart_grows [OF prod.collapse [symmetric]] by (intro guarded_not_ok) (simp add: is_ours_def)
    from guarded_from [OF v(1) this] show ?thesis using True q Err guarded_refused [OF v(1)]
      by (cases e) (simp_all add: recover_from_existing_object_def)
  qed
qed

lemma recover_closed_guarded:
  assumes "s3_reference_of (cs_manifest s) = Ok (part_size, total_parts, ref)"
  shows "guarded env s st (recover_closed_upload env ports h bid (logged_parts be) (logged_probe pr) ref s st)"
proof -
  obtain st1 q where q: "in_bucket (op_head (logged_probe pr) ref) st = (st1, q)" by fastforce
  note g = head_grows [OF q]
  show ?thesis
  proof (cases "\<exists>head. q = Ok (Some head)")
    case True
    then obtain head where head: "q = Ok (Some head)" by blast
    show ?thesis
      using guarded_from [OF g(1) recover_existing_guarded [OF assms, of head]] q g(2) head
      by (simp add: recover_closed_upload_def)
  next
    case False
    then show ?thesis using q guarded_refused [OF g(1)]
      by (auto simp: recover_closed_upload_def split: result.split option.split)
  qed
qed

lemma precondition_guarded:
  assumes ref: "s3_reference_of (cs_manifest s) = Ok (part_size, total_parts, ref)"
  shows "guarded env s st (verify_precondition_failed env ports h bid (logged_parts be) (logged_probe pr) ref s st)"
proof -
  obtain st1 q where q: "in_bucket (op_head (logged_probe pr) ref) st = (st1, q)" by fastforce
  note g = head_grows(1) [OF q, of "cs_upload_id s"]
  have refuse: "guarded env s st (abort_and_refuse (logged_parts be) ref x)" if "grows (cs_upload_id s) st x" for x
    using abort_and_refuse_grows [OF prod.collapse [symmetric]] by (intro guarded_from [OF that] guarded_not_ok)
  obtain st2 v where v: "verify_final_object env (logged_probe pr) ref (cs_manifest s) st1 = (st2, v)" by fastforce
  note w = verify_final_object_grows [OF v ref]
  have st2: "grows (cs_upload_id s) st st2" using grows_trans [OF g w(1)] .
  have "guarded env s st (abort_and_record env ports h bid (logged_parts be) (logged_probe pr) ref s digest st2)" if "v = Ok digest" for digest
    by (rule guarded_from [OF st2 abort_and_record_guarded [OF w(2) [OF that]]])
  then show ?thesis using q v refuse [OF g] refuse [OF st2] guarded_refused [OF g] guarded_refused [OF st2]
    by (auto simp: verify_precondition_failed_def split: result.split option.split server_error.split)
qed

lemma verify_and_record_guarded:
  assumes ref: "s3_reference_of (cs_manifest s) = Ok (part_size, total_parts, ref)"
  shows "guarded env s st (verify_and_record env ports h bid (logged_parts be) (logged_probe pr) ref s st)"
proof -
  obtain st1 v where v: "verify_final_object env (logged_probe pr) ref (cs_manifest s) st = (st1, v)" by fastforce
  note w = verify_final_object_grows [OF v ref]
  obtain st2 q where q: "in_bucket (op_head (logged_probe pr) ref) st1 = (st2, q)" by fastforce
  note g = head_grows [OF q]
  have st2: "grows (cs_upload_id s) st st2" using grows_trans [OF w(1) g(1)] .
  have delete: "guarded env s st (delete_then_restart_or_retry (logged_probe pr) ref (fo_etag head) st2)"
    if "q = Ok (Some head)" "is_ours s head" for head
    using that g(2) delete_then_restart_grows [OF prod.collapse [symmetric]]
    by (intro guarded_from [OF st2] guarded_not_ok) (simp add: is_ours_def)
  have refuse: "guarded env s st (abort_and_refuse (logged_parts be) ref st2)"
    using abort_and_refuse_grows [OF prod.collapse [symmetric]] by (intro guarded_from [OF st2] guarded_not_ok)
  show ?thesis
  proof (cases v)
    case (Ok digest)
    then show ?thesis using v guarded_from [OF w(1) record_guarded [OF w(2)]] by (simp add: verify_and_record_def)
  next
    case (Err e)
    have "guarded env s st (case q of Err _ \<Rightarrow> (st2, Err (Internal [])) | Ok None \<Rightarrow> (st2, Err restart_required)
        | Ok (Some head) \<Rightarrow> if is_ours s head then delete_then_restart_or_retry (logged_probe pr) ref (fo_etag head) st2
             else abort_and_refuse (logged_parts be) ref st2)"
      using delete refuse by (simp add: guarded_refused [OF st2] split: result.split option.split)
    then show ?thesis using v q Err
      by (cases e) (simp_all add: verify_and_record_def guarded_refused [OF w(1)])
  qed
qed

lemma assemble_parts_guarded:
  assumes "s3_reference_of (cs_manifest s) = Ok (part_size, total_parts, ref)"
  shows "guarded env s st (assemble_parts env ports h bid (logged_parts be) (logged_probe pr) part_size total_parts ref s snapshot st)"
proof -
  define cps where "cps = sort_key cp_number (collect_parts (cs_manifest s) part_size total_parts [] snapshot)"
  obtain st1 q where q: "in_bucket (np_complete (logged_parts be) ref cps) st = (st1, q)" by fastforce
  note g = backend_grows(2) [OF q, of "cs_upload_id s"]
  note next_steps = guarded_from [OF g verify_and_record_guarded [OF assms]] guarded_from [OF g precondition_guarded [OF assms]]
    guarded_from [OF g recover_closed_guarded [OF assms]]
  show ?thesis using q
    unfolding assemble_parts_def Let_def cps_def [symmetric]
    by (simp add: next_steps guarded_refused [OF g] guarded_refused [OF grows_refl]
        split: result.split option.split complete_recovery.split)
qed

lemma completed_response_row:
  assumes "chunked_completed_response env s i st = Ok rsp"
  shows "\<exists>meta. get_by_file_id (rsp_file_id rsp) (us_db st) = Some meta \<and> manifest_matches (cs_manifest s) meta"
  using assms get_by_file_id_id
  by (fastforce simp: chunked_completed_response_def get_file_metadata_def upload_response_of_def
      split: result.split_asm option.split_asm if_split_asm)

lemma recover_completed_s3:
  assumes "recover_completed env s d st = (st', q)"
  shows "s3_world st' = s3_world st"
    and "q = Some (Ok rsp) \<Longrightarrow>
       \<exists>meta. get_by_file_id (rsp_file_id rsp) (us_db st) = Some meta \<and> manifest_matches (cs_manifest s) meta"
proof -
  let ?reserved = "mf_reserved_file_id (cs_manifest s)"
  obtain st1 f where fin: "finish_session env s ?reserved st = (st1, f)" by fastforce
  have st1: "s3_world st1 = s3_world st" "us_db st1 = us_db st"
    using fin s3_world_finish [of env s ?reserved st]
    by (auto simp: finish_session_def split: option.split_asm prod.split_asm result.split_asm)
  show "s3_world st' = s3_world st"
    using assms fin st1(1)
    by (auto simp: recover_completed_def Let_def split: result.split_asm option.split_asm if_split_asm)
  show "\<exists>meta. get_by_file_id (rsp_file_id rsp) (us_db st) = Some meta \<and> manifest_matches (cs_manifest s) meta" if "q = Some (Ok rsp)"
    using assms fin st1(2) that completed_response_row [of env s _ st rsp] completed_response_row [of env s _ st1 rsp]
    by (auto simp: recover_completed_def Let_def split: result.split_asm option.split_asm if_split_asm)
qed

lemma logged_ports_simps [simp]:
  "sp_backend (logged_ports ports) = map_option logged_parts (sp_backend ports)"
  "sp_probe (logged_ports ports) = map_option logged_probe (sp_probe ports)"
  by (simp_all add: logged_ports_def)

text \<open>The part of a completion after the recovery of an earlier attempt.\<close>

lemma s3_complete_guarded:
  assumes "recover_completed env s d st = (st1, None)"
  shows "guarded env s st1 (s3_complete env (logged_ports ports) h bid s d st)"
proof (cases "s3_reference_of (cs_manifest s)")
  case (Err e)
  then show ?thesis using assms by (simp add: s3_complete_def guarded_refused)
next
  case (Ok x)
  then obtain part_size total_parts ref where ref: "s3_reference_of (cs_manifest s) = Ok (part_size, total_parts, ref)"
    by (cases x) auto
  show ?thesis
  proof (cases "sp_backend ports = None \<or> sp_probe ports = None")
    case True
    then show ?thesis using assms ref by (auto simp: s3_complete_def guarded_refused split: option.split)
  next
    case False
    then obtain be pr where wired: "sp_backend ports = Some be" "sp_probe ports = Some pr" by auto
    obtain st2 q where q: "in_bucket (op_head (logged_probe pr) ref) st1 = (st2, q)" by fastforce
    note g = head_grows [OF q]
    obtain st3 l where l: "in_bucket (np_list_parts (logged_parts be) ref) st2 = (st3, l)" by fastforce
    have st3: "grows (cs_upload_id s) st1 st3" using grows_trans [OF g(1) backend_grows(1) [OF l]] .
    have "guarded env s st1 (recover_from_existing_object env (logged_ports ports) h bid (logged_parts be) (logged_probe pr) ref s head st2)"
      if "q = Ok (Some head)" for head
      using guarded_from [OF g(1) recover_existing_guarded [OF ref]] g(2) that by simp
    then show ?thesis using assms ref wired q l
      by (simp add: s3_complete_def guarded_refused [OF g(1)] guarded_refused [OF st3]
          guarded_from [OF st3 assemble_parts_guarded [OF ref]] guarded_from [OF st3 recover_closed_guarded [OF ref]]
          split: result.split option.split numbered_part_error.split)
  qed
qed

text \<open>C36. A direct upload is completed only on evidence. Whatever the bucket answers and whichever
  statements fail: the completion of a session asks to delete an object only after a look at the same
  key that reported the id of this session, and under the tag reported there; and it is answered with
  a file only if that file was recorded before for the same content, or, under the id reserved for the
  session, if the stored object was read in this request and its content matched the frozen identity.
\<close>
theorem s3_completion_is_guarded:
  assumes "open_session env h st = Ok s" "mf_transport (cs_manifest s) = TRANSPORT_S3_MULTIPART_V1" "call_log st = []"
    and "complete_upload (s3_complete env (logged_ports ports) h bid) env h bid st = (st', r)"
  shows "own_deletes (cs_upload_id s) (call_log st')
    \<and> (\<forall>rsp. r = Ok rsp \<longrightarrow>
         (\<exists>meta. get_by_file_id (rsp_file_id rsp) (us_db st) = Some meta \<and> manifest_matches (cs_manifest s) meta)
         \<or> rsp_file_id rsp = mf_reserved_file_id (cs_manifest s) \<and> verified env (cs_manifest s) (call_log st'))"
proof (cases "lock_or_busy env s st")
  case (Err e)
  then show ?thesis using assms by (auto simp: complete_upload_def)
next
  case (Ok d)
  then have c: "s3_complete env (logged_ports ports) h bid s d st = (st', r)"
    using assms by (simp add: complete_upload_def)
  obtain st1 q where q: "recover_completed env s d st = (st1, q)" by fastforce
  note rec = recover_completed_s3 [OF q]
  show ?thesis
  proof (cases q)
    case None
    then have "guarded env s st1 (st', r)" using s3_complete_guarded [of env s d st st1 ports h bid] q c by simp
    then show ?thesis using rec(1) assms(3) by (simp add: guarded_def grows_def)
  next
    case (Some a)
    then have "st' = st1" "r = a" using c q by (simp_all add: s3_complete_def)
    then show ?thesis using rec Some assms(3) by auto
  qed
qed

section \<open>The status of a direct upload\<close>

lemma with_gaps_in_order: "with_gaps rs \<Longrightarrow> in_order rs"
  unfolding with_gaps_def in_order_def by (erule sorted_wrt_mono_rel [rotated]) simp

lemma bucket_ranges:
  fixes parts ps tp t defines "rs \<equiv> ranges_from_parts parts ps tp t"
  assumes "covers ps tp t"
  shows "positions (missing_complement rs t) = {..< unat t} - positions rs"
    and "missing_complement rs t = [] \<longleftrightarrow> good_parts parts ps tp t = {1 .. unat tp}"
    and "unat (\<Sum>r\<leftarrow>rs. rg_length r) = card (positions rs)"
proof -
  note spec = ranges_from_parts_spec [OF assms(2), of parts, folded rs_def]
  show missing: "positions (missing_complement rs t) = {..< unat t} - positions rs"
    using spec(2,3) by (intro missing_complement_exact with_gaps_sorted) auto
  have "missing_complement rs t = [] \<longleftrightarrow> {..< unat t} \<subseteq> (\<Union>n\<in>good_parts parts ps tp t. slot ps t n)"
    unfolding missing_complement_Nil missing spec(1) by blast
  also have "\<dots> \<longleftrightarrow> good_parts parts ps tp t = {1 .. unat tp}"
    using good_parts_bounds [OF assms(2)] by (intro slots_cover [OF assms(2)]) auto
  finally show "missing_complement rs t = [] \<longleftrightarrow> good_parts parts ps tp t = {1 .. unat tp}" .
  show "unat (\<Sum>r\<leftarrow>rs. rg_length r) = card (positions rs)"
    using in_order_bytes [OF with_gaps_in_order [OF spec(2)]] spec(3) by blast
qed

lemma s3_status_listed:
  assumes "s3_status env ports s st = (st', Ok status)" "\<not> sr_completed status"
    and "s3_reference_of (cs_manifest s) = Ok (ps, tp, ref)" "sp_backend ports = Some be"
    and "in_bucket (np_list_parts be ref) st = (st1, Ok parts)"
  shows "let rs = ranges_from_parts parts ps tp (mf_total_size (cs_manifest s))
    in st' = st1 \<and> sr_received status = rs \<and> sr_missing status = missing_complement rs (mf_total_size (cs_manifest s))
       \<and> sr_received_bytes status = (\<Sum>r\<leftarrow>rs. rg_length r)"
  using assms
  by (auto simp: s3_status_def Let_def whole_file_status_def split: result.split_asm option.split_asm)

text \<open>C40. The status of a direct upload is exact. With the part size and count that the server grants, the
  ranges reported for a list of parts cover exactly the slots of those listed parts that have a valid
  number and the required length, whatever else the bucket lists and in whatever order; the missing
  ranges are exactly the rest of the file, the byte count is the number of covered positions, and
  nothing is missing exactly when every part is there.
\<close>
theorem s3_status_is_exact:
  assumes "s3_status env ports s st = (st', Ok status)" "\<not> sr_completed status"
    and "s3_reference_of (cs_manifest s) = Ok (ps, tp, ref)" "sp_backend ports = Some be"
    and "in_bucket (np_list_parts be ref) st = (st1, Ok parts)"
    and "t = mf_total_size (cs_manifest s)" "s3_part_geometry t = (ps, tp)" "t \<noteq> 0"
  shows "positions (sr_received status) = (\<Union>n\<in>good_parts parts ps tp t. slot ps t n)
    \<and> positions (sr_missing status) = {..< unat t} - positions (sr_received status)
    \<and> unat (sr_received_bytes status) = card (positions (sr_received status))
    \<and> (sr_missing status = [] \<longleftrightarrow> good_parts parts ps tp t = {1 .. unat tp})"
proof -
  have c: "covers ps tp t" using geometry_bounds(4) [OF assms(7,8)] .
  show ?thesis
    using s3_status_listed [OF assms(1-5)] bucket_ranges [OF c, of parts] ranges_from_parts_spec(1) [OF c, of parts]
    by (simp add: assms(6) Let_def)
qed

section \<open>Concurrent part requests\<close>

lemma collect_parts_numbers:
  "cp_number ` set (collect_parts m ps tp acc parts) = cp_number ` set acc \<union>
     {lp_number p |p. p \<in> set parts \<and> lp_number p \<in> fset (fmdom (mf_part_digests m))
        \<and> is_ok (check_part_geometry (lp_number p) (lp_size p) tp ps (mf_total_size m))}"
proof (induction parts arbitrary: acc)
  case Nil
  then show ?case by simp
next
  case (Cons p parts)
  show ?case unfolding collect_parts.simps Let_def Cons
    by (auto simp: fmlookup_dom_iff list_ex_iff image_iff split: option.split) metis
qed

lemma collect_parts_distinct:
  "distinct (map cp_number acc) \<Longrightarrow> distinct (map cp_number (collect_parts m ps tp acc parts))"
proof (induction parts arbitrary: acc)
  case Nil
  then show ?case by simp
next
  case (Cons p parts)
  show ?case unfolding collect_parts.simps Let_def
    by (rule Cons.IH) (use Cons.prems in \<open>auto simp: list_ex_iff split: option.split\<close>)
qed

lemma collect_parts_complete:
  assumes "covers ps tp (mf_total_size m)" "length (collect_parts m ps tp [] parts) = unat tp" "1 \<le> unat n" "unat n \<le> unat tp"
  shows "n \<in> fset (fmdom (mf_part_digests m))"
proof -
  let ?cps = "collect_parts m ps tp [] parts"
  let ?N = "unat ` cp_number ` set ?cps"
  have sub: "?N \<subseteq> {1 .. unat tp}"
    using collect_parts_numbers [of m ps tp "[]" parts] check_geometry_iff [OF assms(1)] by auto
  have "card ?N = card (cp_number ` set ?cps)" by (intro card_image inj_onI) (simp add: word_unat_eq_iff)
  also have "\<dots> = unat tp" using distinct_card [OF collect_parts_distinct [of "[]" m ps tp parts]] assms(2) by simp
  finally have "?N = {1 .. unat tp}" using sub by (intro card_subset_eq) simp_all
  then have "unat n \<in> ?N" using assms(3,4) by simp
  then have "n \<in> cp_number ` set ?cps" by (auto simp: word_unat_eq_iff)
  then show ?thesis using collect_parts_numbers [of m ps tp "[]" parts] by auto
qed

lemma sign_parts_numbers:
  "sign_parts encode be ref ps tp t out items st = (st', Ok out') \<Longrightarrow>
     map sg_part_number out' = map sg_part_number out @ map pu_part_number items \<and> us_root st' = us_root st"
proof (induction items arbitrary: out st)
  case Nil
  then show ?case by simp
next
  case (Cons item items)
  then obtain st1 url b64 where "in_bucket (np_sign_part_url be ref (pu_part_number item) (pu_content_length item) b64 PART_URL_TTL_SECS) st = (st1, Ok url)"
      "sign_parts encode be ref ps tp t (out @ [\<lparr>sg_part_number = pu_part_number item, sg_url = url, sg_checksum = b64\<rparr>]) items st1 = (st', Ok out')"
    by (auto split: result.split_asm prod.split_asm)
  then show ?case using Cons.IH [of "out @ [\<lparr>sg_part_number = pu_part_number item, sg_url = url, sg_checksum = b64\<rparr>]" st1]
    by (auto simp: in_bucket_def split: prod.split_asm)
qed

lemma fmdom_declared: "fmlookup (fold (\<lambda>(n, b64) ds. fmupd n b64 ds) decls ds) n = None \<longleftrightarrow> fmlookup ds n = None \<and> n \<notin> fst ` set decls"
  by (induction decls arbitrary: ds) (auto split: if_split_asm)

lemma part_urls_locked_writes:
  assumes "part_urls_locked encode env ports s items st = (st', Ok out)"
  shows "\<exists>d ds. dir_of s st' = Some d \<and> sd_manifest d = Json ((cs_manifest s)\<lparr>mf_part_digests := ds\<rparr>)
    \<and> (\<forall>n. fmlookup ds n = None \<longleftrightarrow> fmlookup (mf_part_digests (cs_manifest s)) n = None \<and> n \<notin> pu_part_number ` set items)"
proof -
  let ?decls = "map (\<lambda>p. (sg_part_number p, sg_checksum p))"
  obtain d d' st1 be ps tp ref where w: "sign_parts encode be ref ps tp (mf_total_size (cs_manifest s)) [] items st = (st1, Ok out)"
      "record_part_digests (re_up env RtDigestWrite) (re_up env RtDigestSync) (?decls out) (cs_manifest s) d = (d', Ok ())"
      "st' = put_dir s d' st1"
    using assms
    by (auto simp: part_urls_locked_def Let_def split: if_split_asm result.split_asm option.split_asm prod.split_asm)
  have "fst ` set (?decls out) = pu_part_number ` set items"
    using sign_parts_numbers [OF w(1)] by (metis (mono_tags, lifting) append_Nil image_image list.map(1) fst_conv set_map image_cong)
  moreover have "sd_manifest d' = Json ((cs_manifest s)\<lparr>mf_part_digests :=
      fold (\<lambda>(n, b64) ds. fmupd n b64 ds) (?decls out) (mf_part_digests (cs_manifest s))\<rparr>)"
    using w(2) by (auto simp: record_part_digests_def write_json_atomic_def Let_def split: if_split_asm)
  ultimately show ?thesis using w(3) fmdom_declared [of "?decls out" "mf_part_digests (cs_manifest s)"] by auto
qed

lemma open_session_manifest:
  assumes "open_session env h st = Ok s" "dir_of s st = Some d" "sd_manifest d = Json m"
  shows "cs_manifest s = m"
  using open_session_Ok [OF assms(1)] assms(2,3) by simp

text \<open>C39. Two part requests that run concurrently lose digests. Both open the session before either of them
  takes the lock, so the second writes the manifest it read and drops what the first declared. From then
  on, as long as the client asks for no further URLs, the status of a bucket that holds all parts says
  that nothing is missing, but the completion is refused because ranges are missing.
\<close>
theorem concurrent_part_urls_lose_digests:
  assumes "open_session env1 h1 st = Ok s" "open_session env2 h2 st = Ok s"
    and "part_urls_locked encode env1 ports s items1 st = (st1, Ok out1)"
    and "part_urls_locked encode env2 ports s items2 st1 = (st2, Ok out2)"
    and "n \<in> pu_part_number ` set items1" "n \<notin> pu_part_number ` set items2" "fmlookup (mf_part_digests (cs_manifest s)) n = None"
    and "open_session env h st2 = Ok s'" "cs_upload_id s' = cs_upload_id s"
    and "s3_reference_of (cs_manifest s') = Ok (ps, tp, ref)" "s3_part_geometry (mf_total_size (cs_manifest s')) = (ps, tp)"
    and "mf_total_size (cs_manifest s') \<noteq> 0" "1 \<le> unat n" "unat n \<le> unat tp"
    and "s3_status env ports s' st3 = (st4, Ok status)" "\<not> sr_completed status" "sp_backend ports = Some be"
    and "in_bucket (np_list_parts be ref) st3 = (st4, Ok parts)"
    and "good_parts parts ps tp (mf_total_size (cs_manifest s')) = {1 .. unat tp}"
  shows "sr_missing status = []
    \<and> assemble_parts env ports h bid be pr ps tp ref s' parts st4 = (st4, Err (coded UploadMissingRanges 409))"
proof -
  have c: "covers ps tp (mf_total_size (cs_manifest s'))" using geometry_bounds(4) assms(11,12) by blast
  have "sr_missing status = []"
    using s3_status_listed [OF assms(15,16,10,17,18)] bucket_ranges(2) [OF c] assms(19) by (simp add: Let_def)
  moreover have "fmlookup (mf_part_digests (cs_manifest s')) n = None"
  proof -
    obtain d ds where d: "dir_of s st2 = Some d" "sd_manifest d = Json ((cs_manifest s)\<lparr>mf_part_digests := ds\<rparr>)"
        "fmlookup ds n = None"
      using part_urls_locked_writes [OF assms(4)] assms(6,7) by blast
    have "dir_of s' st2 = Some d" using d(1) assms(9) by (simp add: dir_of_def)
    then show ?thesis using open_session_manifest [OF assms(8) _ d(2)] d(3) by simp
  qed
  then have "length (collect_parts (cs_manifest s') ps tp [] parts) \<noteq> unat tp"
    using collect_parts_complete [OF c _ assms(13,14)] by (auto simp: fmlookup_dom_iff)
  ultimately show ?thesis by (simp add: assemble_parts_def)
qed

section \<open>A shared final key\<close>

text \<open>A plain bucket: objects with the id of the session that made them and a tag, and open uploads. It
  assembles an upload over whatever is stored under its key, as a bucket without conditional completion
  does.\<close>

record plain_object =
  po_content :: bytes
  po_upload_id :: string
  po_etag :: string

record open_upload =
  ou_key :: string
  ou_session :: string
  ou_parts :: "(u32, bytes) fmap"

record plain_bucket =
  pb_objects :: "(string, plain_object) fmap"
  pb_uploads :: "(string, open_upload) fmap"
  pb_count :: nat

definition assembled :: "open_upload \<Rightarrow> completed_part list \<Rightarrow> bytes" where
  "assembled u cps = concat (map (\<lambda>c. case fmlookup (ou_parts u) (cp_number c) of Some b \<Rightarrow> b | None \<Rightarrow> []) cps)"

definition plain_parts :: "plain_bucket numbered_parts" where
  "plain_parts =
     \<lparr>np_create = (\<lambda>sid bucket key n w.
         let pid = replicate (pb_count w) (CHR ''u'')
         in (w\<lparr>pb_count := Suc (pb_count w),
                pb_uploads := fmupd pid \<lparr>ou_key = key, ou_session = sid, ou_parts = fmempty\<rparr> (pb_uploads w)\<rparr>,
             Ok \<lparr>mr_bucket = bucket, mr_final_key = key, mr_provider_upload_id = pid\<rparr>)),
      np_sign_part_url = (\<lambda>ref n len b64 ttl w. (w, Ok (mr_final_key ref))),
      np_list_parts = (\<lambda>ref w. (w, case fmlookup (pb_uploads w) (mr_provider_upload_id ref) of
           None \<Rightarrow> Err NoSuchUpload
         | Some u \<Rightarrow> Ok (map (\<lambda>(n, b). \<lparr>lp_number = n, lp_size = of_nat (length b), lp_etag = [], lp_checksum = None\<rparr>)
                          (fm_entries (ou_parts u))))),
      np_complete = (\<lambda>ref cps w. case fmlookup (pb_uploads w) (mr_provider_upload_id ref) of
           None \<Rightarrow> (w, Err NoSuchUpload)
         | Some u \<Rightarrow>
             (w\<lparr>pb_objects := fmupd (mr_final_key ref) \<lparr>po_content = assembled u cps, po_upload_id = ou_session u,
                                                      po_etag = mr_provider_upload_id ref\<rparr> (pb_objects w),
                pb_uploads := fmdrop (mr_provider_upload_id ref) (pb_uploads w)\<rparr>, Ok ())),
      np_abort = (\<lambda>ref w. (w\<lparr>pb_uploads := fmdrop (mr_provider_upload_id ref) (pb_uploads w)\<rparr>, Ok ()))\<rparr>"

definition plain_probe :: "plain_bucket object_probe" where
  "plain_probe =
     \<lparr>op_head = (\<lambda>ref w. (w, Ok (map_option (\<lambda>x. \<lparr>fo_content_length = of_nat (length (po_content x)),
           fo_upload_id = Some (po_upload_id x), fo_etag = po_etag x\<rparr>) (fmlookup (pb_objects w) (mr_final_key ref))))),
      op_open_stream = (\<lambda>ref w. (w, case fmlookup (pb_objects w) (mr_final_key ref) of
           None \<Rightarrow> Err () | Some x \<Rightarrow> Ok (of_nat (length (po_content x)), \<lparr>rd_bytes = po_content x, rd_clean = True\<rparr>))),
      op_delete_if_match = (\<lambda>ref etag w. case fmlookup (pb_objects w) (mr_final_key ref) of
           None \<Rightarrow> (w, Ok True)
         | Some x \<Rightarrow> if po_etag x = etag then (w\<lparr>pb_objects := fmdrop (mr_final_key ref) (pb_objects w)\<rparr>, Ok True)
                     else (w, Ok False))\<rparr>"

definition plain_ports :: "db_env \<Rightarrow> plain_bucket s3_ports" where
  "plain_ports dbe = \<lparr>sp_backend = Some plain_parts, sp_probe = Some plain_probe, sp_again = dbe\<rparr>"

text \<open>All statements succeed and nothing else commits meanwhile.\<close>

definition quiet :: "db_env \<Rightarrow> bool" where
  "quiet env \<longleftrightarrow> (\<forall>x. de_up env x) \<and> (\<forall>db. de_wait env db = db)"

lemma converge_duplicate:
  assumes "quiet env" "find_object (up_plaintext_sha256 p) db = Some (i, obj)"
  shows "\<exists>pl. converge_upload env p db = (db, Ok (db, pl)) \<and> rp_duplicate pl \<and> rp_object_id pl = i
    \<and> rp_file_path pl = ao_file_path obj \<and> rp_storage_source_id pl = ao_storage_source_id obj"
  using assms find_object_Some [OF assms(2)]
  by (auto simp: converge_upload_def quiet_def placed_at_def Let_def split: option.split)

lemma record_duplicate:
  assumes "quiet dbe" "s3_reference_of (cs_manifest s) = Ok (ps, tp, ref)" "mf_storage_source_id (cs_manifest s) = Some src"
    and "fmlookup (fs_sources (re_fs env)) src = Some source" "ss_bucket source = Some (mr_bucket ref)"
    and "find_object (mf_plaintext_sha256 (cs_manifest s)) (us_db st) = Some (i, obj)"
    and "mf_reserved_file_id (cs_manifest s) \<notin> fset (fmdom (db_files (us_db st)))"
  shows "record_row_s3 env dbe h bid s digest False st = (st, Ok DuplicateObject)"
    and "\<exists>meta. record_row_s3 env dbe h bid s digest True st = (st\<lparr>us_db := fst (insert_within meta (us_db st))\<rparr>, Ok (Recorded meta))
           \<and> fm_file_id meta = mf_reserved_file_id (cs_manifest s) \<and> fm_object_id meta = i"
proof -
  let ?m = "cs_manifest s" let ?f = "fields_of h bid ?m"
  have ref: "mf_final_key ?m = Some (mr_final_key ref)" "mf_bucket ?m = Some (mr_bucket ref)"
    using assms(2) by (auto simp: s3_reference_of_def split: option.split_asm)
  have f: "rf_plaintext_sha256 ?f = mf_plaintext_sha256 ?m" by (simp add: fields_of_def)
  let ?p = "\<lparr>up_plaintext_sha256 = rf_plaintext_sha256 ?f, up_plaintext_size = rf_plaintext_size ?f,
     up_sealed_sha256 = digest, up_sealed_size = mf_total_size ?m, up_my_path = mr_final_key ref, up_my_source_id = src,
     up_format_version = rf_format_version ?f, up_encryption_key_id = rf_encryption_key_id ?f\<rparr>"
  obtain pl where pl: "converge_upload dbe ?p (us_db st) = (us_db st, Ok (us_db st, pl))" "rp_duplicate pl" "rp_object_id pl = i"
    using converge_duplicate [OF assms(1), of ?p "us_db st" i obj] assms(6) f by auto
  have up: "de_up dbe x" for x using assms(1) by (simp add: quiet_def)
  show "record_row_s3 env dbe h bid s digest False st = (st, Ok DuplicateObject)"
    by (simp add: record_row_s3_def record_s3_published_def ref assms(3-5) up pl Let_def)
  show "\<exists>meta. record_row_s3 env dbe h bid s digest True st = (st\<lparr>us_db := fst (insert_within meta (us_db st))\<rparr>, Ok (Recorded meta))
           \<and> fm_file_id meta = mf_reserved_file_id ?m \<and> fm_object_id meta = i"
    using assms(7)
    by (simp add: record_row_s3_def record_s3_published_def ref assms(3-5) up pl Let_def insert_or_recognise_def insert_within_def
        new_metadata_def)
qed

lemma us_db_finish [simp]: "us_db (fst (finish_session env s i st)) = us_db st"
  by (auto simp: finish_session_def split: option.split prod.split result.split)

lemma record_duplicate_plain:
  assumes "quiet (re_dbe env)" "quiet dbe" "s3_reference_of (cs_manifest s) = Ok (ps, tp, ref)"
    and "mf_storage_source_id (cs_manifest s) = Some src"
    and "fmlookup (fs_sources (re_fs env)) src = Some source" "ss_bucket source = Some (mr_bucket ref)"
    and "find_object (mf_plaintext_sha256 (cs_manifest s)) (us_db st) = Some (i, obj)"
    and "mf_reserved_file_id (cs_manifest s) \<notin> fset (fmdom (db_files (us_db st)))"
    and "fmlookup (pb_objects (s3_world st)) (mr_final_key ref) = Some x" "po_upload_id x = cs_upload_id s"
  shows "\<exists>st' meta. record_and_finish env (plain_ports dbe) h bid plain_probe ref s digest st = (st', Ok meta)
    \<and> s3_world st' = (s3_world st)\<lparr>pb_objects := fmdrop (mr_final_key ref) (pb_objects (s3_world st))\<rparr>
    \<and> us_db st' = fst (insert_within meta (us_db st))
    \<and> fm_file_id meta = mf_reserved_file_id (cs_manifest s) \<and> fm_object_id meta = i"
proof -
  define st1 where "st1 = st\<lparr>s3_world := (s3_world st)\<lparr>pb_objects := fmdrop (mr_final_key ref) (pb_objects (s3_world st))\<rparr>\<rparr>"
  have st1: "us_db st1 = us_db st" "s3_world st1 = (s3_world st)\<lparr>pb_objects := fmdrop (mr_final_key ref) (pb_objects (s3_world st))\<rparr>"
    by (simp_all add: st1_def)
  have drop: "drop_redundant plain_probe ref s st = (st1, Ok ())"
    using assms(9,10) by (simp add: drop_redundant_def in_bucket_def plain_probe_def is_ours_def st1_def)
  obtain meta where again: "record_row_s3 env dbe h bid s digest True st1 = (st1\<lparr>us_db := fst (insert_within meta (us_db st1))\<rparr>, Ok (Recorded meta))"
      "fm_file_id meta = mf_reserved_file_id (cs_manifest s)" "fm_object_id meta = i"
    using record_duplicate(2) [OF assms(2-6), of st1 i obj h bid digest] assms(7,8) st1(1) by auto
  let ?st2 = "st1\<lparr>us_db := fst (insert_within meta (us_db st1))\<rparr>"
  have "record_and_finish env (plain_ports dbe) h bid plain_probe ref s digest st
      = (fst (finish_session env s (fm_file_id meta) ?st2), Ok meta)"
    by (simp add: record_and_finish_def Let_def record_duplicate(1) [OF assms(1,3-8)] drop plain_ports_def again(1))
  then show ?thesis using again(2,3) st1 by simp
qed


section \<open>Sample direct uploads\<close>

definition s3_demo_env :: "unit route_env" where
  "s3_demo_env = demo_env\<lparr>re_fs := (re_fs demo_env)\<lparr>fs_sources := fmupd 0 \<lparr>ss_storage_type = ''s3'', ss_base_url = None,
     ss_endpoint = None, ss_bucket = Some ''b'', ss_path_prefix = None, ss_addressing_style = None\<rparr> fmempty\<rparr>\<rparr>"

definition s3_demo_manifest :: "u64 \<Rightarrow> u32 \<Rightarrow> manifest" where
  "s3_demo_manifest t parts = manifest_of sha64 0 demo_secret
     (demo_input\<lparr>ns_total_size := t, ns_transport := TRANSPORT_S3_MULTIPART_V1,
        ns_s3 := Some \<lparr>st_part_size = 8388608, st_total_parts = parts, st_bucket = ''b'', st_final_key = ''k'',
                       st_provider_upload_id = ''u'', st_storage_source_id = 0\<rparr>\<rparr>)"

abbreviation s3_demo_ref :: upload_reference where
  "s3_demo_ref \<equiv> \<lparr>mr_bucket = ''b'', mr_final_key = ''k'', mr_provider_upload_id = ''u''\<rparr>"

definition s3_demo_state :: "manifest \<Rightarrow> file_db \<Rightarrow> 'w \<Rightarrow> 'w s3_state" where
  "s3_demo_state m db w = \<lparr>us_root = \<lparr>ur_dirs = fmupd demo_id (fresh_dir m) fmempty, ur_anchors = fmempty\<rparr>,
     us_objects = fmempty, us_db = db, s3_world = w\<rparr>"

lemma s3_demo_env_simps [simp]:
  "re_now s3_demo_env = 0" "re_now_millis s3_demo_env = 0" "re_sha s3_demo_env = sha64" "re_ac s3_demo_env = demo_crypto"
  "re_keys s3_demo_env k = Some []" "re_up s3_demo_env x = True" "re_busy s3_demo_env = False"
  "quiet (re_dbe s3_demo_env)" "\<exists>src. resolve_storage_source (re_fs s3_demo_env) = Ok src"
  by (simp_all add: s3_demo_env_def resolve_storage_source_def quiet_def demo_env_def)

lemma s3_demo_manifest_simps [simp]:
  "mf_total_size (s3_demo_manifest t n) = t" "mf_transport (s3_demo_manifest t n) = TRANSPORT_S3_MULTIPART_V1"
  "mf_reserved_file_id (s3_demo_manifest t n) = 7" "mf_part_digests (s3_demo_manifest t n) = fmempty"
  "mf_storage_source_id (s3_demo_manifest t n) = Some 0" "mf_encryption_key_id (s3_demo_manifest t n) = 0"
  "mf_plaintext_sha256 (s3_demo_manifest t n) = replicate 64 (CHR ''a'')"
  "s3_reference_of (s3_demo_manifest t n) = Ok (8388608, n, s3_demo_ref)"
  by (simp_all add: s3_demo_manifest_def manifest_of_def s3_reference_of_def demo_input_def to_ascii_lowercase_def ascii_lower_char_def)

lemma s3_demo_open:
  assumes "fmlookup (ur_dirs (us_root st)) demo_id = Some d" "sd_manifest d = Json ((s3_demo_manifest t n)\<lparr>mf_part_digests := ds\<rparr>)"
  shows "open_session s3_demo_env demo_headers st = Ok \<lparr>cs_upload_id = demo_id, cs_manifest = (s3_demo_manifest t n)\<lparr>mf_part_digests := ds\<rparr>\<rparr>"
proof -
  have p: "parse_token (demo_id @ CHR ''.'' # demo_secret) = Some (demo_id, demo_secret)" using parse_token_made [OF demo_ids] by simp
  obtain src where src: "resolve_storage_source (re_fs s3_demo_env) = Ok src" using s3_demo_env_simps(9) by blast
  show ?thesis
    using assms
    by (simp add: open_session_def demo_headers_def src open_chunked_def p read_json_def constant_time_eq_iff
        s3_demo_manifest_def manifest_of_def TOKEN_TTL_SECS_def)
qed

text \<open>A bucket that lists two full parts of a file of sixteen mebibytes, and requests for one URL each.\<close>

definition two_parts :: "unit numbered_parts" where
  "two_parts =
     \<lparr>np_create = (\<lambda>_ _ _ _ w. (w, Err Backend)), np_sign_part_url = (\<lambda>_ _ _ _ _ w. (w, Ok ''url'')),
      np_list_parts = (\<lambda>_ w. (w, Ok [\<lparr>lp_number = 2, lp_size = 8388608, lp_etag = [], lp_checksum = None\<rparr>,
                                     \<lparr>lp_number = 1, lp_size = 8388608, lp_etag = [], lp_checksum = None\<rparr>])),
      np_complete = (\<lambda>_ _ w. (w, Ok ())), np_abort = (\<lambda>_ w. (w, Ok ()))\<rparr>"

abbreviation two_parts_ports :: "unit s3_ports" where
  "two_parts_ports \<equiv> \<lparr>sp_backend = Some two_parts, sp_probe = None, sp_again = re_dbe demo_env\<rparr>"

abbreviation one_item :: "u32 \<Rightarrow> part_url_item list" where
  "one_item n \<equiv> [\<lparr>pu_part_number = n, pu_content_length = 8388608, pu_checksum_sha256_hex = replicate 64 (CHR ''b'')\<rparr>]"

lemma two_parts_geometry:
  "s3_part_geometry 16777216 = (8388608, 2)"
  "check_part_geometry 1 8388608 2 8388608 16777216 = Ok ()" "check_part_geometry 2 8388608 2 8388608 16777216 = Ok ()"
  by code_simp+

abbreviation two_part_session :: "(u32, string) fmap \<Rightarrow> chunked_session" where
  "two_part_session ds \<equiv> \<lparr>cs_upload_id = demo_id, cs_manifest = (s3_demo_manifest 16777216 2)\<lparr>mf_part_digests := ds\<rparr>\<rparr>"

lemma reference_ignores_digests [simp]: "s3_reference_of (m\<lparr>mf_part_digests := ds\<rparr>) = s3_reference_of m"
  by (simp add: s3_reference_of_def)

lemma demo_hex: "checksum_b64_from_hex encode (replicate 64 (CHR ''b'')) = Ok (encode (replicate 64 (CHR ''b'')))"
proof -
  have t: "trim (replicate 64 (CHR ''b'')) = replicate 64 (CHR ''b'')" by (rule trim_id) (simp_all add: is_space_def)
  show ?thesis by (simp add: checksum_b64_from_hex_def t is_ascii_hexdigit_def list_all_iff)
qed

lemma unit_world [simp]: "st\<lparr>s3_world := ()\<rparr> = st"
  by (cases st) simp

lemma two_parts_urls:
  assumes "dir_of (two_part_session ds) st = Some d" "sd_lock d" "sd_completed d = NoFile" "n = 1 \<or> n = 2"
  shows "part_urls_locked (\<lambda>_. ''x'') s3_demo_env two_parts_ports (two_part_session ds) (one_item n) st =
    (put_dir (two_part_session ds) (d\<lparr>sd_manifest := Json (cs_manifest (two_part_session (fmupd n ''x'' ds)))\<rparr>) st,
     Ok [\<lparr>sg_part_number = n, sg_url = ''url'', sg_checksum = ''x''\<rparr>])"
proof -
  have "check_part_geometry n 8388608 2 8388608 16777216 = Ok ()" using assms(4) two_parts_geometry by auto
  then show ?thesis
    using assms(1-3)
    by (simp add: part_urls_locked_def lock_or_busy_def try_lock_def completed_file_id_def read_json_def
        MAX_PARTS_PER_REQUEST_def demo_hex in_bucket_def two_parts_def record_part_digests_def write_json_atomic_def)
qed

lemma two_parts_good: "good_parts [\<lparr>lp_number = 2, lp_size = 8388608, lp_etag = [], lp_checksum = None\<rparr>,
    \<lparr>lp_number = 1, lp_size = 8388608, lp_etag = [], lp_checksum = None\<rparr>] 8388608 2 16777216 = {1 .. unat (2 :: u32)}"
  by (auto simp: good_parts_def two_parts_geometry)

lemma two_parts_status:
  assumes "dir_of (two_part_session ds) st = Some d" "sd_lock d" "sd_completed d = NoFile"
  shows "\<exists>status. s3_status s3_demo_env two_parts_ports (two_part_session ds) st = (st, Ok status) \<and> \<not> sr_completed status"
  using assms
  by (simp add: s3_status_def lock_or_busy_def try_lock_def completed_file_id_def read_json_def in_bucket_def two_parts_def Let_def)

theorem s3_status_is_exact_witness:
  "\<exists>status. s3_status s3_demo_env two_parts_ports (two_part_session fmempty)
       (s3_demo_state (cs_manifest (two_part_session fmempty)) demo_tables ()) =
     (s3_demo_state (cs_manifest (two_part_session fmempty)) demo_tables (), Ok status)
     \<and> sr_missing status = [] \<and> unat (sr_received_bytes status) = card (positions (sr_received status))"
proof -
  let ?s = "two_part_session fmempty" let ?st = "s3_demo_state (cs_manifest ?s) demo_tables ()"
  obtain status where status: "s3_status s3_demo_env two_parts_ports ?s ?st = (?st, Ok status)" "\<not> sr_completed status"
    using two_parts_status [of fmempty ?st "fresh_dir (cs_manifest ?s)"] by (auto simp: dir_of_def s3_demo_state_def fresh_dir_def)
  have l: "in_bucket (np_list_parts two_parts s3_demo_ref) ?st = (?st, Ok [\<lparr>lp_number = 2, lp_size = 8388608, lp_etag = [], lp_checksum = None\<rparr>,
      \<lparr>lp_number = 1, lp_size = 8388608, lp_etag = [], lp_checksum = None\<rparr>])" by (simp add: in_bucket_def two_parts_def)
  show ?thesis
    using s3_status_is_exact [OF status _ _ l refl] two_parts_geometry(1) two_parts_good status(1) by auto
qed

theorem concurrent_part_urls_lose_digests_witness:
  "\<exists>st1 out1 st2 out2 ds status.
     part_urls_locked (\<lambda>_. ''x'') s3_demo_env two_parts_ports (two_part_session fmempty) (one_item 1)
       (s3_demo_state (cs_manifest (two_part_session fmempty)) demo_tables ()) = (st1, Ok out1)
     \<and> part_urls_locked (\<lambda>_. ''x'') s3_demo_env two_parts_ports (two_part_session fmempty) (one_item 2) st1 = (st2, Ok out2)
     \<and> open_session s3_demo_env demo_headers st2 = Ok (two_part_session ds)
     \<and> s3_status s3_demo_env two_parts_ports (two_part_session ds) st2 = (st2, Ok status) \<and> sr_missing status = []
     \<and> (\<forall>pr. snd (assemble_parts s3_demo_env two_parts_ports demo_headers None two_parts pr 8388608 2 s3_demo_ref (two_part_session ds)
              [\<lparr>lp_number = 2, lp_size = 8388608, lp_etag = [], lp_checksum = None\<rparr>,
               \<lparr>lp_number = 1, lp_size = 8388608, lp_etag = [], lp_checksum = None\<rparr>] st2) = Err (coded UploadMissingRanges 409))"
proof -
  let ?s = "two_part_session fmempty" let ?st = "s3_demo_state (cs_manifest ?s) demo_tables ()"
  let ?d = "fresh_dir (cs_manifest ?s)"
  have d: "dir_of ?s ?st = Some ?d" "sd_lock ?d" "sd_completed ?d = NoFile" "sd_manifest ?d = Json (cs_manifest ?s)"
    by (simp_all add: dir_of_def s3_demo_state_def fresh_dir_def)
  define d1 where "d1 = ?d\<lparr>sd_manifest := Json (cs_manifest (two_part_session (fmupd 1 ''x'' fmempty)))\<rparr>"
  define st1 where "st1 = put_dir ?s d1 ?st"
  have r1: "part_urls_locked (\<lambda>_. ''x'') s3_demo_env two_parts_ports ?s (one_item 1) ?st =
      (st1, Ok [\<lparr>sg_part_number = 1, sg_url = ''url'', sg_checksum = ''x''\<rparr>])"
    unfolding st1_def d1_def by (rule two_parts_urls [OF d(1-3)]) simp
  have d1: "dir_of ?s st1 = Some d1" "sd_lock d1" "sd_completed d1 = NoFile" using d by (simp_all add: st1_def d1_def)
  define d2 where "d2 = d1\<lparr>sd_manifest := Json (cs_manifest (two_part_session (fmupd 2 ''x'' fmempty)))\<rparr>"
  define st2 where "st2 = put_dir ?s d2 st1"
  have r2: "part_urls_locked (\<lambda>_. ''x'') s3_demo_env two_parts_ports ?s (one_item 2) st1 =
      (st2, Ok [\<lparr>sg_part_number = 2, sg_url = ''url'', sg_checksum = ''x''\<rparr>])"
    unfolding st2_def d2_def by (rule two_parts_urls [OF d1]) simp
  let ?s2 = "two_part_session (fmupd 2 ''x'' fmempty)"
  have d2: "dir_of ?s2 st2 = Some d2" "sd_lock d2" "sd_completed d2 = NoFile" "fmlookup (ur_dirs (us_root st2)) demo_id = Some d2"
    using d1 by (simp_all add: st2_def d2_def dir_of_def put_dir_def)
  obtain status where status: "s3_status s3_demo_env two_parts_ports ?s2 st2 = (st2, Ok status)" "\<not> sr_completed status"
    using two_parts_status [OF d2(1-3)] by blast
  have o: "open_session s3_demo_env demo_headers ?st = Ok ?s"
    using d(1,4) by (intro s3_demo_open [where d = ?d]) (simp_all add: dir_of_def)
  have o2: "open_session s3_demo_env demo_headers st2 = Ok ?s2"
    by (rule s3_demo_open [OF d2(4)]) (simp add: d2_def)
  have l: "in_bucket (np_list_parts two_parts s3_demo_ref) st2 = (st2, Ok [\<lparr>lp_number = 2, lp_size = 8388608, lp_etag = [], lp_checksum = None\<rparr>,
      \<lparr>lp_number = 1, lp_size = 8388608, lp_etag = [], lp_checksum = None\<rparr>])" by (simp add: in_bucket_def two_parts_def)
  have "sr_missing status = [] \<and> assemble_parts s3_demo_env two_parts_ports demo_headers None two_parts pr 8388608 2 s3_demo_ref ?s2
      [\<lparr>lp_number = 2, lp_size = 8388608, lp_etag = [], lp_checksum = None\<rparr>,
       \<lparr>lp_number = 1, lp_size = 8388608, lp_etag = [], lp_checksum = None\<rparr>] st2 = (st2, Err (coded UploadMissingRanges 409))" for pr
    by (rule concurrent_part_urls_lose_digests [OF o o r1 r2, where n = 1, OF _ _ _ o2 _ _ _ _ _ _ status _ l])
      (simp_all add: two_parts_geometry two_parts_good)
  then show ?thesis using r1 r2 o2 status by (intro exI conjI allI) (assumption | simp)+
qed

text \<open>A session of one part of seven bytes, whose upload is open in the bucket.\<close>

definition one_part_manifest :: manifest where
  "one_part_manifest = (s3_demo_manifest 7 1)\<lparr>mf_part_digests := fmupd 1 ''x'' fmempty\<rparr>"

abbreviation one_part_session :: chunked_session where
  "one_part_session \<equiv> \<lparr>cs_upload_id = demo_id, cs_manifest = one_part_manifest\<rparr>"

lemma one_part_manifest_simps [simp]:
  "mf_total_size one_part_manifest = 7" "mf_transport one_part_manifest = TRANSPORT_S3_MULTIPART_V1"
  "mf_reserved_file_id one_part_manifest = 7" "mf_part_digests one_part_manifest = fmupd 1 ''x'' fmempty"
  "mf_storage_source_id one_part_manifest = Some 0" "mf_encryption_key_id one_part_manifest = 0"
  "mf_plaintext_sha256 one_part_manifest = replicate 64 (CHR ''a'')"
  "s3_reference_of one_part_manifest = Ok (8388608, 1, s3_demo_ref)"
  by (simp_all add: one_part_manifest_def)

abbreviation one_part_bucket :: "(string, plain_object) fmap \<Rightarrow> plain_bucket" where
  "one_part_bucket objs \<equiv> \<lparr>pb_objects = objs,
     pb_uploads = fmupd ''u'' \<lparr>ou_key = ''k'', ou_session = demo_id, ou_parts = fmupd 1 demo_file fmempty\<rparr> fmempty, pb_count = 2\<rparr>"

abbreviation one_part_listed :: "listed_part list" where
  "one_part_listed \<equiv> [\<lparr>lp_number = 1, lp_size = 7, lp_etag = [], lp_checksum = None\<rparr>]"

lemma one_part_fits [simp]: "check_part_geometry 1 7 1 8388608 7 = Ok ()"
  by code_simp

lemma one_part_collected:
  "collect_parts one_part_manifest 8388608 1 [] one_part_listed = [\<lparr>cp_number = 1, cp_etag = [], cp_checksum = ''x''\<rparr>]"
  by simp

lemma one_part_verified:
  "verify_attachment demo_crypto sha64 \<lparr>rd_bytes = demo_file, rd_clean = True\<rparr> 7 (manifest_identity one_part_manifest) []
   = Ok (sha64 demo_file)"
proof -
  have "manifest_identity one_part_manifest =
    \<lparr>fi_plaintext_sha256 = replicate 64 (CHR ''a''), fi_plaintext_size = 2, fi_sealed_size = 7, fi_format_version = 1,
     fi_encryption_key_id = 0, fi_chunk_plain_size = 8\<rparr>"
    by (simp add: manifest_identity_def) (simp add: one_part_manifest_def s3_demo_manifest_def manifest_of_def demo_input_def)
  then show ?thesis using demo_verify by simp
qed

definition taken_tables :: file_db where
  "taken_tables = demo_tables\<lparr>db_objects := fmupd 1 \<lparr>ao_plaintext_sha256 = replicate 64 (CHR ''a''), ao_plaintext_size = 2,
      ao_sealed_sha256 = replicate 64 (CHR ''b''), ao_sealed_size = 7, ao_file_path = ''k'', ao_storage_source_id = 0,
      ao_format_version = 1, ao_encryption_key_id = 0\<rparr> fmempty, db_next_object := 2\<rparr>"


lemma one_part_recorded:
  assumes "us_db st = demo_tables"
  shows "\<exists>st' meta. record_row_s3 s3_demo_env (re_dbe s3_demo_env) demo_headers None one_part_session (sha64 demo_file) False st
    = (st', Ok (Recorded meta))"
proof -
  let ?m = "one_part_manifest" let ?f = "fields_of demo_headers None ?m"
  have m: "mf_final_key ?m = Some ''k''" "mf_bucket ?m = Some ''b''" "rf_plaintext_sha256 ?f = replicate 64 (CHR ''a'')"
      "rf_format_version ?f = 1"
    by (simp_all add: fields_of_def one_part_manifest_def s3_demo_manifest_def manifest_of_def demo_input_def to_ascii_lowercase_def ascii_lower_char_def)
  have up: "de_up (re_dbe s3_demo_env) x" for x using s3_demo_env_simps(8) by (simp add: quiet_def)
  have src: "\<exists>source. fmlookup (fs_sources (re_fs s3_demo_env)) 0 = Some source \<and> ss_bucket source = Some ''b''"
    by (simp add: s3_demo_env_def)
  then obtain source where src: "fmlookup (fs_sources (re_fs s3_demo_env)) 0 = Some source" "ss_bucket source = Some ''b''" by blast
  have "\<exists>db meta. record_s3_published (re_fs s3_demo_env) (re_dbe s3_demo_env) 0 one_part_session (sha64 demo_file) ?f False demo_tables
    = (db, Ok (Recorded meta))"
    using m src
    by (simp add: record_s3_published_def converge_upload_def register_object_def insert_object_def find_object_def find_object_at_def
        up demo_tables_def sha64_file sha_texts insert_or_recognise_def insert_within_def new_metadata_def Let_def)
  then show ?thesis using assms by (auto simp: record_row_s3_def)
qed

lemma one_part_start:
  assumes d: "fmlookup (ur_dirs (us_root st)) demo_id = Some (fresh_dir one_part_manifest)" and "us_db st = demo_tables"
  shows "open_session s3_demo_env demo_headers st = Ok one_part_session"
    and "lock_or_busy s3_demo_env one_part_session st = Ok (fresh_dir one_part_manifest)"
    and "recover_completed s3_demo_env one_part_session (fresh_dir one_part_manifest) st = (st, None)"
proof -
  show "open_session s3_demo_env demo_headers st = Ok one_part_session" by (unfold one_part_manifest_def, rule s3_demo_open [OF d]) (simp add: fresh_dir_def one_part_manifest_def)
  show "lock_or_busy s3_demo_env one_part_session st = Ok (fresh_dir one_part_manifest)"
    using d by (simp add: lock_or_busy_def dir_of_def try_lock_def fresh_dir_def)
  show "recover_completed s3_demo_env one_part_session (fresh_dir one_part_manifest) st = (st, None)"
    using assms(2)
    by (simp add: recover_completed_def completed_file_id_def read_json_def fresh_dir_def get_file_metadata_def demo_tables_def get_by_file_id_def)
qed

theorem s3_completion_is_guarded_witness:
  "\<exists>st' rsp. complete_upload (s3_complete s3_demo_env (logged_ports (plain_ports (re_dbe s3_demo_env))) demo_headers None)
       s3_demo_env demo_headers None
       (s3_demo_state one_part_manifest demo_tables (one_part_bucket fmempty, [])) = (st', Ok rsp)
     \<and> own_deletes demo_id (call_log st') \<and> verified s3_demo_env one_part_manifest (call_log st')"
proof -
  let ?m = "one_part_manifest" let ?ports = "logged_ports (plain_ports (re_dbe s3_demo_env))"
  let ?be = "logged_parts plain_parts" let ?pr = "logged_probe plain_probe"
  define st where "st = s3_demo_state ?m demo_tables (one_part_bucket fmempty, [] :: bucket_call list)"
  have d: "fmlookup (ur_dirs (us_root st)) demo_id = Some (fresh_dir ?m)" "us_db st = demo_tables" "s3_world st = (one_part_bucket fmempty, [])"
    by (simp_all add: st_def s3_demo_state_def)
  note start = one_part_start [OF d(1,2)]
  define st1 where "st1 = st\<lparr>s3_world := (one_part_bucket fmempty, [Headed s3_demo_ref (Ok None)])\<rparr>"
  have head: "in_bucket (op_head ?pr s3_demo_ref) st = (st1, Ok None)"
    by (simp add: in_bucket_def logged_probe_def logged_def plain_probe_def d(3) st1_def)
  have len: "length demo_file = 7" by (simp add: demo_file_def)
  define st2 where "st2 = st1\<lparr>s3_world := (one_part_bucket fmempty, call_log st1 @ [Listed s3_demo_ref (Ok one_part_listed)])\<rparr>"
  have listed: "in_bucket (np_list_parts ?be s3_demo_ref) st1 = (st2, Ok one_part_listed)"
    by (simp add: in_bucket_def logged_parts_def logged_def plain_parts_def len st1_def st2_def)
  define cps where "cps = [\<lparr>cp_number = 1 :: u32, cp_etag = [], cp_checksum = ''x''\<rparr>]"
  define x where "x = \<lparr>po_content = demo_file, po_upload_id = demo_id, po_etag = ''u''\<rparr>"
  define w where "w = (one_part_bucket (fmupd ''k'' x fmempty))\<lparr>pb_uploads := fmdrop ''u'' (pb_uploads (one_part_bucket fmempty))\<rparr>"
  define st3 where "st3 = st2\<lparr>s3_world := (w, call_log st2 @ [CompleteAsked s3_demo_ref cps (Ok ())])\<rparr>"
  have complete: "in_bucket (np_complete ?be s3_demo_ref cps) st2 = (st3, Ok ())"
    by (simp add: in_bucket_def logged_parts_def logged_def plain_parts_def st2_def st3_def w_def x_def cps_def assembled_def)
  let ?rd = "\<lparr>rd_bytes = demo_file, rd_clean = True\<rparr>"
  define st4 where "st4 = st3\<lparr>s3_world := (w, call_log st3 @ [Opened s3_demo_ref (Ok (7, ?rd))])\<rparr>"
  have v: "verify_final_object s3_demo_env ?pr s3_demo_ref ?m st3 = (st4, Ok (sha64 demo_file))"
    using one_part_verified
    by (simp add: verify_final_object_def site_key_of_def in_bucket_def logged_probe_def logged_def plain_probe_def st3_def st4_def
        w_def x_def len)
  have "us_db st4 = demo_tables" using d(2) by (simp add: st4_def st3_def st2_def st1_def)
  from one_part_recorded [OF this] obtain st5 meta where
    rec: "record_row_s3 s3_demo_env (re_dbe s3_demo_env) demo_headers None one_part_session (sha64 demo_file) False st4 = (st5, Ok (Recorded meta))"
    by blast
  have "\<exists>st' rsp. complete_upload (s3_complete s3_demo_env ?ports demo_headers None) s3_demo_env demo_headers None st = (st', Ok rsp)"
    by (simp add: complete_upload_def start s3_complete_def plain_ports_def head listed assemble_parts_def complete [unfolded cps_def]
        verify_and_record_def v record_and_finish_def rec)
  then obtain st' rsp where c: "complete_upload (s3_complete s3_demo_env ?ports demo_headers None) s3_demo_env demo_headers None st = (st', Ok rsp)"
    by blast
  have none: "get_by_file_id i (us_db st) = None" for i by (simp add: d demo_tables_def get_by_file_id_def)
  from s3_completion_is_guarded [OF start(1) _ _ c] show ?thesis
    unfolding st_def [symmetric] using c d(3) none by auto
qed

end
