(* ===== verification/S3Sweep.thy ===== *)
theory S3Sweep
  imports S3Upload
begin

text \<open>
  The sweepers of \<open>service/chunked_upload.rs\<close> that clean up after abandoned direct uploads
  (\<open>sweep_expired_s3\<close>, \<open>sweep_s3_anchors\<close>). The lemmas show that a session directory is given up only
  when nothing is left in the bucket that only this directory knows about.
\<close>

section \<open>Sweeping\<close>

text \<open>\<open>abort_until_confirmed\<close> with the rounds that are left.\<close>

fun abort_rounds :: "'w numbered_parts \<Rightarrow> upload_reference \<Rightarrow> nat \<Rightarrow> 'w s3_state \<Rightarrow> 'w s3_state \<times> bool" where
  "abort_rounds be ref 0 st = (st, False)"
| "abort_rounds be ref (Suc left) st =
     (case in_bucket (np_abort be ref) st of
        (st1, r) \<Rightarrow>
          if \<not> is_ok r \<and> r \<noteq> Err NoSuchUpload then (st1, False)
          else (case in_bucket (np_list_parts be ref) st1 of
                  (st2, Err NoSuchUpload) \<Rightarrow> (st2, True)
                | (st2, Ok parts) \<Rightarrow> if parts = [] then (st2, True) else abort_rounds be ref left st2
                | (st2, Err _) \<Rightarrow> (st2, False)))"

definition abort_until_confirmed :: "'w numbered_parts \<Rightarrow> upload_reference \<Rightarrow> 'w s3_state \<Rightarrow> 'w s3_state \<times> bool" where
  "abort_until_confirmed be ref st = abort_rounds be ref 3 st"

definition remove_s3_anchor :: "bool \<Rightarrow> string \<Rightarrow> 'w s3_state \<Rightarrow> 'w s3_state" where
  "remove_s3_anchor up i st =
     (if up then st\<lparr>us_root := (us_root st)\<lparr>ur_anchors := fmdrop i (ur_anchors (us_root st))\<rparr>\<rparr> else st)"

definition remove_session_dir :: "bool \<Rightarrow> string \<Rightarrow> 'w s3_state \<Rightarrow> 'w s3_state" where
  "remove_session_dir up i st =
     (if up then st\<lparr>us_root := (us_root st)\<lparr>ur_dirs := fmdrop i (ur_dirs (us_root st))\<rparr>\<rparr> else st)"

text \<open>What the sweeper meets beyond \<open>sweep_env\<close>: \<open>ge_anchors\<close> that the anchors could be listed,
  \<open>ge_manifest_read\<close> that a manifest could be read in the loop over them, \<open>ge_anchor_read\<close> that an anchor could be read, \<open>ge_anchor_gone\<close> that its removal succeeds,
  \<open>ge_row\<close> that the row of a session could be queried.\<close>

record gc_env = sweep_env +
  ge_anchors :: bool
  ge_manifest_read :: "string \<Rightarrow> bool"
  ge_anchor_read :: "string \<Rightarrow> bool"
  ge_anchor_gone :: "string \<Rightarrow> bool"
  ge_row :: "string \<Rightarrow> bool"

definition manifest_readable :: "gc_env \<Rightarrow> string \<Rightarrow> 'w s3_state \<Rightarrow> bool" where
  "manifest_readable ge i st =
     (case fmlookup (ur_dirs (us_root st)) i of
        Some d \<Rightarrow> (case read_json (ge_manifest_read ge i) (sd_manifest d) of Ok (Some _) \<Rightarrow> True | _ \<Rightarrow> False)
      | None \<Rightarrow> False)"

definition anchor_ref :: "s3_anchor \<Rightarrow> upload_reference" where
  "anchor_ref a = \<lparr>mr_bucket = an_bucket a, mr_final_key = an_final_key a, mr_provider_upload_id = an_provider_upload_id a\<rparr>"

definition sweep_anchor :: "gc_env \<Rightarrow> 'w s3_ports \<Rightarrow> string \<Rightarrow> 'w s3_state \<Rightarrow> 'w s3_state" where
  "sweep_anchor ge ports i st =
     (case fmlookup (ur_anchors (us_root st)) i of
        None \<Rightarrow> st
      | Some file \<Rightarrow>
     (case read_json (ge_anchor_read ge i) file of
        Ok (Some anchor) \<Rightarrow>
          if manifest_readable ge i st then remove_s3_anchor (ge_anchor_gone ge i) i st
          else (case (sp_backend ports, sp_probe ports) of
                  (Some be, Some pr) \<Rightarrow>
                    let ref = anchor_ref anchor
                    in (case abort_until_confirmed be ref st of
                          (st1, False) \<Rightarrow> st1
                        | (st1, True) \<Rightarrow>
                            (case in_bucket (op_head pr ref) st1 of
                               (st2, Ok None) \<Rightarrow>
                                 remove_session_dir (se_removed ge i) i (remove_s3_anchor (ge_anchor_gone ge i) i st2)
                             | (st2, _) \<Rightarrow> st2))
                | _ \<Rightarrow> st)
      | _ \<Rightarrow> remove_s3_anchor (ge_anchor_gone ge i) i st))"

definition sweep_s3_anchors :: "gc_env \<Rightarrow> 'w s3_ports \<Rightarrow> 'w s3_state \<Rightarrow> 'w s3_state" where
  "sweep_s3_anchors ge ports st =
     (if ge_anchors ge then fold (sweep_anchor ge ports) (map fst (fm_entries (ur_anchors (us_root st)))) st else st)"

definition row_uses_final_object :: "manifest \<Rightarrow> file_metadata \<Rightarrow> bool" where
  "row_uses_final_object m meta \<longleftrightarrow>
     fm_uploader_id meta = mf_uploader_id m \<and> ao_plaintext_size (fm_object meta) = mf_plaintext_size m
     \<and> eq_ignore_ascii_case (ao_plaintext_sha256 (fm_object meta)) (mf_plaintext_sha256 m)
     \<and> mf_final_key m = Some (ao_file_path (fm_object meta))
     \<and> mf_storage_source_id m = Some (ao_storage_source_id (fm_object meta))"

definition manifest_ref :: "manifest \<Rightarrow> upload_reference option" where
  "manifest_ref m =
     (case (mf_bucket m, mf_final_key m, mf_provider_upload_id m) of
        (Some bucket, Some final_key, Some pid) \<Rightarrow>
          Some \<lparr>mr_bucket = bucket, mr_final_key = final_key, mr_provider_upload_id = pid\<rparr>
      | _ \<Rightarrow> None)"

text \<open>\<open>Err ()\<close> stands for a session whose multipart upload was never created.\<close>

definition s3_expired_session_ready ::
  "gc_env \<Rightarrow> manifest \<Rightarrow> string \<Rightarrow> 'w numbered_parts \<Rightarrow> 'w object_probe \<Rightarrow> 'w s3_state \<Rightarrow> 'w s3_state \<times> (bool, unit) result" where
  "s3_expired_session_ready ge m session_id be pr st =
     (case manifest_ref m of
        Some ref \<Rightarrow>
          (case abort_until_confirmed be ref st of
                (st1, False) \<Rightarrow> (st1, Ok False)
              | (st1, True) \<Rightarrow>
                  (case in_bucket (op_head pr ref) st1 of
                     (st2, Err _) \<Rightarrow> (st2, Ok False)
                   | (st2, Ok None) \<Rightarrow> (st2, Ok True)
                   | (st2, Ok (Some head)) \<Rightarrow>
                       if fo_upload_id head \<noteq> Some session_id then (st2, Ok False)
                       else (case get_file_metadata (ge_row ge session_id) (mf_reserved_file_id m) (us_db st2) of
                               Err _ \<Rightarrow> (st2, Ok False)
                             | Ok row \<Rightarrow>
                                 if (case row of Some meta \<Rightarrow> row_uses_final_object m meta | None \<Rightarrow> False)
                                 then (st2, Ok True)
                                 else (case in_bucket (op_delete_if_match pr ref (fo_etag head)) st2 of
                                         (st3, Ok gone) \<Rightarrow> (st3, Ok gone)
                                       | (st3, Err _) \<Rightarrow> (st3, Ok False)))))
      | None \<Rightarrow> (st, Err ()))"

definition sweep_s3_one ::
  "gc_env \<Rightarrow> 'w s3_ports \<Rightarrow> int \<Rightarrow> string \<Rightarrow> 'w s3_state \<times> nat \<Rightarrow> 'w s3_state \<times> nat" where
  "sweep_s3_one ge ports now i acc =
     (case acc of (st, removed) \<Rightarrow>
        let remove = (\<lambda>st. if se_removed ge i then (remove_session_dir True i st, removed + 1) else (st, removed));
            remove_both = (\<lambda>st. if se_removed ge i
                             then (remove_s3_anchor (ge_anchor_gone ge i) i (remove_session_dir True i st), removed + 1)
                             else (st, removed))
        in (case fmlookup (ur_dirs (us_root st)) i of
              None \<Rightarrow> acc
            | Some d \<Rightarrow>
        (case read_json (se_read ge i) (sd_manifest d) of
           Ok (Some m) \<Rightarrow>
             if now \<le> mf_expires_at m \<or> mf_transport m \<noteq> TRANSPORT_S3_MULTIPART_V1 then acc
             else if sd_lock d \<and> \<not> se_free ge i then acc
             else if sd_completed d \<noteq> NoFile then remove_both st
             else (case (sp_backend ports, sp_probe ports) of
                     (Some be, Some pr) \<Rightarrow>
                       (case s3_expired_session_ready ge m i be pr st of
                          (st1, Ok True) \<Rightarrow> remove_both st1
                        | (st1, Err _) \<Rightarrow> remove_both st1
                        | (st1, Ok False) \<Rightarrow> (st1, removed))
                   | _ \<Rightarrow> acc)
         | _ \<Rightarrow>
             (case fmlookup (ur_anchors (us_root st)) i of
                Some file \<Rightarrow>
                  (case read_json (ge_anchor_read ge i) file of Ok (Some _) \<Rightarrow> acc | _ \<Rightarrow> remove st)
              | None \<Rightarrow> remove st))))"

definition sweep_expired_s3 :: "gc_env \<Rightarrow> 'w s3_ports \<Rightarrow> int \<Rightarrow> 'w s3_state \<Rightarrow> 'w s3_state \<times> nat" where
  "sweep_expired_s3 ge ports now st =
     (let st1 = sweep_s3_anchors ge ports st
      in if se_listed ge
         then fold (sweep_s3_one ge ports now) (map fst (fm_entries (ur_dirs (us_root st1)))) (st1, 0)
         else (st1, 0))"

section \<open>What a sweep leaves behind\<close>

text \<open>The multipart upload is confirmed to be gone or empty.\<close>

definition closed_upload :: "upload_reference \<Rightarrow> bucket_call set \<Rightarrow> bool" where
  "closed_upload ref seen \<longleftrightarrow> Listed ref (Ok []) \<in> seen \<or> Listed ref (Err NoSuchUpload) \<in> seen"

definition row_refers :: "file_db \<Rightarrow> manifest \<Rightarrow> bool" where
  "row_refers db m \<longleftrightarrow> (\<exists>meta. get_by_file_id (mf_reserved_file_id m) db = Some meta \<and> row_uses_final_object m meta)"

text \<open>Nothing in the bucket depends on the session \<open>i\<close> any rest: its upload is closed, and there is no
  object, or the object is its own and belongs to a file row or was deleted.\<close>

definition settled :: "file_db \<Rightarrow> manifest \<Rightarrow> string \<Rightarrow> upload_reference \<Rightarrow> bucket_call set \<Rightarrow> bool" where
  "settled db m i ref seen \<longleftrightarrow>
     closed_upload ref seen
     \<and> (Headed ref (Ok None) \<in> seen
        \<or> (\<exists>head. Headed ref (Ok (Some head)) \<in> seen \<and> fo_upload_id head = Some i
             \<and> (row_refers db m \<or> DeleteAsked ref (fo_etag head) (Ok True) \<in> seen)))"

definition expired_s3 :: "int \<Rightarrow> session_dir \<Rightarrow> manifest \<Rightarrow> bool" where
  "expired_s3 now d m \<longleftrightarrow> sd_manifest d = Json m \<and> mf_expires_at m < now \<and> mf_transport m = TRANSPORT_S3_MULTIPART_V1"

definition orphan_settled :: "s3_anchor jfile option \<Rightarrow> bucket_call set \<Rightarrow> bool" where
  "orphan_settled anchor seen \<longleftrightarrow>
     (\<exists>a. anchor = Some (Json a) \<and> closed_upload (anchor_ref a) seen \<and> Headed (anchor_ref a) (Ok None) \<in> seen)"

text \<open>The reasons for which a session directory may be removed.\<close>

definition disposed ::
  "int \<Rightarrow> file_db \<Rightarrow> string \<Rightarrow> session_dir \<Rightarrow> s3_anchor jfile option \<Rightarrow> bucket_call set \<Rightarrow> bool" where
  "disposed now db i d anchor seen \<longleftrightarrow>
     (\<exists>m. expired_s3 now d m
        \<and> (sd_completed d \<noteq> NoFile \<or> manifest_ref m = None \<or> (\<exists>ref. manifest_ref m = Some ref \<and> settled db m i ref seen)))
     \<or> (\<forall>m. sd_manifest d \<noteq> Json m) \<and> ((\<forall>a. anchor \<noteq> Some (Json a)) \<or> orphan_settled anchor seen)"

text \<open>The evidence for a delete: an expired session without tombstone whose own object this is, and no
  file row that refers to it.\<close>

definition may_delete ::
  "int \<Rightarrow> file_db \<Rightarrow> (string, session_dir) fmap \<Rightarrow> bucket_call set \<Rightarrow> upload_reference \<Rightarrow> string \<Rightarrow> bool" where
  "may_delete now db dirs seen ref etag \<longleftrightarrow>
     (\<exists>i d m head. fmlookup dirs i = Some d \<and> expired_s3 now d m \<and> sd_completed d = NoFile \<and> manifest_ref m = Some ref
        \<and> closed_upload ref seen \<and> Headed ref (Ok (Some head)) \<in> seen \<and> fo_upload_id head = Some i \<and> fo_etag head = etag
        \<and> \<not> row_refers db m)"

lemma closed_upload_mono: "closed_upload ref seen \<Longrightarrow> seen \<subseteq> seen' \<Longrightarrow> closed_upload ref seen'"
  unfolding closed_upload_def by blast

lemma settled_mono: "settled db m i ref seen \<Longrightarrow> seen \<subseteq> seen' \<Longrightarrow> settled db m i ref seen'"
  unfolding settled_def using closed_upload_mono by blast

lemma orphan_settled_mono: "orphan_settled anchor seen \<Longrightarrow> seen \<subseteq> seen' \<Longrightarrow> orphan_settled anchor seen'"
  unfolding orphan_settled_def using closed_upload_mono by blast

lemma disposed_mono: "disposed now db i d anchor seen \<Longrightarrow> seen \<subseteq> seen' \<Longrightarrow> disposed now db i d anchor seen'"
  unfolding disposed_def using settled_mono orphan_settled_mono by blast

text \<open>A state of the sweep against the state it began with: a directory is as it was or was removed for a
  reason, a lost anchor was redundant, every delete was allowed.\<close>

definition sweep_inv ::
  "int \<Rightarrow> ('w \<times> bucket_call list) s3_state \<Rightarrow> ('w \<times> bucket_call list) s3_state \<Rightarrow> bool" where
  "sweep_inv now st0 st \<longleftrightarrow>
     us_db st = us_db st0
     \<and> (\<forall>i. fmlookup (ur_dirs (us_root st)) i = fmlookup (ur_dirs (us_root st0)) i
          \<or> (\<exists>d. fmlookup (ur_dirs (us_root st0)) i = Some d
               \<and> disposed now (us_db st0) i d (fmlookup (ur_anchors (us_root st0)) i) (set (call_log st))))
     \<and> (\<forall>i. fmlookup (ur_anchors (us_root st)) i = fmlookup (ur_anchors (us_root st0)) i
          \<or> (\<exists>d m. fmlookup (ur_dirs (us_root st0)) i = Some d \<and> sd_manifest d = Json m)
          \<or> (\<forall>a. fmlookup (ur_anchors (us_root st0)) i \<noteq> Some (Json a))
          \<or> orphan_settled (fmlookup (ur_anchors (us_root st0)) i) (set (call_log st)))
     \<and> (\<forall>i. fmlookup (ur_dirs (us_root st)) i = None \<or> fmlookup (ur_dirs (us_root st)) i = fmlookup (ur_dirs (us_root st0)) i)
     \<and> deletes_after (may_delete now (us_db st0) (ur_dirs (us_root st0))) (call_log st)"

text \<open>Calls to the bucket other than deletes.\<close>

definition only_calls :: "('w \<times> bucket_call list) s3_state \<Rightarrow> ('w \<times> bucket_call list) s3_state \<Rightarrow> bool" where
  "only_calls st st' \<longleftrightarrow>
     us_root st' = us_root st \<and> us_db st' = us_db st
     \<and> (\<exists>rest. call_log st' = call_log st @ rest \<and> (\<forall>ref etag r. DeleteAsked ref etag r \<notin> set rest))"

lemma deletes_after_append:
  "deletes_after P calls \<Longrightarrow> \<forall>ref etag r. DeleteAsked ref etag r \<notin> set rest \<Longrightarrow> deletes_after P (calls @ rest)"
proof (induction rest rule: rev_induct)
  case (snoc c rest)
  then have "deletes_after P ((calls @ rest) @ [c])" by (intro deletes_after_snoc) auto
  then show ?case by simp
qed simp

lemma only_calls_refl [simp]: "only_calls st st"
  by (simp add: only_calls_def)

lemma only_calls_trans: "only_calls a b \<Longrightarrow> only_calls b c \<Longrightarrow> only_calls a c"
  unfolding only_calls_def by fastforce

lemma only_calls_subset: "only_calls st st' \<Longrightarrow> set (call_log st) \<subseteq> set (call_log st')"
  by (auto simp: only_calls_def)

lemma only_calls_inv:
  assumes "sweep_inv now st0 st" "only_calls st st'"
  shows "sweep_inv now st0 st'"
proof -
  have "deletes_after (may_delete now (us_db st0) (ur_dirs (us_root st0))) (call_log st')"
    using assms by (auto simp: sweep_inv_def only_calls_def intro: deletes_after_append)
  moreover have same: "us_root st' = us_root st" "us_db st' = us_db st" using assms(2) by (simp_all add: only_calls_def)
  note mono = disposed_mono [OF _ only_calls_subset [OF assms(2)]] orphan_settled_mono [OF _ only_calls_subset [OF assms(2)]]
  ultimately show ?thesis
    using assms(1) unfolding sweep_inv_def same by (intro conjI allI) (blast intro: mono)+
qed

lemma logged_only_calls:
  assumes "in_bucket (logged f ev) st = (st', r)" "\<And>ref etag x. ev r \<noteq> DeleteAsked ref etag x"
  shows "only_calls st st'"
  unfolding only_calls_def using in_bucket_logged [OF assms(1)] not_sym [OF assms(2)] by (auto intro!: exI [of _ "[ev r]"])

lemma head_only_calls:
  assumes "in_bucket (op_head (logged_probe pr) ref) st = (st', r)"
  shows "only_calls st st'" "Headed ref r \<in> set (call_log st')"
proof -
  have eq: "in_bucket (logged (op_head pr ref) (Headed ref)) st = (st', r)" using assms by (simp add: logged_probe_def)
  show "only_calls st st'" by (rule logged_only_calls [OF eq]) simp
  show "Headed ref r \<in> set (call_log st')" using in_bucket_logged(1) [OF eq] by simp
qed

lemma list_only_calls:
  assumes "in_bucket (np_list_parts (logged_parts be) ref) st = (st', r)"
  shows "only_calls st st'" "Listed ref r \<in> set (call_log st')"
proof -
  have eq: "in_bucket (logged (np_list_parts be ref) (Listed ref)) st = (st', r)" using assms by (simp add: logged_parts_def)
  show "only_calls st st'" by (rule logged_only_calls [OF eq]) simp
  show "Listed ref r \<in> set (call_log st')" using in_bucket_logged(1) [OF eq] by simp
qed

lemma abort_only_calls:
  assumes "in_bucket (np_abort (logged_parts be) ref) st = (st', r)"
  shows "only_calls st st'"
  by (rule logged_only_calls [of "np_abort be ref" "AbortAsked ref"]) (use assms in \<open>simp_all add: logged_parts_def\<close>)

lemma abort_rounds_closed:
  "abort_rounds (logged_parts be) ref k st = (st', confirmed) \<Longrightarrow>
     only_calls st st' \<and> (confirmed \<longrightarrow> closed_upload ref (set (call_log st')))"
proof (induction k arbitrary: st)
  case 0
  then show ?case by simp
next
  case (Suc k)
  obtain st1 q where q: "in_bucket (np_abort (logged_parts be) ref) st = (st1, q)" by fastforce
  obtain st2 l where l: "in_bucket (np_list_parts (logged_parts be) ref) st1 = (st2, l)" by fastforce
  have st2: "only_calls st st2" using only_calls_trans [OF abort_only_calls [OF q] list_only_calls(1) [OF l]] .
  have listed: "Listed ref l \<in> set (call_log st2)" using list_only_calls(2) [OF l] .
  show ?case
  proof (cases "\<not> is_ok q \<and> q \<noteq> Err NoSuchUpload")
    case True
    then show ?thesis using Suc.prems q abort_only_calls [OF q] by simp
  next
    case False
    then have eq: "(case l of Err NoSuchUpload \<Rightarrow> (st2, True)
        | Ok parts \<Rightarrow> if parts = [] then (st2, True) else abort_rounds (logged_parts be) ref k st2
        | Err _ \<Rightarrow> (st2, False)) = (st', confirmed)"
      using Suc.prems by (simp only: abort_rounds.simps q l if_False prod.case)
    show ?thesis
    proof (cases l)
      case (Ok parts)
      then show ?thesis using eq st2 listed Suc.IH [of st2] only_calls_trans [OF st2]
        by (cases "parts = []") (auto simp: closed_upload_def)
    next
      case (Err e)
      then show ?thesis using eq st2 listed by (cases e) (auto simp: closed_upload_def)
    qed
  qed
qed

section \<open>The steps of a sweep\<close>

definition reads_succeed :: "gc_env \<Rightarrow> bool" where
  "reads_succeed ge \<longleftrightarrow> (\<forall>i. se_read ge i \<and> ge_manifest_read ge i \<and> ge_anchor_read ge i)"

lemma sweep_inv_dir:
  assumes "sweep_inv now st0 st" "fmlookup (ur_dirs (us_root st)) i = Some d"
  shows "fmlookup (ur_dirs (us_root st0)) i = Some d"
proof -
  have "fmlookup (ur_dirs (us_root st)) i = None \<or> fmlookup (ur_dirs (us_root st)) i = fmlookup (ur_dirs (us_root st0)) i"
    using assms(1) unfolding sweep_inv_def by blast
  then show ?thesis using assms(2) by auto
qed

lemma sweep_inv_anchor:
  assumes "sweep_inv now st0 st"
  shows "fmlookup (ur_anchors (us_root st)) i = fmlookup (ur_anchors (us_root st0)) i
    \<or> (\<exists>d m. fmlookup (ur_dirs (us_root st0)) i = Some d \<and> sd_manifest d = Json m)
    \<or> (\<forall>a. fmlookup (ur_anchors (us_root st0)) i \<noteq> Some (Json a))
    \<or> orphan_settled (fmlookup (ur_anchors (us_root st0)) i) (set (call_log st))"
  using assms unfolding sweep_inv_def by blast

lemma remove_dir_inv:
  assumes "sweep_inv now st0 st"
    and "\<And>d. fmlookup (ur_dirs (us_root st)) i = Some d \<Longrightarrow>
           disposed now (us_db st0) i d (fmlookup (ur_anchors (us_root st0)) i) (set (call_log st))"
  shows "sweep_inv now st0 (remove_session_dir up i st)"
proof (cases "fmlookup (ur_dirs (us_root st)) i")
  case None
  then have "ur_dirs (us_root st) = fmdrop i (ur_dirs (us_root st))" by (intro fmap_ext) simp
  then have "remove_session_dir up i st = st" by (simp add: remove_session_dir_def)
  then show ?thesis using assms(1) by simp
next
  case (Some d)
  then show ?thesis using assms(1) assms(2) [OF Some] sweep_inv_dir [OF assms(1) Some]
    by (auto simp: sweep_inv_def remove_session_dir_def)
qed

lemma remove_anchor_inv:
  assumes "sweep_inv now st0 st"
    and "(\<exists>d m. fmlookup (ur_dirs (us_root st0)) i = Some d \<and> sd_manifest d = Json m)
      \<or> (\<forall>a. fmlookup (ur_anchors (us_root st0)) i \<noteq> Some (Json a))
      \<or> orphan_settled (fmlookup (ur_anchors (us_root st0)) i) (set (call_log st))"
  shows "sweep_inv now st0 (remove_s3_anchor up i st)"
  using assms by (auto simp: sweep_inv_def remove_s3_anchor_def)

lemma remove_frame [simp]:
  "s3_world (remove_s3_anchor up i st) = s3_world st" "ur_dirs (us_root (remove_s3_anchor up i st)) = ur_dirs (us_root st)"
  "s3_world (remove_session_dir up i st) = s3_world st"
  by (simp_all add: remove_s3_anchor_def remove_session_dir_def)

lemma orphan_inv:
  assumes inv: "sweep_inv now st0 st" and anchor: "fmlookup (ur_anchors (us_root st)) i = Some (Json a)"
    and unreadable: "\<And>d m. fmlookup (ur_dirs (us_root st)) i = Some d \<Longrightarrow> sd_manifest d \<noteq> Json m"
    and "closed_upload (anchor_ref a) (set (call_log st))" "Headed (anchor_ref a) (Ok None) \<in> set (call_log st)"
  shows "sweep_inv now st0 (remove_session_dir up2 i (remove_s3_anchor up1 i st))"
proof -
  have reason: "(\<exists>d m. fmlookup (ur_dirs (us_root st0)) i = Some d \<and> sd_manifest d = Json m)
      \<or> (\<forall>a. fmlookup (ur_anchors (us_root st0)) i \<noteq> Some (Json a))
      \<or> orphan_settled (fmlookup (ur_anchors (us_root st0)) i) (set (call_log st))"
    using sweep_inv_anchor [OF inv, of i] anchor assms(4,5) by (auto simp: orphan_settled_def)
  have "disposed now (us_db st0) i d (fmlookup (ur_anchors (us_root st0)) i) (set (call_log st))"
    if "fmlookup (ur_dirs (us_root st)) i = Some d" for d
    using reason unreadable [OF that] sweep_inv_dir [OF inv that] by (auto simp: disposed_def)
  then show ?thesis by (intro remove_dir_inv remove_anchor_inv [OF inv reason]) simp
qed

lemma sweep_anchor_inv:
  assumes inv: "sweep_inv now st0 st" and reads: "reads_succeed ge"
  shows "sweep_inv now st0 (sweep_anchor ge (logged_ports ports) i st)"
proof (cases "\<exists>a. fmlookup (ur_anchors (us_root st)) i = Some (Json a)")
  case False
  then have "sweep_inv now st0 (remove_s3_anchor (ge_anchor_gone ge i) i st)" if "fmlookup (ur_anchors (us_root st)) i = Some jf" for jf
    using sweep_inv_anchor [OF inv, of i] that by (intro remove_anchor_inv [OF inv]) auto
  then show ?thesis using False inv reads
    by (auto simp: sweep_anchor_def read_json_def reads_succeed_def split: option.split jfile.split)
next
  case True
  then obtain a where a: "fmlookup (ur_anchors (us_root st)) i = Some (Json a)" by blast
  show ?thesis
  proof (cases "manifest_readable ge i st")
    case True
    then obtain d m where "fmlookup (ur_dirs (us_root st)) i = Some d" "sd_manifest d = Json m"
      using reads by (auto simp: manifest_readable_def read_json_def reads_succeed_def split: option.split_asm jfile.split_asm if_split_asm)
    then have "sweep_inv now st0 (remove_s3_anchor (ge_anchor_gone ge i) i st)"
      using sweep_inv_dir [OF inv] by (intro remove_anchor_inv [OF inv]) blast
    then show ?thesis using a True reads by (simp add: sweep_anchor_def read_json_def reads_succeed_def)
  next
    case False
    have unreadable: "sd_manifest d \<noteq> Json m" if "fmlookup (ur_dirs (us_root st)) i = Some d" for d m
      using False that reads by (auto simp: manifest_readable_def read_json_def reads_succeed_def)
    show ?thesis
    proof (cases "sp_backend ports = None \<or> sp_probe ports = None")
      case True
      then show ?thesis using a False reads inv by (auto simp: sweep_anchor_def read_json_def reads_succeed_def split: option.split)
    next
      case wired: False
      then obtain be pr where p: "sp_backend ports = Some be" "sp_probe ports = Some pr" by auto
      obtain st1 gone where r: "abort_rounds (logged_parts be) (anchor_ref a) 3 st = (st1, gone)" by fastforce
      obtain st2 h where h: "in_bucket (op_head (logged_probe pr) (anchor_ref a)) st1 = (st2, h)" by fastforce
      note c1 = abort_rounds_closed [OF r]
      note c2 = only_calls_trans [OF conjunct1 [OF c1] head_only_calls(1) [OF h]]
      have inv1: "sweep_inv now st0 st1" and inv2: "sweep_inv now st0 st2" using only_calls_inv [OF inv] c1 c2 by blast+
      have root: "us_root st2 = us_root st" using c2 by (simp add: only_calls_def)
      have "closed_upload (anchor_ref a) (set (call_log st2))" if gone
        using c1 that closed_upload_mono only_calls_subset [OF head_only_calls(1) [OF h]] by blast
      then have "sweep_inv now st0 (remove_session_dir (se_removed ge i) i (remove_s3_anchor (ge_anchor_gone ge i) i st2))"
        if "gone" "h = Ok None"
        using that orphan_inv [OF inv2, of i a] a unreadable head_only_calls(2) [OF h] by (simp add: root)
      then show ?thesis using a False reads p r h inv1 inv2
        by (auto simp: sweep_anchor_def read_json_def reads_succeed_def abort_until_confirmed_def Let_def
            split: bool.split result.split option.split)
    qed
  qed
qed

lemma delete_inv:
  assumes inv: "sweep_inv now st0 st"
    and d: "in_bucket (op_delete_if_match (logged_probe pr) ref etag) st = (st', r)"
    and may: "may_delete now (us_db st0) (ur_dirs (us_root st0)) (set (call_log st)) ref etag"
  shows "sweep_inv now st0 st'" "us_root st' = us_root st" "call_log st' = call_log st @ [DeleteAsked ref etag r]"
proof -
  have eq: "in_bucket (logged (op_delete_if_match pr ref etag) (DeleteAsked ref etag)) st = (st', r)" using d by (simp add: logged_probe_def)
  note frame = in_bucket_logged [OF eq]
  have "deletes_after (may_delete now (us_db st0) (ur_dirs (us_root st0))) (call_log st')"
    using inv may unfolding frame sweep_inv_def by (intro deletes_after_snoc) auto
  moreover have sub: "set (call_log st) \<subseteq> set (call_log st')" using frame(1) by auto
  note mono = disposed_mono [OF _ sub] orphan_settled_mono [OF _ sub]
  ultimately show "sweep_inv now st0 st'"
    using inv unfolding sweep_inv_def frame(2,3) by (intro conjI allI) (blast intro: mono)+
  show "us_root st' = us_root st" "call_log st' = call_log st @ [DeleteAsked ref etag r]" using frame by simp_all
qed

lemma session_ready_inv:
  assumes inv: "sweep_inv now st0 st" and d: "fmlookup (ur_dirs (us_root st0)) i = Some d" "expired_s3 now d m" "sd_completed d = NoFile"
    and ready: "s3_expired_session_ready ge m i (logged_parts be) (logged_probe pr) st = (st', r)"
  shows "sweep_inv now st0 st' \<and> us_root st' = us_root st
    \<and> (r = Ok True \<longrightarrow> (\<exists>ref. manifest_ref m = Some ref \<and> settled (us_db st0) m i ref (set (call_log st'))))
    \<and> (r = Err () \<longrightarrow> manifest_ref m = None)"
proof (cases "manifest_ref m")
  case None
  then show ?thesis using ready inv by (auto simp: s3_expired_session_ready_def)
next
  case (Some ref)
  obtain st1 gone where a: "abort_rounds (logged_parts be) ref 3 st = (st1, gone)" by fastforce
  obtain st2 h where h: "in_bucket (op_head (logged_probe pr) ref) st1 = (st2, h)" by fastforce
  note c1 = abort_rounds_closed [OF a]
  note c2 = only_calls_trans [OF conjunct1 [OF c1] head_only_calls(1) [OF h]]
  have inv1: "sweep_inv now st0 st1" and inv2: "sweep_inv now st0 st2" using only_calls_inv [OF inv] c1 c2 by blast+
  have root: "us_root st1 = us_root st" "us_root st2 = us_root st" using c1 c2 by (simp_all add: only_calls_def)
  have db: "us_db st2 = us_db st0" using inv2 by (simp add: sweep_inv_def)
  have headed: "Headed ref h \<in> set (call_log st2)" using head_only_calls(2) [OF h] .
  have closed: "closed_upload ref (set (call_log st2))" if gone
    using c1 that closed_upload_mono only_calls_subset [OF head_only_calls(1) [OF h]] by blast
  show ?thesis
  proof (cases "\<exists>head. gone \<and> h = Ok (Some head) \<and> fo_upload_id head = Some i \<and> ge_row ge i")
    case False
    then show ?thesis using ready a h inv1 inv2 root Some headed closed
      by (auto simp: s3_expired_session_ready_def abort_until_confirmed_def get_file_metadata_def settled_def
          split: bool.split_asm result.split_asm option.split_asm if_split_asm)
  next
    case True
    then obtain head where t: gone "h = Ok (Some head)" "fo_upload_id head = Some i" "ge_row ge i" by blast
    obtain st3 q where q: "in_bucket (op_delete_if_match (logged_probe pr) ref (fo_etag head)) st2 = (st3, q)" by fastforce
    have refers: "(case get_by_file_id (mf_reserved_file_id m) (us_db st0) of Some meta \<Rightarrow> row_uses_final_object m meta | None \<Rightarrow> False)
        \<longleftrightarrow> row_refers (us_db st0) m"
      by (auto simp: row_refers_def split: option.split)
    have eq: "(if row_refers (us_db st0) m then (st2, Ok True)
        else (case q of Ok gone \<Rightarrow> (st3, Ok gone) | Err _ \<Rightarrow> (st3, Ok False))) = (st', r)"
      using ready a h t q Some refers
      by (auto simp: s3_expired_session_ready_def abort_until_confirmed_def get_file_metadata_def db split: if_split_asm result.split_asm)
    show ?thesis
    proof (cases "row_refers (us_db st0) m")
      case True
      then show ?thesis using eq inv2 root Some headed closed [OF t(1)] t(2,3) by (auto simp: settled_def)
    next
      case False
      have "may_delete now (us_db st0) (ur_dirs (us_root st0)) (set (call_log st2)) ref (fo_etag head)"
        unfolding may_delete_def using d Some closed [OF t(1)] headed t(2,3) False by blast
      note del = delete_inv [OF inv2 q this]
      have "settled (us_db st0) m i ref (set (call_log st3))" if "q = Ok True"
        using that headed closed [OF t(1)] t(2,3) unfolding settled_def del(3) closed_upload_def by auto
      then show ?thesis using eq False del(1,2) root Some by (auto split: result.split_asm)
    qed
  qed
qed

lemma sweep_s3_one_inv:
  assumes inv: "sweep_inv now st0 st" and reads: "reads_succeed ge"
  shows "sweep_inv now st0 (fst (sweep_s3_one ge (logged_ports ports) now i (st, n)))"
proof (cases "fmlookup (ur_dirs (us_root st)) i")
  case None
  then show ?thesis using inv by (simp add: sweep_s3_one_def Let_def)
next
  case (Some d)
  note d0 = sweep_inv_dir [OF inv Some]
  have rd: "se_read ge i" "ge_anchor_read ge i" using reads by (simp_all add: reads_succeed_def)
  show ?thesis
  proof (cases "\<exists>m. sd_manifest d = Json m")
    case False
    have "sweep_inv now st0 (remove_session_dir True i st)" if "\<forall>a. fmlookup (ur_anchors (us_root st)) i \<noteq> Some (Json a)"
      using that False sweep_inv_anchor [OF inv, of i] d0 Some by (intro remove_dir_inv [OF inv]) (auto simp: disposed_def)
    then show ?thesis using Some False rd inv
      by (auto simp: sweep_s3_one_def Let_def read_json_def split: jfile.split option.split)
  next
    case True
    then obtain m where m: "sd_manifest d = Json m" by blast
    have both: "sweep_inv now st0 (remove_s3_anchor up i (remove_session_dir True i x))"
      if "sweep_inv now st0 x" "us_root x = us_root st" "disposed now (us_db st0) i d (fmlookup (ur_anchors (us_root st0)) i) (set (call_log x))" for x up
      using that d0 m Some by (intro remove_anchor_inv remove_dir_inv) auto
    show ?thesis
    proof (cases "expired_s3 now d m \<and> \<not> (sd_lock d \<and> \<not> se_free ge i)")
      case False
      then show ?thesis using Some m rd inv by (auto simp: sweep_s3_one_def Let_def read_json_def expired_s3_def)
    next
      case e: True
      have start: "sweep_s3_one ge (logged_ports ports) now i (st, n) =
        (let remove_both = (\<lambda>st. if se_removed ge i
               then (remove_s3_anchor (ge_anchor_gone ge i) i (remove_session_dir True i st), n + 1) else (st, n))
         in if sd_completed d \<noteq> NoFile then remove_both st
            else (case (sp_backend (logged_ports ports), sp_probe (logged_ports ports)) of
                    (Some be, Some pr) \<Rightarrow>
                      (case s3_expired_session_ready ge m i be pr st of
                         (st1, Ok True) \<Rightarrow> remove_both st1 | (st1, Err _) \<Rightarrow> remove_both st1 | (st1, Ok False) \<Rightarrow> (st1, n))
                  | _ \<Rightarrow> (st, n)))"
        using Some m rd e by (auto simp: sweep_s3_one_def Let_def read_json_def expired_s3_def)
      show ?thesis
      proof (cases "sd_completed d \<noteq> NoFile \<or> sp_backend ports = None \<or> sp_probe ports = None")
        case True
        then show ?thesis using both [OF inv refl] inv e
          by (auto simp: start Let_def disposed_def split: option.split)
      next
        case False
        then obtain be pr where p: "sp_backend ports = Some be" "sp_probe ports = Some pr" "sd_completed d = NoFile" by auto
        obtain st1 r where r: "s3_expired_session_ready ge m i (logged_parts be) (logged_probe pr) st = (st1, r)" by fastforce
        note ready = session_ready_inv [OF inv d0 conjunct1 [OF e] p(3) r]
        then have "disposed now (us_db st0) i d (fmlookup (ur_anchors (us_root st0)) i) (set (call_log st1))" if "r \<noteq> Ok False"
          using that e by (cases r) (auto simp: disposed_def)
        then show ?thesis using both [of st1] ready p r
          by (auto simp: start Let_def split: result.split bool.split)
      qed
    qed
  qed
qed


text \<open>The premise about reads is needed: a single failing read of a manifest removes the directory of a
  live session that has no anchor any more, and with it the only reference to its open upload.\<close>

lemma failed_read_drops_session:
  assumes "fmlookup (ur_dirs (us_root st)) i = Some d" "sd_manifest d = Json m" "fmlookup (ur_anchors (us_root st)) i = None"
    and "\<not> se_read ge i" "se_removed ge i"
  shows "sweep_s3_one ge ports now i (st, n) = (remove_session_dir True i st, n + 1)"
  using assms by (simp add: sweep_s3_one_def read_json_def Let_def)

section \<open>A sample sweep\<close>

definition sweep_demo_env :: gc_env where
  "sweep_demo_env = \<lparr>se_listed = True, se_read = (\<lambda>_. True), se_free = (\<lambda>_. True), se_removed = (\<lambda>_. True), ge_anchors = True,
     ge_manifest_read = (\<lambda>_. True), ge_anchor_read = (\<lambda>_. True), ge_anchor_gone = (\<lambda>_. True), ge_row = (\<lambda>_. True)\<rparr>"

abbreviation abandoned :: "(plain_bucket \<times> bucket_call list) s3_state" where
  "abandoned \<equiv> s3_demo_state one_part_manifest demo_tables
     (one_part_bucket (fmupd ''k'' \<lparr>po_content = demo_file, po_upload_id = demo_id, po_etag = ''e''\<rparr> fmempty), [])"

lemma abandoned_ready:
  "\<exists>st'. s3_expired_session_ready sweep_demo_env one_part_manifest demo_id (logged_parts plain_parts) (logged_probe plain_probe) abandoned
      = (st', Ok True) \<and> us_root st' = us_root abandoned"
proof -
  have ref: "manifest_ref one_part_manifest = Some s3_demo_ref"
    by (simp add: manifest_ref_def one_part_manifest_def s3_demo_manifest_def manifest_of_def)
  show ?thesis
    by (simp add: s3_expired_session_ready_def ref abort_until_confirmed_def numeral_3_eq_3 in_bucket_def logged_parts_def logged_probe_def
        logged_def plain_parts_def plain_probe_def s3_demo_state_def get_file_metadata_def get_by_file_id_def demo_tables_def sweep_demo_env_def)
qed


end
