(* ===== verification/Spec2Isabelle.thy ===== *)
theory Spec2Isabelle
  imports ConnectionRaces SubscribeManager Pts OfflineStorage IntentState ClientState
    FriendSync SendAuthorization S3Sweep
begin

text \<open>
  A verification development for the instant-messaging server \<open>privchat\<close> (Rust sources under
  \<open>src/src\<close>). It models the parts of the server that keep state of their own or take decisions, and
  proves what they promise. Where the code does something else than it promises, the theorem states
  what it does.

  \<^bold>\<open>How the program is modelled.\<close> A struct is a record, an enum a datatype, a \<open>HashMap\<close>, \<open>DashMap\<close>
  or database table a finite map by its key. A method is a function from the old state to the new one
  and the result; \<open>Result\<close> is \<open>Ok\<close> or \<open>Err\<close>. The clock is an argument: every call gets the time it
  reads, in milliseconds. \<open>u64\<close> values are 64-bit words and wrap, \<open>i64\<close> columns are integers with the
  casts written out. Code outside the repository is an argument: the transport's send function, the
  protocol crate's codes and parsers, its attachment format, SHA-256, the range check of the time
  library, random keys, JSON values.
  A database statement may fail: a call takes a flag per statement, and a failed statement in a
  transaction leaves the table as it was. Loops over collections are recursive functions; the only
  loop with a bound is the client that pulls sync pages, whose bound is one more than the rows left,
  which is proved to be enough. The wait for a session lock is a partial function that is proved to
  return. A component is driven by an arbitrary list of calls (\<open>run\<close> of
  \<open>Prelude\<close>); the locale \<open>invariant_system\<close> lifts a one-step invariant to all such runs and is
  interpreted by each component.

  \<^bold>\<open>Sessions and delivery.\<close> \<open>infra/connection_manager.rs\<close> holds the two indexes of live sessions.
  \<open>ConnectionManager\<close> has its state and life cycle (register, authenticate, close, sweep, kick),
  \<open>ConnectionDelivery\<close> the push path with its report, \<open>ConnectionRaces\<close> the interleaving of the
  critical sections that the two locks make atomic. Shown: the indexes agree after every run; a login
  replaces exactly the older session of its device; the watchdog closes only stale handshakes; kicks
  and pushes reach exactly the right sessions; reports account for every target; no interleaving
  delivers to a wrong user, but a close during a login leaves an orphaned entry, a failed delivery
  leaks the counter and a re-login keeps the old route. \<open>SubscribeManager\<close>
  (\<open>infra/subscribe_manager.rs\<close>) refines a relation between sessions and channels.

  \<^bold>\<open>Ordering and offline messages.\<close> \<open>Pts\<close> (\<open>model/pts.rs\<close>): per-channel message numbers are
  consecutive; the cleanup of the message index keeps the newest; two channels can collide in it.
  \<open>OfflineMessage\<close>, \<open>OfflineQueue\<close>, \<open>OfflineStorage\<close> (\<open>offline/\<close>): queues stay within their bounds
  and the counters account for every message; popping gives the most urgent messages first; storage
  returns what was stored; the eviction, acknowledgement and limited reads do not do what their
  documentation says. \<open>IntentState\<close> (\<open>push/intent_state.rs\<close>) refines a table of push intents whose
  decisions are final. \<open>ClientState\<close> (\<open>security/client_state.rs\<close>): the trust score stays in range and
  exactly which violations lower a penalty.

  \<^bold>\<open>People and channels.\<close> \<open>ChannelModel\<close> (\<open>model/channel.rs\<close>): channels, members, roles,
  permissions, rows; a group keeps its owner, a direct conversation its two users, codes and rows
  survive their round trips. \<open>ServerErrors\<close> (\<open>error.rs\<close>, \<open>rpc/error.rs\<close>) and \<open>Decimal\<close> are shared
  by what follows. \<open>Friendship\<close> (\<open>service/friend_service.rs\<close>, \<open>service/blacklist_service.rs\<close>):
  friendship is mutual after any run with any failures. \<open>FriendSync\<close> (\<open>sync_entities_page\<close>): a client
  that pulls pages gets every change once and ends. \<open>QrCode\<close> (\<open>service/qrcode_service.rs\<close>,
  \<open>rpc/qrcode/\<close>): usage limits and revocation. \<open>Privacy\<close> (\<open>service/privacy_service.rs\<close>): profiles
  open only with evidence and consent; updates of the stored settings are exact. \<open>FriendApply\<close>
  (\<open>rpc/account/user/detail.rs\<close>, \<open>rpc/contact/friend/apply.rs\<close>) joins these into the path of a friend
  request. \<open>SendAuthorization\<close> (\<open>service/send_authorization.rs\<close>) decides who may write: failures
  never let a message through, and a removed friend stays out.

  \<^bold>\<open>File uploads.\<close> \<open>UploadRanges\<close> has the range arithmetic on 64-bit words that both upload
  transports share (\<open>service/chunked_upload.rs\<close>, \<open>service/numbered_parts.rs\<close>). \<open>ChunkedUpload\<close> has the
  session directories of \<open>service/chunked_upload.rs\<close>: tokens, manifests, part files, assembly,
  tombstones, the sweep; each system call may fail or crash. Shown: an assembled body is the file that
  was sent, and a crash never blocks a session. \<open>AttachmentVerify\<close> (\<open>service/attachment_verify.rs\<close>)
  checks a stored ciphertext against what was frozen when the upload was granted; a broken read is never
  taken for bad content. \<open>FileRecords\<close> (\<open>service/file_service.rs\<close>,
  \<open>repository/file_upload_repo.rs\<close>) has the file and object tables, publishing without overwriting and
  the convergence of equal uploads. \<open>UploadRoutes\<close> (\<open>http/routes/upload.rs\<close>) joins them into the
  endpoints: no record dangles after any run of requests, a completed upload keeps its file id, and the
  wait for a session lock ends. \<open>S3Upload\<close> (\<open>http/routes/upload_s3.rs\<close>, \<open>service/numbered_parts.rs\<close>,
  \<open>service/final_object_probe.rs\<close>) and \<open>S3Sweep\<close> (the sweepers of \<open>service/chunked_upload.rs\<close>) are the
  uploads that go straight to a bucket, over any bucket behind its two traits; what they do to it is
  read off a log of its calls. Shown: a completion and a sweep delete only what they have evidence for,
  nothing is answered without verified bytes, the status is exact; but uploads of the same content share
  a key and can delete each other's object, and concurrent requests for part URLs lose digests.

  \<^bold>\<open>How the parts interact.\<close> \<open>SendAuthorization\<close> and \<open>FriendApply\<close> read the same tables
  (\<open>social\<close>): friendships, blacklist, privacy settings, QR keys, cached evidence and channels. The
  other components share identifiers only and are driven independently of each other.

  \<^bold>\<open>Not modelled.\<close> Network and disk I/O, SQL beyond the statements of the modelled services, Redis
  and sled clients, timers and background tasks, JSON and HTTP framing, token cryptography and push
  providers, configuration and start-up: they are calls into libraries or carry no state of their
  own. The message send handler, timeline commit, whole-file uploads and downloads, calls, presence and
  the remaining remote calls chain such I/O around services; of these only the parts named above are
  modelled.
\<close>

end
